(* ===== verification/Prelude.thy ===== *)
theory Prelude
  imports Main "HOL-Library.Word" "HOL-Library.Sublist"
begin

unbundle bit_operations_syntax

text \<open>
  Shared ground of the development: the names of the machine integers, the rule
  collections the components fill, and the generic lemmas on lists and words that
  more than one component uses.

  A C \<^verbatim>\<open>int\<close> that the program stores or sends is a 32-bit word read in two's
  complement by \<open>sint\<close>; a C \<^verbatim>\<open>int\<close> that is only a return code is an \<open>int\<close>.
\<close>

section \<open>Machine integers\<close>

type_synonym u8 = "8 word"
type_synonym u16 = "16 word"
type_synonym u32 = "32 word"
type_synonym u64 = "64 word"
type_synonym i32 = "32 word"

section \<open>Rule collections\<close>

named_theorems libc_simps "unfolding rules of the C library functions the sources call"
named_theorems log_simps "what a logging call does to the logging state"
named_theorems lib_simps "field updates of the libipvs state"

section \<open>Lists\<close>

lemma takeWhile_append_dropWhile:
  "takeWhile P xs @ dropWhile P xs = xs"
  by simp

lemma dropWhile_idem [simp]: "dropWhile P (dropWhile P xs) = dropWhile P xs"
  by (induction xs) auto

lemma suffix_hd_or_tl: "suffix ys xs \<Longrightarrow> ys = xs \<or> suffix ys (tl xs)"
  by (cases xs) (auto simp: suffix_Cons)

lemma remove1_Cons_same [simp]: "remove1 x (x # xs) = xs"
  by simp

text \<open>How many elements satisfy a predicate, after one of them changed.\<close>

lemma length_filter_update:
  assumes "i < length xs"
  shows "length (filter P (xs[i := y])) + (if P (xs ! i) then 1 else 0)
    = length (filter P xs) + (if P y then 1 else 0)"
proof -
  have "xs = take i xs @ xs ! i # drop (Suc i) xs" using assms by (rule id_take_nth_drop)
  then have "filter P xs = filter P (take i xs @ xs ! i # drop (Suc i) xs)" by (rule arg_cong)
  then have "length (filter P xs) = length (filter P (take i xs)) + (if P (xs ! i) then 1 else 0)
      + length (filter P (drop (Suc i) xs))"
    by (simp only: filter_append filter.simps length_append length_Cons split: if_split) simp
  then show ?thesis using assms by (simp add: upd_conv_take_nth_drop)
qed

lemma length_filter_pos: "i < length xs \<Longrightarrow> P (xs ! i) \<Longrightarrow> 0 < length (filter P xs)"
  by (auto simp: filter_empty_conv)

end
