(* ===== verification/Libc.thy ===== *)
theory Libc
  imports Prelude
begin

text \<open>
  The C library functions the sources call on text: character classes, NUL-terminated
  strings, \<^verbatim>\<open>strncmp\<close>, \<^verbatim>\<open>strchr\<close>, \<^verbatim>\<open>strtol\<close>, \<^verbatim>\<open>atoi\<close>, and the decimal output of a
  C++ stream. A \<open>string\<close> is a list of bytes. The character classes are those of the
  "C" locale, which the program never leaves (it does not call \<^verbatim>\<open>setlocale\<close>); there a
  byte of 128 and above is in no class.
\<close>

section \<open>Character classes\<close>

definition isspace :: "char \<Rightarrow> bool" where
  "isspace c = (let n = of_char c :: nat in n = 32 \<or> (9 \<le> n \<and> n \<le> 13))"

definition isdigit :: "char \<Rightarrow> bool" where
  "isdigit c = (let n = of_char c :: nat in 48 \<le> n \<and> n \<le> 57)"

definition tolower :: "char \<Rightarrow> char" where
  "tolower c = (let n = of_char c :: nat in if 65 \<le> n \<and> n \<le> 90 then char_of (n + 32) else c)"

abbreviation NUL :: char where
  "NUL \<equiv> CHR 0x00"

lemma isdigit_not_isspace: "isdigit c \<Longrightarrow> \<not> isspace c"
  by (auto simp: isdigit_def isspace_def Let_def)

lemma isdigit_char_of: "d < 10 \<Longrightarrow> isdigit (char_of (48 + d :: nat))"
  by (simp add: isdigit_def Let_def of_char_of)

lemma tolower_idem [simp]: "tolower (tolower c) = tolower c"
  by (auto simp: tolower_def Let_def of_char_of)

section \<open>NUL-terminated strings\<close>

text \<open>The C string a byte sequence holds: everything before the first NUL.\<close>

definition c_str :: "string \<Rightarrow> string" where
  "c_str s = takeWhile (\<lambda>c. c \<noteq> NUL) s"

lemma c_str_no_NUL [simp]: "NUL \<notin> set (c_str s)"
  by (auto simp: c_str_def dest: set_takeWhileD)

lemma c_str_id: "NUL \<notin> set s \<Longrightarrow> c_str s = s"
  by (auto simp: c_str_def takeWhile_eq_all_conv)

lemma c_str_idem [simp]: "c_str (c_str s) = c_str s"
  by (rule c_str_id) simp

text \<open>
  Whether \<^verbatim>\<open>strncmp(a, b, n)\<close> is 0: the strings agree on their first \<open>n\<close> bytes, or end
  together before that. The arguments are the contents of C strings (no NUL inside).
\<close>

fun strncmp_eq :: "string \<Rightarrow> string \<Rightarrow> nat \<Rightarrow> bool" where
  "strncmp_eq a b 0 = True"
| "strncmp_eq [] [] (Suc n) = True"
| "strncmp_eq (x # a) (y # b) (Suc n) = (x = y \<and> strncmp_eq a b n)"
| "strncmp_eq [] (y # b) (Suc n) = False"
| "strncmp_eq (x # a) [] (Suc n) = False"

lemma strncmp_eq_prefix: "strncmp_eq a b (length b) = prefix b a"
  by (induction a b "length b" rule: strncmp_eq.induct) auto

text \<open>\<^verbatim>\<open>strchr\<close> and \<^verbatim>\<open>strrchr\<close>: the offset of the first and of the last occurrence.\<close>

fun strchr :: "string \<Rightarrow> char \<Rightarrow> nat option" where
  "strchr [] c = None"
| "strchr (x # xs) c = (if x = c then Some 0 else map_option Suc (strchr xs c))"

fun strrchr :: "string \<Rightarrow> char \<Rightarrow> nat option" where
  "strrchr [] c = None"
| "strrchr (x # xs) c =
     (case strrchr xs c of Some i \<Rightarrow> Some (Suc i) | None \<Rightarrow> if x = c then Some 0 else None)"

lemma strchr_None: "strchr s c = None \<longleftrightarrow> c \<notin> set s"
  by (induction s) auto

lemma strchr_Some:
  "strchr s c = Some i \<Longrightarrow> i < length s \<and> s ! i = c \<and> c \<notin> set (take i s)"
  by (induction s arbitrary: i) (auto split: if_splits)

lemma strchr_append: "c \<notin> set a \<Longrightarrow> strchr (a @ c # b) c = Some (length a)"
  by (induction a) auto

lemma strrchr_None: "strrchr s c = None \<longleftrightarrow> c \<notin> set s"
  by (induction s) (auto split: option.splits)

lemma strrchr_append: "c \<notin> set b \<Longrightarrow> strrchr (a @ c # b) c = Some (length a)"
  by (induction a) (auto simp: strrchr_None [THEN iffD2])

text \<open>\<^verbatim>\<open>strncpy\<close> into a zeroed array of \<open>n\<close> bytes, as the C string that array then holds.\<close>

definition strncpy :: "string \<Rightarrow> nat \<Rightarrow> string" where
  "strncpy s n = take n (c_str s)"

lemma strncpy_length [simp]: "length (strncpy s n) \<le> n"
  by (simp add: strncpy_def)

lemma strncpy_id: "NUL \<notin> set s \<Longrightarrow> length s \<le> n \<Longrightarrow> strncpy s n = s"
  by (simp add: strncpy_def c_str_id)

section \<open>Numbers in decimal\<close>

definition digit_val :: "char \<Rightarrow> int" where
  "digit_val c = int (of_char c) - 48"

definition digits_val :: "string \<Rightarrow> int" where
  "digits_val ds = foldl (\<lambda>n c. 10 * n + digit_val c) 0 ds"

definition LONG_MAX :: int where
  "LONG_MAX = 2 ^ 63 - 1"

definition LONG_MIN :: int where
  "LONG_MIN = - (2 ^ 63)"

text \<open>
  \<^verbatim>\<open>strtol(s, &end, 10)\<close> with a 64-bit \<^verbatim>\<open>long\<close>: white space, an optional sign, digits. The
  result is the value (saturated, with ERANGE), the text from \<^verbatim>\<open>end\<close> on, and whether
  \<^verbatim>\<open>errno\<close> was set to ERANGE. With no digit the value is 0 and \<^verbatim>\<open>end\<close> is the start.
\<close>

definition strtol_sign :: "string \<Rightarrow> bool \<times> string" where
  "strtol_sign t =
     (case t of [] \<Rightarrow> (False, [])
      | c # u \<Rightarrow> if c = CHR ''-'' then (True, u) else if c = CHR ''+'' then (False, u)
                 else (False, t))"

definition strtol :: "string \<Rightarrow> int \<times> string \<times> bool" where
  "strtol s =
     (let (neg, u) = strtol_sign (dropWhile isspace s);
          ds = takeWhile isdigit u
      in if ds = [] then (0, s, False)
         else let v = (if neg then - digits_val ds else digits_val ds);
                  rest = dropWhile isdigit u
              in if v > LONG_MAX then (LONG_MAX, rest, True)
                 else if v < LONG_MIN then (LONG_MIN, rest, True)
                 else (v, rest, False))"

text \<open>\<^verbatim>\<open>atoi\<close> is \<^verbatim>\<open>(int) strtol(s, NULL, 10)\<close>: the low 32 bits.\<close>

definition atoi :: "string \<Rightarrow> i32" where
  "atoi s = word_of_int (fst (strtol s))"

text \<open>Decimal output of a number (\<^verbatim>\<open>std::ostream <<\<close>).\<close>

fun dec_of_nat :: "nat \<Rightarrow> string" where
  "dec_of_nat n = (if n < 10 then [char_of (48 + n)]
                   else dec_of_nat (n div 10) @ [char_of (48 + n mod 10)])"

declare dec_of_nat.simps [simp del]

definition dec_of_int :: "int \<Rightarrow> string" where
  "dec_of_int i = (if i < 0 then CHR ''-'' # dec_of_nat (nat (- i)) else dec_of_nat (nat i))"

lemma digits_val_snoc: "digits_val (ds @ [c]) = 10 * digits_val ds + digit_val c"
  by (simp add: digits_val_def)

lemma digit_val_char_of: "d < 10 \<Longrightarrow> digit_val (char_of (48 + d)) = int d"
  by (simp add: digit_val_def of_char_of)

lemma dec_of_nat_nonempty [simp]: "dec_of_nat n \<noteq> []"
  by (subst dec_of_nat.simps) simp

lemma dec_of_nat_digits: "\<forall>c \<in> set (dec_of_nat n). isdigit c"
proof (induction n rule: dec_of_nat.induct)
  case (1 n)
  show ?case
  proof (cases "n < 10")
    case True
    then show ?thesis by (subst dec_of_nat.simps) (simp add: isdigit_char_of)
  next
    case False
    with "1.IH" show ?thesis by (subst dec_of_nat.simps) (auto simp: isdigit_char_of)
  qed
qed

lemma digits_val_dec_of_nat: "digits_val (dec_of_nat n) = int n"
proof (induction n rule: dec_of_nat.induct)
  case (1 n)
  show ?case
  proof (cases "n < 10")
    case True
    then show ?thesis
      by (subst dec_of_nat.simps) (simp add: digits_val_def digit_val_char_of)
  next
    case False
    have "10 * int (n div 10) + int (n mod 10) = int n" by presburger
    with False "1.IH" show ?thesis
      by (subst dec_of_nat.simps) (simp add: digits_val_snoc digit_val_char_of)
  qed
qed

lemma dec_of_nat_no_space: "\<not> isspace (hd (dec_of_nat n))"
  using dec_of_nat_digits [of n] isdigit_not_isspace by (metis dec_of_nat_nonempty hd_in_set)

lemma isdigit_not_sign: "isdigit c \<Longrightarrow> c \<noteq> CHR ''-'' \<and> c \<noteq> CHR ''+''"
  by (auto simp: isdigit_def Let_def)

lemma isdigit_not_NUL: "isdigit c \<Longrightarrow> c \<noteq> NUL"
  by (auto simp: isdigit_def Let_def)

text \<open>Reading back what was printed, for every number a \<^verbatim>\<open>long\<close> holds.\<close>

lemma strtol_dec_of_int:
  assumes "LONG_MIN \<le> i" and "i \<le> LONG_MAX"
  shows "strtol (dec_of_int i) = (i, [], False)"
proof -
  define m where "m = (if i < 0 then nat (- i) else nat i)"
  let ?d = "dec_of_nat m"
  have all: "takeWhile isdigit ?d = ?d" "dropWhile isdigit ?d = []"
    using dec_of_nat_digits by (simp_all add: takeWhile_eq_all_conv dropWhile_eq_Nil_conv)
  obtain c ds where cd: "?d = c # ds" by (cases ?d) simp_all
  then have c: "isdigit c" using dec_of_nat_digits [of m] by simp
  have sp: "dropWhile isspace ?d = ?d"
    using cd c isdigit_not_isspace by simp
  have sgn: "strtol_sign ?d = (False, ?d)"
    using cd c isdigit_not_sign by (simp add: strtol_sign_def)
  have minus: "\<not> isspace (CHR ''-'')" by (simp add: isspace_def)
  have val: "(if i < 0 then - digits_val ?d else digits_val ?d) = i"
    by (simp add: m_def digits_val_dec_of_nat)
  show ?thesis
  proof (cases "i < 0")
    case True
    then have "dec_of_int i = CHR ''-'' # ?d" by (simp add: dec_of_int_def m_def)
    with True val assms minus show ?thesis
      by (simp add: strtol_def strtol_sign_def all Let_def)
  next
    case False
    then have "dec_of_int i = ?d" by (simp add: dec_of_int_def m_def)
    with False val assms show ?thesis
      by (simp add: strtol_def sp sgn all Let_def)
  qed
qed

lemma dec_of_int_no_NUL: "NUL \<notin> set (dec_of_int i)"
  using dec_of_nat_digits isdigit_not_NUL by (auto simp: dec_of_int_def)

lemma atoi_dec_of_int:
  "- (2 ^ 31) \<le> i \<Longrightarrow> i < 2 ^ 31 \<Longrightarrow> atoi (dec_of_int i) = word_of_int i"
  by (simp add: atoi_def strtol_dec_of_int LONG_MIN_def LONG_MAX_def)

end
