(* ===== verification/IpVs.thy ===== *)
theory IpVs
  imports Libc
begin

text \<open>
  \<^verbatim>\<open>depend/libipvs/ip_vs.h\<close>: the data the library exchanges with the kernel. A struct is a
  record with the fields of the source, prefixed by a short name of the struct (\<open>svc_\<close> for
  \<^verbatim>\<open>ip_vs_service_user\<close>, \<open>svck_\<close> for its kernel form, \<open>dst_\<close>, \<open>dstk_\<close>, \<open>se_\<close>, \<open>sek_\<close>, \<open>de_\<close>,
  \<open>dek_\<close> and so on). A \<^verbatim>\<open>char\<close> array of 16 bytes is the C string it holds: at most 16 bytes,
  unterminated when it is exactly 16. Words in network byte order are the words as they lie
  in memory on a little-endian host; \<open>ntohl\<close> and \<open>ntohs\<close> swap their bytes.
\<close>

section \<open>Byte order\<close>

definition ntohl :: "u32 \<Rightarrow> u32" where
  "ntohl w = push_bit 24 (take_bit 8 w) OR push_bit 16 (take_bit 8 (drop_bit 8 w))
     OR push_bit 8 (take_bit 8 (drop_bit 16 w)) OR drop_bit 24 w"

definition ntohs :: "u16 \<Rightarrow> u16" where
  "ntohs w = push_bit 8 (take_bit 8 w) OR drop_bit 8 w"

abbreviation htonl :: "u32 \<Rightarrow> u32" where
  "htonl \<equiv> ntohl"

abbreviation htons :: "u16 \<Rightarrow> u16" where
  "htons \<equiv> ntohs"

lemma bit_ntohl: "bit (ntohl w) n \<longleftrightarrow>
  (if n < 8 then bit w (24 + n) else if n < 16 then bit w (8 + n)
   else if n < 24 then bit w (n - 8) else n < 32 \<and> bit w (n - 24))"
  by (auto simp: ntohl_def bit_simps dest: bit_imp_le_length)

lemma ntohl_ntohl [simp]: "ntohl (ntohl w) = w"
  by (rule bit_word_eqI) (auto simp: bit_ntohl)

lemma ntohs_ntohs [simp]: "ntohs (ntohs w) = w"
  by (rule bit_word_eqI) (auto simp: ntohs_def bit_simps not_less)

lemma ntohl_inject [simp]: "ntohl a = ntohl b \<longleftrightarrow> a = b"
  by (metis ntohl_ntohl)

lemma ntohs_inject [simp]: "ntohs a = ntohs b \<longleftrightarrow> a = b"
  by (metis ntohs_ntohs)

section \<open>Constants\<close>

definition IP_VS_VERSION_CODE :: u32 where "IP_VS_VERSION_CODE = 0x010201"

definition NVERSION :: "u32 \<Rightarrow> u32 \<times> u32 \<times> u32" where
  "NVERSION version = (drop_bit 16 version AND 0xFF, drop_bit 8 version AND 0xFF, version AND 0xFF)"

definition IP_VS_SVC_F_PERSISTENT :: u32 where "IP_VS_SVC_F_PERSISTENT = 0x0001"

definition IP_VS_SVC_F_ONEPACKET :: u32 where "IP_VS_SVC_F_ONEPACKET = 0x0004"

definition IP_VS_CONN_F_FWD_MASK :: u32 where "IP_VS_CONN_F_FWD_MASK = 0x0007"

definition IP_VS_CONN_F_DROUTE :: u32 where "IP_VS_CONN_F_DROUTE = 0x0003"

abbreviation (input) IP_VS_SCHEDNAME_MAXLEN :: nat where "IP_VS_SCHEDNAME_MAXLEN \<equiv> 16"

abbreviation (input) IP_VS_PENAME_MAXLEN :: nat where "IP_VS_PENAME_MAXLEN \<equiv> 16"

abbreviation (input) IP_VS_IFNAME_MAXLEN :: nat where "IP_VS_IFNAME_MAXLEN \<equiv> 16"

text \<open>Address families and protocols of the system headers, and the error numbers in use.\<close>

abbreviation (input) AF_INET :: u16 where "AF_INET \<equiv> 2"

abbreviation (input) AF_INET6 :: u16 where "AF_INET6 \<equiv> 10"

abbreviation (input) IPPROTO_TCP :: u16 where "IPPROTO_TCP \<equiv> 6"

abbreviation (input) IPPROTO_UDP :: u16 where "IPPROTO_UDP \<equiv> 17"

abbreviation (input) IPPROTO_SCTP :: u16 where "IPPROTO_SCTP \<equiv> 132"

abbreviation (input) EPERM :: int where "EPERM \<equiv> 1"

abbreviation (input) ENOENT :: int where "ENOENT \<equiv> 2"

abbreviation (input) ESRCH :: int where "ESRCH \<equiv> 3"

abbreviation (input) ENOMEM :: int where "ENOMEM \<equiv> 12"

abbreviation (input) EEXIST :: int where "EEXIST \<equiv> 17"

abbreviation (input) EINVAL :: int where "EINVAL \<equiv> 22"

abbreviation (input) EMSGSIZE :: int where "EMSGSIZE \<equiv> 90"

abbreviation (input) ENOPROTOOPT :: int where "ENOPROTOOPT \<equiv> 92"

abbreviation (input) EOPNOTSUPP :: int where "EOPNOTSUPP \<equiv> 95"

abbreviation (input) EAFNOSUPPORT :: int where "EAFNOSUPPORT \<equiv> 97"

text \<open>The socket options of the older interface; only their identity matters.\<close>

datatype so_set = IP_VS_SO_SET_ADD | IP_VS_SO_SET_EDIT | IP_VS_SO_SET_DEL | IP_VS_SO_SET_FLUSH
  | IP_VS_SO_SET_ADDDEST | IP_VS_SO_SET_DELDEST | IP_VS_SO_SET_EDITDEST | IP_VS_SO_SET_TIMEOUT
  | IP_VS_SO_SET_STARTDAEMON | IP_VS_SO_SET_STOPDAEMON | IP_VS_SO_SET_ZERO

definition IP_VS_BASE_CTL :: nat where "IP_VS_BASE_CTL = 64 + 1024 + 64"

fun so_set_number :: "so_set \<Rightarrow> nat" where
  "so_set_number IP_VS_SO_SET_ADD = IP_VS_BASE_CTL + 2"
| "so_set_number IP_VS_SO_SET_EDIT = IP_VS_BASE_CTL + 3"
| "so_set_number IP_VS_SO_SET_DEL = IP_VS_BASE_CTL + 4"
| "so_set_number IP_VS_SO_SET_FLUSH = IP_VS_BASE_CTL + 5"
| "so_set_number IP_VS_SO_SET_ADDDEST = IP_VS_BASE_CTL + 7"
| "so_set_number IP_VS_SO_SET_DELDEST = IP_VS_BASE_CTL + 8"
| "so_set_number IP_VS_SO_SET_EDITDEST = IP_VS_BASE_CTL + 9"
| "so_set_number IP_VS_SO_SET_TIMEOUT = IP_VS_BASE_CTL + 10"
| "so_set_number IP_VS_SO_SET_STARTDAEMON = IP_VS_BASE_CTL + 11"
| "so_set_number IP_VS_SO_SET_STOPDAEMON = IP_VS_BASE_CTL + 12"
| "so_set_number IP_VS_SO_SET_ZERO = IP_VS_BASE_CTL + 15"

section \<open>Addresses\<close>

text \<open>
  The union of an IPv4 and an IPv6 address: four words, of which the first is the IPv4
  address. All its members are in network byte order.
\<close>

record nf_inet_addr =
  all_0 :: u32
  all_1 :: u32
  all_2 :: u32
  all_3 :: u32

definition addr_ip :: "nf_inet_addr \<Rightarrow> u32" where
  "addr_ip a = all_0 a"

definition set_addr_ip :: "u32 \<Rightarrow> nf_inet_addr \<Rightarrow> nf_inet_addr" where
  "set_addr_ip x a = a\<lparr>all_0 := x\<rparr>"

definition s6_addr32 :: "nf_inet_addr \<Rightarrow> u32 list" where
  "s6_addr32 a = [all_0 a, all_1 a, all_2 a, all_3 a]"

definition addr_zero :: nf_inet_addr where
  "addr_zero = \<lparr>all_0 = 0, all_1 = 0, all_2 = 0, all_3 = 0\<rparr>"

definition in6addr_any :: nf_inet_addr where
  "in6addr_any = addr_zero"

abbreviation (input) sizeof_nf_inet_addr :: nat where "sizeof_nf_inet_addr \<equiv> 16"

lemma addr_ip_set [simp]: "addr_ip (set_addr_ip x a) = x"
  by (simp add: addr_ip_def set_addr_ip_def)

section \<open>Services and destinations, as the user sets them\<close>

record ip_vs_service_kern =
  svck_protocol :: u16
  svck_addr :: u32
  svck_port :: u16
  svck_fwmark :: u32
  svck_sched_name :: string
  svck_flags :: u32
  svck_timeout :: u32
  svck_netmask :: u32

record ip_vs_service_user =
  svc_protocol :: u16
  svc_addr_v4 :: u32
  svc_port :: u16
  svc_fwmark :: u32
  svc_sched_name :: string
  svc_flags :: u32
  svc_timeout :: u32
  svc_netmask :: u32
  svc_af :: u16
  svc_addr :: nf_inet_addr
  svc_pe_name :: string

record ip_vs_dest_kern =
  dstk_addr :: u32
  dstk_port :: u16
  dstk_conn_flags :: u32
  dstk_weight :: i32
  dstk_u_threshold :: u32
  dstk_l_threshold :: u32

record ip_vs_dest_user =
  dst_addr_v4 :: u32
  dst_port :: u16
  dst_conn_flags :: u32
  dst_weight :: i32
  dst_u_threshold :: u32
  dst_l_threshold :: u32
  dst_af :: u16
  dst_addr :: nf_inet_addr

definition service_zero :: ip_vs_service_user where
  "service_zero = \<lparr>svc_protocol = 0, svc_addr_v4 = 0, svc_port = 0, svc_fwmark = 0,
     svc_sched_name = [], svc_flags = 0, svc_timeout = 0, svc_netmask = 0, svc_af = 0,
     svc_addr = addr_zero, svc_pe_name = []\<rparr>"

definition dest_zero :: ip_vs_dest_user where
  "dest_zero = \<lparr>dst_addr_v4 = 0, dst_port = 0, dst_conn_flags = 0, dst_weight = 0,
     dst_u_threshold = 0, dst_l_threshold = 0, dst_af = 0, dst_addr = addr_zero\<rparr>"

text \<open>
  The user structs begin with the fields of the kernel structs: the copies of
  \<^verbatim>\<open>sizeof(kernel struct)\<close> bytes the library makes are these projections.
\<close>

definition service_prefix :: "ip_vs_service_user \<Rightarrow> ip_vs_service_kern" where
  "service_prefix s = \<lparr>svck_protocol = svc_protocol s, svck_addr = svc_addr_v4 s,
     svck_port = svc_port s, svck_fwmark = svc_fwmark s, svck_sched_name = svc_sched_name s,
     svck_flags = svc_flags s, svck_timeout = svc_timeout s, svck_netmask = svc_netmask s\<rparr>"

definition dest_prefix :: "ip_vs_dest_user \<Rightarrow> ip_vs_dest_kern" where
  "dest_prefix d = \<lparr>dstk_addr = dst_addr_v4 d, dstk_port = dst_port d,
     dstk_conn_flags = dst_conn_flags d, dstk_weight = dst_weight d,
     dstk_u_threshold = dst_u_threshold d, dstk_l_threshold = dst_l_threshold d\<rparr>"

section \<open>Counters\<close>

record ip_vs_stats_user =
  su_conns :: u32
  su_inpkts :: u32
  su_outpkts :: u32
  su_inbytes :: u64
  su_outbytes :: u64
  su_cps :: u32
  su_inpps :: u32
  su_outpps :: u32
  su_inbps :: u32
  su_outbps :: u32

record ip_vs_stats64 =
  st_conns :: u64
  st_inpkts :: u64
  st_outpkts :: u64
  st_inbytes :: u64
  st_outbytes :: u64
  st_cps :: u64
  st_inpps :: u64
  st_outpps :: u64
  st_inbps :: u64
  st_outbps :: u64

definition stats_user_zero :: ip_vs_stats_user where
  "stats_user_zero = \<lparr>su_conns = 0, su_inpkts = 0, su_outpkts = 0, su_inbytes = 0,
     su_outbytes = 0, su_cps = 0, su_inpps = 0, su_outpps = 0, su_inbps = 0, su_outbps = 0\<rparr>"

definition stats64_zero :: ip_vs_stats64 where
  "stats64_zero = \<lparr>st_conns = 0, st_inpkts = 0, st_outpkts = 0, st_inbytes = 0,
     st_outbytes = 0, st_cps = 0, st_inpps = 0, st_outpps = 0, st_inbps = 0, st_outbps = 0\<rparr>"

section \<open>Answers of the kernel\<close>

record ip_vs_getinfo =
  info_version :: u32
  info_size :: u32
  info_num_services :: u32

record ip_vs_service_entry_kern =
  sek_protocol :: u16
  sek_addr :: u32
  sek_port :: u16
  sek_fwmark :: u32
  sek_sched_name :: string
  sek_flags :: u32
  sek_timeout :: u32
  sek_netmask :: u32
  sek_num_dests :: u32
  sek_stats :: ip_vs_stats_user

record ip_vs_service_entry =
  se_protocol :: u16
  se_addr_v4 :: u32
  se_port :: u16
  se_fwmark :: u32
  se_sched_name :: string
  se_flags :: u32
  se_timeout :: u32
  se_netmask :: u32
  se_num_dests :: u32
  se_stats :: ip_vs_stats_user
  se_af :: u16
  se_addr :: nf_inet_addr
  se_pe_name :: string
  se_stats64 :: ip_vs_stats64

record ip_vs_dest_entry_kern =
  dek_addr :: u32
  dek_port :: u16
  dek_conn_flags :: u32
  dek_weight :: i32
  dek_u_threshold :: u32
  dek_l_threshold :: u32
  dek_activeconns :: u32
  dek_inactconns :: u32
  dek_persistconns :: u32
  dek_stats :: ip_vs_stats_user

record ip_vs_dest_entry =
  de_addr_v4 :: u32
  de_port :: u16
  de_conn_flags :: u32
  de_weight :: i32
  de_u_threshold :: u32
  de_l_threshold :: u32
  de_activeconns :: u32
  de_inactconns :: u32
  de_persistconns :: u32
  de_stats :: ip_vs_stats_user
  de_af :: u16
  de_addr :: nf_inet_addr
  de_stats64 :: ip_vs_stats64

definition service_entry_zero :: ip_vs_service_entry where
  "service_entry_zero = \<lparr>se_protocol = 0, se_addr_v4 = 0, se_port = 0, se_fwmark = 0,
     se_sched_name = [], se_flags = 0, se_timeout = 0, se_netmask = 0, se_num_dests = 0,
     se_stats = stats_user_zero, se_af = 0, se_addr = addr_zero, se_pe_name = [],
     se_stats64 = stats64_zero\<rparr>"

definition dest_entry_zero :: ip_vs_dest_entry where
  "dest_entry_zero = \<lparr>de_addr_v4 = 0, de_port = 0, de_conn_flags = 0, de_weight = 0,
     de_u_threshold = 0, de_l_threshold = 0, de_activeconns = 0, de_inactconns = 0,
     de_persistconns = 0, de_stats = stats_user_zero, de_af = 0, de_addr = addr_zero,
     de_stats64 = stats64_zero\<rparr>"

text \<open>
  The tables end in an array of unknown length. A heap block that holds one is modelled by
  the entries that fit into it: \<open>Some\<close> what was written, \<open>None\<close> where nothing was written
  yet; the number of entries the header claims is a field of its own.
\<close>

record ip_vs_get_services_kern =
  gsk_num_services :: u32
  gsk_entrytable :: "ip_vs_service_entry_kern list"

record ip_vs_get_services =
  gs_block :: nat
  gs_num_services :: u32
  gs_entrytable :: "ip_vs_service_entry option list"

record ip_vs_get_dests_kern =
  gdk_protocol :: u16
  gdk_addr :: u32
  gdk_port :: u16
  gdk_fwmark :: u32
  gdk_num_dests :: u32
  gdk_entrytable :: "ip_vs_dest_entry_kern list"

record ip_vs_get_dests =
  gd_block :: nat
  gd_protocol :: u16
  gd_addr_v4 :: u32
  gd_port :: u16
  gd_fwmark :: u32
  gd_num_dests :: u32
  gd_af :: u16
  gd_addr :: nf_inet_addr
  gd_entrytable :: "ip_vs_dest_entry option list"

record ip_vs_timeout_user =
  tcp_timeout :: i32
  tcp_fin_timeout :: i32
  udp_timeout :: i32

record ip_vs_daemon_kern =
  dmk_state :: i32
  dmk_mcast_ifn :: string
  dmk_syncid :: i32

record ip_vs_daemon_user =
  dm_state :: i32
  dm_mcast_ifn :: string
  dm_syncid :: i32
  dm_sync_maxlen :: i32
  dm_mcast_port :: u16
  dm_mcast_ttl :: u16
  dm_mcast_af :: u16
  dm_mcast_group :: nf_inet_addr

definition daemon_zero :: ip_vs_daemon_user where
  "daemon_zero = \<lparr>dm_state = 0, dm_mcast_ifn = [], dm_syncid = 0, dm_sync_maxlen = 0,
     dm_mcast_port = 0, dm_mcast_ttl = 0, dm_mcast_af = 0, dm_mcast_group = addr_zero\<rparr>"

text \<open>Sizes on the 64-bit host, as the layouts above give them with C's alignment.\<close>

abbreviation (input) sizeof_get_services :: nat where "sizeof_get_services \<equiv> 8"

abbreviation (input) sizeof_service_entry :: nat where "sizeof_service_entry \<equiv> 224"

abbreviation (input) sizeof_service_entry_kern :: nat where "sizeof_service_entry_kern \<equiv> 104"

abbreviation (input) sizeof_get_dests :: nat where "sizeof_get_dests \<equiv> 40"

abbreviation (input) sizeof_dest_entry :: nat where "sizeof_dest_entry \<equiv> 200"

abbreviation (input) sizeof_get_dests_kern :: nat where "sizeof_get_dests_kern \<equiv> 24"

abbreviation (input) sizeof_dest_entry_kern :: nat where "sizeof_dest_entry_kern \<equiv> 96"

section \<open>The generic netlink interface\<close>

record ip_vs_flags =
  fl_flags :: u32
  fl_mask :: u32

datatype ipvs_cmd = IPVS_CMD_NEW_SERVICE | IPVS_CMD_SET_SERVICE | IPVS_CMD_DEL_SERVICE
  | IPVS_CMD_GET_SERVICE | IPVS_CMD_NEW_DEST | IPVS_CMD_SET_DEST | IPVS_CMD_DEL_DEST
  | IPVS_CMD_GET_DEST | IPVS_CMD_NEW_DAEMON | IPVS_CMD_DEL_DAEMON | IPVS_CMD_GET_DAEMON
  | IPVS_CMD_SET_TIMEOUT | IPVS_CMD_GET_TIMEOUT | IPVS_CMD_SET_INFO | IPVS_CMD_GET_INFO
  | IPVS_CMD_ZERO | IPVS_CMD_FLUSH

abbreviation (input) IPVS_CMD_ATTR_SERVICE :: nat where "IPVS_CMD_ATTR_SERVICE \<equiv> 1"

abbreviation (input) IPVS_CMD_ATTR_DEST :: nat where "IPVS_CMD_ATTR_DEST \<equiv> 2"

abbreviation (input) IPVS_CMD_ATTR_DAEMON :: nat where "IPVS_CMD_ATTR_DAEMON \<equiv> 3"

abbreviation (input) IPVS_CMD_ATTR_TIMEOUT_TCP :: nat where "IPVS_CMD_ATTR_TIMEOUT_TCP \<equiv> 4"

abbreviation (input) IPVS_CMD_ATTR_TIMEOUT_TCP_FIN :: nat where "IPVS_CMD_ATTR_TIMEOUT_TCP_FIN \<equiv> 5"

abbreviation (input) IPVS_CMD_ATTR_TIMEOUT_UDP :: nat where "IPVS_CMD_ATTR_TIMEOUT_UDP \<equiv> 6"

abbreviation (input) IPVS_CMD_ATTR_MAX :: nat where "IPVS_CMD_ATTR_MAX \<equiv> 6"

abbreviation (input) IPVS_SVC_ATTR_AF :: nat where "IPVS_SVC_ATTR_AF \<equiv> 1"

abbreviation (input) IPVS_SVC_ATTR_PROTOCOL :: nat where "IPVS_SVC_ATTR_PROTOCOL \<equiv> 2"

abbreviation (input) IPVS_SVC_ATTR_ADDR :: nat where "IPVS_SVC_ATTR_ADDR \<equiv> 3"

abbreviation (input) IPVS_SVC_ATTR_PORT :: nat where "IPVS_SVC_ATTR_PORT \<equiv> 4"

abbreviation (input) IPVS_SVC_ATTR_FWMARK :: nat where "IPVS_SVC_ATTR_FWMARK \<equiv> 5"

abbreviation (input) IPVS_SVC_ATTR_SCHED_NAME :: nat where "IPVS_SVC_ATTR_SCHED_NAME \<equiv> 6"

abbreviation (input) IPVS_SVC_ATTR_FLAGS :: nat where "IPVS_SVC_ATTR_FLAGS \<equiv> 7"

abbreviation (input) IPVS_SVC_ATTR_TIMEOUT :: nat where "IPVS_SVC_ATTR_TIMEOUT \<equiv> 8"

abbreviation (input) IPVS_SVC_ATTR_NETMASK :: nat where "IPVS_SVC_ATTR_NETMASK \<equiv> 9"

abbreviation (input) IPVS_SVC_ATTR_STATS :: nat where "IPVS_SVC_ATTR_STATS \<equiv> 10"

abbreviation (input) IPVS_SVC_ATTR_PE_NAME :: nat where "IPVS_SVC_ATTR_PE_NAME \<equiv> 11"

abbreviation (input) IPVS_SVC_ATTR_STATS64 :: nat where "IPVS_SVC_ATTR_STATS64 \<equiv> 12"

abbreviation (input) IPVS_SVC_ATTR_MAX :: nat where "IPVS_SVC_ATTR_MAX \<equiv> 12"

abbreviation (input) IPVS_DEST_ATTR_ADDR :: nat where "IPVS_DEST_ATTR_ADDR \<equiv> 1"

abbreviation (input) IPVS_DEST_ATTR_PORT :: nat where "IPVS_DEST_ATTR_PORT \<equiv> 2"

abbreviation (input) IPVS_DEST_ATTR_FWD_METHOD :: nat where "IPVS_DEST_ATTR_FWD_METHOD \<equiv> 3"

abbreviation (input) IPVS_DEST_ATTR_WEIGHT :: nat where "IPVS_DEST_ATTR_WEIGHT \<equiv> 4"

abbreviation (input) IPVS_DEST_ATTR_U_THRESH :: nat where "IPVS_DEST_ATTR_U_THRESH \<equiv> 5"

abbreviation (input) IPVS_DEST_ATTR_L_THRESH :: nat where "IPVS_DEST_ATTR_L_THRESH \<equiv> 6"

abbreviation (input) IPVS_DEST_ATTR_ACTIVE_CONNS :: nat where "IPVS_DEST_ATTR_ACTIVE_CONNS \<equiv> 7"

abbreviation (input) IPVS_DEST_ATTR_INACT_CONNS :: nat where "IPVS_DEST_ATTR_INACT_CONNS \<equiv> 8"

abbreviation (input) IPVS_DEST_ATTR_PERSIST_CONNS :: nat where "IPVS_DEST_ATTR_PERSIST_CONNS \<equiv> 9"

abbreviation (input) IPVS_DEST_ATTR_STATS :: nat where "IPVS_DEST_ATTR_STATS \<equiv> 10"

abbreviation (input) IPVS_DEST_ATTR_ADDR_FAMILY :: nat where "IPVS_DEST_ATTR_ADDR_FAMILY \<equiv> 11"

abbreviation (input) IPVS_DEST_ATTR_STATS64 :: nat where "IPVS_DEST_ATTR_STATS64 \<equiv> 12"

abbreviation (input) IPVS_DEST_ATTR_MAX :: nat where "IPVS_DEST_ATTR_MAX \<equiv> 12"

abbreviation (input) IPVS_DAEMON_ATTR_STATE :: nat where "IPVS_DAEMON_ATTR_STATE \<equiv> 1"

abbreviation (input) IPVS_DAEMON_ATTR_MCAST_IFN :: nat where "IPVS_DAEMON_ATTR_MCAST_IFN \<equiv> 2"

abbreviation (input) IPVS_DAEMON_ATTR_SYNC_ID :: nat where "IPVS_DAEMON_ATTR_SYNC_ID \<equiv> 3"

abbreviation (input) IPVS_DAEMON_ATTR_SYNC_MAXLEN :: nat where "IPVS_DAEMON_ATTR_SYNC_MAXLEN \<equiv> 4"

abbreviation (input) IPVS_DAEMON_ATTR_MCAST_GROUP :: nat where "IPVS_DAEMON_ATTR_MCAST_GROUP \<equiv> 5"

abbreviation (input) IPVS_DAEMON_ATTR_MCAST_GROUP6 :: nat where "IPVS_DAEMON_ATTR_MCAST_GROUP6 \<equiv> 6"

abbreviation (input) IPVS_DAEMON_ATTR_MCAST_PORT :: nat where "IPVS_DAEMON_ATTR_MCAST_PORT \<equiv> 7"

abbreviation (input) IPVS_DAEMON_ATTR_MCAST_TTL :: nat where "IPVS_DAEMON_ATTR_MCAST_TTL \<equiv> 8"

abbreviation (input) IPVS_DAEMON_ATTR_MAX :: nat where "IPVS_DAEMON_ATTR_MAX \<equiv> 8"

abbreviation (input) IPVS_STATS_ATTR_CONNS :: nat where "IPVS_STATS_ATTR_CONNS \<equiv> 1"

abbreviation (input) IPVS_STATS_ATTR_INPKTS :: nat where "IPVS_STATS_ATTR_INPKTS \<equiv> 2"

abbreviation (input) IPVS_STATS_ATTR_OUTPKTS :: nat where "IPVS_STATS_ATTR_OUTPKTS \<equiv> 3"

abbreviation (input) IPVS_STATS_ATTR_INBYTES :: nat where "IPVS_STATS_ATTR_INBYTES \<equiv> 4"

abbreviation (input) IPVS_STATS_ATTR_OUTBYTES :: nat where "IPVS_STATS_ATTR_OUTBYTES \<equiv> 5"

abbreviation (input) IPVS_STATS_ATTR_CPS :: nat where "IPVS_STATS_ATTR_CPS \<equiv> 6"

abbreviation (input) IPVS_STATS_ATTR_INPPS :: nat where "IPVS_STATS_ATTR_INPPS \<equiv> 7"

abbreviation (input) IPVS_STATS_ATTR_OUTPPS :: nat where "IPVS_STATS_ATTR_OUTPPS \<equiv> 8"

abbreviation (input) IPVS_STATS_ATTR_INBPS :: nat where "IPVS_STATS_ATTR_INBPS \<equiv> 9"

abbreviation (input) IPVS_STATS_ATTR_OUTBPS :: nat where "IPVS_STATS_ATTR_OUTBPS \<equiv> 10"

abbreviation (input) IPVS_STATS_ATTR_MAX :: nat where "IPVS_STATS_ATTR_MAX \<equiv> 10"

abbreviation (input) IPVS_INFO_ATTR_VERSION :: nat where "IPVS_INFO_ATTR_VERSION \<equiv> 1"

abbreviation (input) IPVS_INFO_ATTR_CONN_TAB_SIZE :: nat where "IPVS_INFO_ATTR_CONN_TAB_SIZE \<equiv> 2"

abbreviation (input) IPVS_INFO_ATTR_MAX :: nat where "IPVS_INFO_ATTR_MAX \<equiv> 2"

end
