(* ===== verification/NlPolicy.thy ===== *)
theory NlPolicy
  imports IpVs
begin

text \<open>
  \<^verbatim>\<open>depend/libipvs/ip_vs_nl_policy.c\<close>: the tables that tell libnl how to check received
  attributes. An entry the C initialiser leaves out is zero: \<^verbatim>\<open>NLA_UNSPEC\<close> with no bounds,
  which checks nothing.
\<close>

datatype nla_type = NLA_UNSPEC | NLA_U8 | NLA_U16 | NLA_U32 | NLA_U64 | NLA_STRING | NLA_NESTED

record nla_policy =
  pol_type :: nla_type
  pol_minlen :: nat
  pol_maxlen :: nat

definition pol :: "nla_type \<Rightarrow> nla_policy" where
  "pol t = \<lparr>pol_type = t, pol_minlen = 0, pol_maxlen = 0\<rparr>"

definition no_policy :: "nat \<Rightarrow> nla_policy" where
  "no_policy = (\<lambda>_. pol NLA_UNSPEC)"

abbreviation (input) sizeof_in6_addr :: nat where "sizeof_in6_addr \<equiv> 16"

abbreviation (input) sizeof_ip_vs_flags :: nat where "sizeof_ip_vs_flags \<equiv> 8"

definition ipvs_cmd_policy :: "nat \<Rightarrow> nla_policy" where
  "ipvs_cmd_policy = no_policy(
     IPVS_CMD_ATTR_SERVICE := pol NLA_NESTED,
     IPVS_CMD_ATTR_DEST := pol NLA_NESTED,
     IPVS_CMD_ATTR_DAEMON := pol NLA_NESTED,
     IPVS_CMD_ATTR_TIMEOUT_TCP := pol NLA_U32,
     IPVS_CMD_ATTR_TIMEOUT_TCP_FIN := pol NLA_U32,
     IPVS_CMD_ATTR_TIMEOUT_UDP := pol NLA_U32)"

definition ipvs_service_policy :: "nat \<Rightarrow> nla_policy" where
  "ipvs_service_policy = no_policy(
     IPVS_SVC_ATTR_AF := pol NLA_U16,
     IPVS_SVC_ATTR_PROTOCOL := pol NLA_U16,
     IPVS_SVC_ATTR_ADDR := (pol NLA_UNSPEC)\<lparr>pol_maxlen := sizeof_in6_addr\<rparr>,
     IPVS_SVC_ATTR_PORT := pol NLA_U16,
     IPVS_SVC_ATTR_FWMARK := pol NLA_U32,
     IPVS_SVC_ATTR_SCHED_NAME := (pol NLA_STRING)\<lparr>pol_maxlen := IP_VS_SCHEDNAME_MAXLEN\<rparr>,
     IPVS_SVC_ATTR_FLAGS := (pol NLA_UNSPEC)\<lparr>pol_minlen := sizeof_ip_vs_flags, pol_maxlen := sizeof_ip_vs_flags\<rparr>,
     IPVS_SVC_ATTR_TIMEOUT := pol NLA_U32,
     IPVS_SVC_ATTR_NETMASK := pol NLA_U32,
     IPVS_SVC_ATTR_STATS := pol NLA_NESTED)"

definition ipvs_dest_policy :: "nat \<Rightarrow> nla_policy" where
  "ipvs_dest_policy = no_policy(
     IPVS_DEST_ATTR_ADDR := (pol NLA_UNSPEC)\<lparr>pol_maxlen := sizeof_in6_addr\<rparr>,
     IPVS_DEST_ATTR_PORT := pol NLA_U16,
     IPVS_DEST_ATTR_FWD_METHOD := pol NLA_U32,
     IPVS_DEST_ATTR_WEIGHT := pol NLA_U32,
     IPVS_DEST_ATTR_U_THRESH := pol NLA_U32,
     IPVS_DEST_ATTR_L_THRESH := pol NLA_U32,
     IPVS_DEST_ATTR_ACTIVE_CONNS := pol NLA_U32,
     IPVS_DEST_ATTR_INACT_CONNS := pol NLA_U32,
     IPVS_DEST_ATTR_PERSIST_CONNS := pol NLA_U32,
     IPVS_DEST_ATTR_STATS := pol NLA_NESTED)"

definition ipvs_stats_policy :: "nat \<Rightarrow> nla_policy" where
  "ipvs_stats_policy = no_policy(
     IPVS_STATS_ATTR_CONNS := pol NLA_U32,
     IPVS_STATS_ATTR_INPKTS := pol NLA_U32,
     IPVS_STATS_ATTR_OUTPKTS := pol NLA_U32,
     IPVS_STATS_ATTR_INBYTES := pol NLA_U64,
     IPVS_STATS_ATTR_OUTBYTES := pol NLA_U64,
     IPVS_STATS_ATTR_CPS := pol NLA_U32,
     IPVS_STATS_ATTR_INPPS := pol NLA_U32,
     IPVS_STATS_ATTR_OUTPPS := pol NLA_U32,
     IPVS_STATS_ATTR_INBPS := pol NLA_U32,
     IPVS_STATS_ATTR_OUTBPS := pol NLA_U32)"

definition ipvs_info_policy :: "nat \<Rightarrow> nla_policy" where
  "ipvs_info_policy = no_policy(
     IPVS_INFO_ATTR_VERSION := pol NLA_U32,
     IPVS_INFO_ATTR_CONN_TAB_SIZE := pol NLA_U32)"

definition ipvs_daemon_policy :: "nat \<Rightarrow> nla_policy" where
  "ipvs_daemon_policy = no_policy(
     IPVS_DAEMON_ATTR_STATE := pol NLA_U32,
     IPVS_DAEMON_ATTR_MCAST_IFN := (pol NLA_STRING)\<lparr>pol_maxlen := IP_VS_IFNAME_MAXLEN\<rparr>,
     IPVS_DAEMON_ATTR_SYNC_ID := pol NLA_U32,
     IPVS_DAEMON_ATTR_SYNC_MAXLEN := pol NLA_U16,
     IPVS_DAEMON_ATTR_MCAST_GROUP := pol NLA_U32,
     IPVS_DAEMON_ATTR_MCAST_GROUP6 := (pol NLA_UNSPEC)\<lparr>pol_maxlen := sizeof_in6_addr\<rparr>,
     IPVS_DAEMON_ATTR_MCAST_PORT := pol NLA_U16,
     IPVS_DAEMON_ATTR_MCAST_TTL := pol NLA_U8)"

end
