(* ===== verification/LibState.thy ===== *)
theory LibState
  imports NlPolicy
begin

text \<open>
  What \<^verbatim>\<open>depend/libipvs/libipvs.c\<close> runs on: the interface of libnl, of the socket calls and
  of the allocator (a record of functions, the parameter \<open>L\<close> of every definition), the
  static variables of the file, and the bookkeeping of what is allocated.

  The outside world is a value of an arbitrary type \<open>'w\<close> that each outside call may read and
  change. A message under construction is the sequence of the \<^verbatim>\<open>nla_put\<close> and nesting calls
  made on it. Undefined behaviour (a second free, a write outside a block, a null pointer
  followed) sets the flag \<open>ub\<close> and the model goes on; nothing is claimed of such a state.
\<close>

section \<open>Messages and requests\<close>

datatype nl_item =
    NestStart nat
  | NestEnd
  | PutU8 nat u8
  | PutU16 nat u16
  | PutU32 nat u32
  | PutString nat string
  | PutAddr nat nf_inet_addr
  | PutFlags nat ip_vs_flags

record nl_msg =
  msg_id :: nat
  msg_family :: int
  msg_cmd :: ipvs_cmd
  msg_dump :: bool
  msg_items :: "nl_item list"

text \<open>The buffers handed to \<^verbatim>\<open>setsockopt\<close>.\<close>

datatype so_arg =
    SoNone
  | SoService ip_vs_service_kern
  | SoServiceDest ip_vs_service_kern ip_vs_dest_kern
  | SoTimeout ip_vs_timeout_user
  | SoDaemon ip_vs_daemon_kern

text \<open>What the library asked the kernel to do, in order: the trace of the model.\<close>

datatype request = NlRequest nl_msg | SoRequest so_set so_arg

section \<open>The outside\<close>

text \<open>
  \<open>libipvs_use_nl\<close> is the build switch \<^verbatim>\<open>LIBIPVS_USE_NL\<close>. A function that can fail returns
  either the code's error (\<open>Inl\<close>, the value \<^verbatim>\<open>errno\<close> gets) or its result. \<open>nl_recvmsgs\<close>
  gives the messages that arrive and the code libnl returns once all of them are
  processed; a received message and a received attribute are of the types \<open>'m\<close> and \<open>'a\<close>,
  read through libnl's accessors only. \<open>nla_addr\<close> and \<open>nla_flags\<close> read the payload as the
  struct the code copies it to, \<open>nla_len\<close> is the payload's length. The \<open>heap_\<close> fields are the
  indeterminate contents of memory \<^verbatim>\<open>malloc\<close> returned and nobody wrote, one per slot of a table.
\<close>

record ('w, 'm, 'a) sys =
  libipvs_use_nl :: bool
  nlmsg_alloc :: "'w \<Rightarrow> bool \<times> 'w"
  nla_put_ok :: "nl_msg \<Rightarrow> nl_item \<Rightarrow> bool"
  nl_socket_alloc :: "'w \<Rightarrow> bool \<times> 'w"
  genl_connect :: "'w \<Rightarrow> int \<times> 'w"
  genl_ctrl_resolve :: "string \<Rightarrow> 'w \<Rightarrow> int \<times> 'w"
  nl_socket_modify_cb :: "'w \<Rightarrow> int \<times> 'w"
  nl_send_auto_complete :: "nl_msg \<Rightarrow> 'w \<Rightarrow> int \<times> 'w"
  nl_recvmsgs :: "'w \<Rightarrow> 'm list \<times> int \<times> 'w"
  genlmsg_parse :: "'m \<Rightarrow> nat \<Rightarrow> (nat \<Rightarrow> nla_policy) \<Rightarrow> (nat \<Rightarrow> 'a option) option"
  nla_parse_nested :: "'a \<Rightarrow> nat \<Rightarrow> (nat \<Rightarrow> nla_policy) \<Rightarrow> (nat \<Rightarrow> 'a option) option"
  nla_get_u8 :: "'a \<Rightarrow> u8"
  nla_get_u16 :: "'a \<Rightarrow> u16"
  nla_get_u32 :: "'a \<Rightarrow> u32"
  nla_get_u64 :: "'a \<Rightarrow> u64"
  nla_get_string :: "'a \<Rightarrow> string"
  nla_len :: "'a \<Rightarrow> nat"
  nla_addr :: "'a \<Rightarrow> nf_inet_addr"
  nla_flags :: "'a \<Rightarrow> ip_vs_flags"
  malloc :: "nat \<Rightarrow> 'w \<Rightarrow> bool \<times> 'w"
  realloc :: "nat \<Rightarrow> 'w \<Rightarrow> bool \<times> 'w"
  socket_raw :: "'w \<Rightarrow> (int + int) \<times> 'w"
  close_fd :: "int \<Rightarrow> 'w \<Rightarrow> 'w"
  setsockopt :: "int \<Rightarrow> so_set \<Rightarrow> so_arg \<Rightarrow> 'w \<Rightarrow> (int + unit) \<times> 'w"
  getsockopt_info :: "int \<Rightarrow> 'w \<Rightarrow> (int + ip_vs_getinfo) \<times> 'w"
  getsockopt_services :: "int \<Rightarrow> u32 \<Rightarrow> 'w \<Rightarrow> (int + ip_vs_get_services_kern) \<times> 'w"
  getsockopt_dests :: "int \<Rightarrow> ip_vs_get_dests_kern \<Rightarrow> 'w \<Rightarrow> (int + ip_vs_get_dests_kern) \<times> 'w"
  getsockopt_service :: "int \<Rightarrow> ip_vs_service_entry_kern \<Rightarrow> 'w \<Rightarrow> (int + ip_vs_service_entry_kern) \<times> 'w"
  getsockopt_timeout :: "int \<Rightarrow> 'w \<Rightarrow> (int + ip_vs_timeout_user) \<times> 'w"
  getsockopt_daemon :: "int \<Rightarrow> 'w \<Rightarrow> (int + ip_vs_daemon_kern \<times> ip_vs_daemon_kern) \<times> 'w"
  strerror :: "int \<Rightarrow> string"
  heap_service :: "nat \<Rightarrow> ip_vs_service_entry"
  heap_dest :: "nat \<Rightarrow> ip_vs_dest_entry"
  heap_dests :: ip_vs_get_dests

section \<open>The state of the library\<close>

text \<open>The functions \<^verbatim>\<open>ipvs_func\<close> can point to.\<close>

datatype ipvs_fn = F_init | F_getinfo | F_add_service | F_update_service | F_del_service
  | F_zero_service | F_add_dest | F_update_dest | F_del_dest | F_set_timeout | F_start_daemon
  | F_stop_daemon | F_get_services | F_get_dests | F_get_service | F_get_timeout | F_get_daemon

datatype resource = Msg nat | Sock nat | Blk nat | Fd int

text \<open>
  The statics of the file and \<^verbatim>\<open>errno\<close>, then the bookkeeping: the objects allocated and not
  yet freed, the next name of an object, the undefined-behaviour flag, the trace, the world.
\<close>

record 'w lib =
  sockfd :: int
  ipvs_func :: "ipvs_fn option"
  ipvs_info :: ip_vs_getinfo
  sock :: "nat option"
  family :: int
  try_nl :: bool
  errno :: int
  live :: "resource list"
  next_id :: nat
  ub :: bool
  sent :: "request list"
  world :: 'w

definition lib_start :: "'w \<Rightarrow> 'w lib" where
  "lib_start w = \<lparr>sockfd = -1, ipvs_func = None,
     ipvs_info = \<lparr>info_version = 0, info_size = 0, info_num_services = 0\<rparr>, sock = None,
     family = 0, try_nl = True, errno = 0, live = [], next_id = 0, ub = False, sent = [], world = w\<rparr>"

text \<open>The test \<^verbatim>\<open>#ifdef LIBIPVS_USE_NL\<close> around \<^verbatim>\<open>if (try_nl)\<close>.\<close>

definition nl_mode :: "('w, 'm, 'a) sys \<Rightarrow> 'w lib \<Rightarrow> bool" where
  "nl_mode L s \<longleftrightarrow> libipvs_use_nl L \<and> try_nl s"

definition release :: "resource \<Rightarrow> 'w lib \<Rightarrow> 'w lib" where
  "release r s = s\<lparr>live := remove1 r (live s), ub := (ub s \<or> r \<notin> set (live s))\<rparr>"

definition acquire :: "(nat \<Rightarrow> resource) \<Rightarrow> 'w lib \<Rightarrow> nat \<times> 'w lib" where
  "acquire mk s = (next_id s, s\<lparr>next_id := Suc (next_id s), live := mk (next_id s) # live s\<rparr>)"

definition set_errno :: "int \<Rightarrow> 'w lib \<Rightarrow> 'w lib" where
  "set_errno e s = s\<lparr>errno := e\<rparr>"

definition undefined_behaviour :: "'w lib \<Rightarrow> 'w lib" where
  "undefined_behaviour s = s\<lparr>ub := True\<rparr>"

definition nlmsg_free :: "nl_msg option \<Rightarrow> 'w lib \<Rightarrow> 'w lib" where
  "nlmsg_free m s = (case m of None \<Rightarrow> s | Some m \<Rightarrow> release (Msg (msg_id m)) s)"

text \<open>\<^verbatim>\<open>malloc\<close> of a table: the name of the block, or None with \<^verbatim>\<open>errno\<close> set to ENOMEM.\<close>

definition malloc_block :: "('w, 'm, 'a) sys \<Rightarrow> nat \<Rightarrow> 'w lib \<Rightarrow> nat option \<times> 'w lib" where
  "malloc_block L n s =
     (let (ok, w) = malloc L n (world s); s = s\<lparr>world := w\<rparr>
      in if ok then (let (b, s) = acquire Blk s in (Some b, s)) else (None, set_errno ENOMEM s))"

definition free_block :: "nat \<Rightarrow> 'w lib \<Rightarrow> 'w lib" where
  "free_block b s = release (Blk b) s"

section \<open>Frames: what a step leaves alone\<close>

text \<open>
  A step is quiet when it allocates and frees nothing, sends nothing, keeps the socket and
  the mode, and raises no undefined behaviour of its own that could be lowered again.
\<close>

definition quiet :: "'w lib \<Rightarrow> 'w lib \<Rightarrow> bool" where
  "quiet s t \<longleftrightarrow> live t = live s \<and> next_id t = next_id s \<and> sent t = sent s \<and> sockfd t = sockfd s
     \<and> try_nl t = try_nl s \<and> family t = family s \<and> sock t = sock s \<and> ipvs_func t = ipvs_func s
     \<and> (ub s \<longrightarrow> ub t)"

text \<open>
  A call is balanced when every object it allocated is freed when it returns, nothing is
  freed twice, the trace only grows, and the mode and the raw socket are kept. \<open>safe\<close> adds
  that the call itself raises no undefined behaviour.
\<close>

definition balanced :: "'w lib \<Rightarrow> 'w lib \<Rightarrow> bool" where
  "balanced s t \<longleftrightarrow> live t = live s \<and> next_id s \<le> next_id t \<and> prefix (sent s) (sent t)
     \<and> sockfd t = sockfd s \<and> try_nl t = try_nl s \<and> (ub s \<longrightarrow> ub t)"

definition safe :: "'w lib \<Rightarrow> 'w lib \<Rightarrow> bool" where
  "safe s t \<longleftrightarrow> balanced s t \<and> ub t = ub s"

lemma quiet_refl [simp, intro]: "quiet s s"
  by (simp add: quiet_def)

lemma quiet_trans: "quiet s t \<Longrightarrow> quiet t u \<Longrightarrow> quiet s u"
  by (simp add: quiet_def)

lemma quiet_balanced: "quiet s t \<Longrightarrow> balanced s t"
  by (simp add: quiet_def balanced_def)

lemma balanced_refl [simp, intro]: "balanced s s"
  by (simp add: balanced_def)

lemma balanced_trans: "balanced s t \<Longrightarrow> balanced t u \<Longrightarrow> balanced s u"
  by (auto simp: balanced_def)

lemma safe_refl [simp, intro]: "safe s s"
  by (simp add: safe_def)

lemma safe_trans: "safe s t \<Longrightarrow> safe t u \<Longrightarrow> safe s u"
  by (auto simp: safe_def intro: balanced_trans)

lemma safe_balanced: "safe s t \<Longrightarrow> balanced s t"
  by (simp add: safe_def)

lemma release_head [simp]: "live s = r # rs \<Longrightarrow> release r s = s\<lparr>live := rs\<rparr>"
  by (simp add: release_def)

lemma balanced_func [simp]:
  "balanced (s\<lparr>ipvs_func := f\<rparr>) t = balanced s t" "balanced s (t\<lparr>ipvs_func := f\<rparr>) = balanced s t"
  "safe (s\<lparr>ipvs_func := f\<rparr>) t = safe s t" "safe s (t\<lparr>ipvs_func := f\<rparr>) = safe s t"
  by (simp_all add: balanced_def safe_def)

lemma safe_updates [simp]:
  "safe s (t\<lparr>errno := e\<rparr>) = safe s t" "safe s (t\<lparr>world := w\<rparr>) = safe s t"
  "balanced s (t\<lparr>errno := e\<rparr>) = balanced s t" "balanced s (t\<lparr>world := w\<rparr>) = balanced s t"
  "safe s (set_errno e t) = safe s t" "balanced s (set_errno e t) = balanced s t"
  by (simp_all add: balanced_def safe_def set_errno_def)

end
