(* ===== verification/LibSend.thy ===== *)
theory LibSend
  imports LibState
begin

text \<open>
  The netlink transport of \<^verbatim>\<open>depend/libipvs/libipvs.c\<close>: building a message
  (\<^verbatim>\<open>ipvs_nl_message\<close> and the \<^verbatim>\<open>NLA_PUT\<close> macros) and exchanging it with the kernel
  (\<^verbatim>\<open>ipvs_nl_send_message\<close>), with the contract of the callbacks that read the answers.
\<close>

section \<open>Building a message\<close>

definition ipvs_nl_message ::
  "('w, 'm, 'a) sys \<Rightarrow> ipvs_cmd \<Rightarrow> bool \<Rightarrow> 'w lib \<Rightarrow> nl_msg option \<times> 'w lib" where
  "ipvs_nl_message L cmd dump s =
     (let (ok, w) = nlmsg_alloc L (world s); s = s\<lparr>world := w\<rparr>
      in if \<not> ok then (None, s)
         else let (k, s) = acquire Msg s
              in (Some \<lparr>msg_id = k, msg_family = family s, msg_cmd = cmd, msg_dump = dump,
                        msg_items = []\<rparr>, s))"

text \<open>
  A string put into a message is read up to its NUL; the arrays it comes from have 16
  bytes, so one of 16 bytes has no NUL and the read leaves the array.
\<close>

fun unterminated :: "nl_item \<Rightarrow> bool" where
  "unterminated (PutString t x) = (16 \<le> length x)"
| "unterminated x = False"

text \<open>
  A sequence of puts and nestings. A put and the start of a nesting may fail for lack of room,
  which jumps to the function's \<^verbatim>\<open>nla_put_failure\<close> label (or returns -1 for a failed nesting):
  the rest of the sequence is not reached. The result of \<^verbatim>\<open>nla_nest_end\<close> is not looked at.
\<close>

fun nla_put_all ::
  "('w, 'm, 'a) sys \<Rightarrow> nl_item list \<Rightarrow> nl_msg \<Rightarrow> 'w lib \<Rightarrow> bool \<times> nl_msg \<times> 'w lib" where
  "nla_put_all L [] msg s = (True, msg, s)"
| "nla_put_all L (x # xs) msg s =
     (let s = (if unterminated x then undefined_behaviour s else s)
      in if x = NestEnd \<or> nla_put_ok L msg x
         then nla_put_all L xs (msg\<lparr>msg_items := msg_items msg @ [x]\<rparr>) s
         else (False, msg, s))"

section \<open>Receiving\<close>

definition NL_OK :: int where "NL_OK = 0"

text \<open>
  The receive loop of libnl: the callback is run on the messages in their order; a negative
  result ends the loop and is its result, else the result is the one libnl has at the end.
\<close>

fun nl_deliver ::
  "('m \<Rightarrow> 'r \<Rightarrow> 'w lib \<Rightarrow> int \<times> 'r \<times> 'w lib) \<Rightarrow> 'm list \<Rightarrow> int \<Rightarrow> 'r \<Rightarrow> 'w lib \<Rightarrow> int \<times> 'r \<times> 'w lib" where
  "nl_deliver cb [] fin arg s = (fin, arg, s)"
| "nl_deliver cb (m # ms) fin arg s =
     (let (c, arg, s) = cb m arg s
      in if c < 0 then (c, arg, s) else nl_deliver cb ms fin arg s)"

definition ipvs_nl_noop_cb :: "'m \<Rightarrow> unit \<Rightarrow> 'w lib \<Rightarrow> int \<times> unit \<times> 'w lib" where
  "ipvs_nl_noop_cb msg arg s = (NL_OK, arg, s)"

definition fail_genl :: "nl_msg option \<Rightarrow> nat \<Rightarrow> int \<Rightarrow> 'w lib \<Rightarrow> 'w lib" where
  "fail_genl msg k err s = set_errno err (nlmsg_free msg ((release (Sock k) s)\<lparr>sock := None\<rparr>))"

definition IPVS_GENL_NAME :: string where "IPVS_GENL_NAME = ''IPVS''"

definition ipvs_nl_send_message ::
  "('w, 'm, 'a) sys \<Rightarrow> nl_msg option \<Rightarrow> ('m \<Rightarrow> 'r \<Rightarrow> 'w lib \<Rightarrow> int \<times> 'r \<times> 'w lib) \<Rightarrow> 'r \<Rightarrow> 'w lib
     \<Rightarrow> int \<times> 'r \<times> 'w lib" where
  "ipvs_nl_send_message L msg cb arg s =
     (let err = EINVAL;
          (ok, w) = nl_socket_alloc L (world s); s = s\<lparr>world := w\<rparr>
      in if \<not> ok then (-1, arg, nlmsg_free msg (s\<lparr>sock := None\<rparr>))
      else let (k, s) = acquire Sock s; s = s\<lparr>sock := Some k\<rparr>;
               (c, w) = genl_connect L (world s); s = s\<lparr>world := w\<rparr>
      in if c < 0 then (-1, arg, fail_genl msg k err s)
      else let (f, w) = genl_ctrl_resolve L IPVS_GENL_NAME (world s);
               s = s\<lparr>world := w, family := f\<rparr>
      in if f < 0 then (-1, arg, fail_genl msg k err s)
      else case msg of
        None \<Rightarrow> (0, arg, (release (Sock k) s)\<lparr>sock := None\<rparr>)
      | Some m \<Rightarrow>
          (let (c, w) = nl_socket_modify_cb L (world s); s = s\<lparr>world := w\<rparr>
           in if c \<noteq> 0 then (-1, arg, fail_genl msg k err s)
           else let (c, w) = nl_send_auto_complete L m (world s); s = s\<lparr>world := w\<rparr>
           in if c < 0 then (-1, arg, fail_genl msg k err s)
           else let s = s\<lparr>sent := sent s @ [NlRequest m]\<rparr>;
                    (ms, fin, w) = nl_recvmsgs L (world s); s = s\<lparr>world := w\<rparr>;
                    (r, arg, s) = nl_deliver cb ms fin arg s; err = - r
           in if err > 0 then (-1, arg, fail_genl msg k err s)
           else (0, arg, release (Sock k) (nlmsg_free msg s))))"

section \<open>Messages under construction\<close>

lemma ipvs_nl_message_None: "ipvs_nl_message L cmd dump s = (None, t) \<Longrightarrow> quiet s t"
  by (auto simp: ipvs_nl_message_def acquire_def quiet_def Let_def split: prod.splits if_splits)

lemma ipvs_nl_message_Some:
  "ipvs_nl_message L cmd dump s = (Some m, t) \<Longrightarrow>
   m = \<lparr>msg_id = next_id s, msg_family = family s, msg_cmd = cmd, msg_dump = dump, msg_items = []\<rparr> \<and>
   quiet (s\<lparr>next_id := Suc (next_id s), live := Msg (next_id s) # live s\<rparr>) t \<and> ub t = ub s"
  by (auto simp: ipvs_nl_message_def acquire_def quiet_def Let_def split: prod.splits if_splits)

lemma nla_put_all_quiet:
  "nla_put_all L xs msg s = (ok, msg', t) \<Longrightarrow> quiet s t \<and> msg_id msg' = msg_id msg"
proof (induction xs arbitrary: msg s)
  case (Cons x xs)
  have "quiet s (if unterminated x then undefined_behaviour s else s)"
    by (simp add: undefined_behaviour_def quiet_def)
  with Cons show ?case by (fastforce simp: Let_def split: if_splits intro: quiet_trans)
qed simp

lemma nla_put_all_ub:
  "nla_put_all L xs msg s = (ok, msg', t) \<Longrightarrow> list_all (\<lambda>x. \<not> unterminated x) xs \<Longrightarrow> t = s"
  by (induction xs arbitrary: msg s) (auto simp: Let_def split: if_splits)

lemma nla_put_all_ok:
  "nla_put_all L xs msg s = (True, msg', t) \<Longrightarrow> msg' = msg\<lparr>msg_items := msg_items msg @ xs\<rparr>"
proof (induction xs arbitrary: msg s)
  case (Cons x xs)
  then obtain s' where "nla_put_all L xs (msg\<lparr>msg_items := msg_items msg @ [x]\<rparr>) s' = (True, msg', t)"
    by (auto simp: Let_def split: if_splits)
  from Cons.IH [OF this] show ?case by simp
qed simp

lemma nla_put_all_append:
  "nla_put_all L (xs @ ys) msg s =
     (let (ok, msg, s) = nla_put_all L xs msg s in if ok then nla_put_all L ys msg s else (False, msg, s))"
  by (induction xs arbitrary: msg s) (auto simp: Let_def)

section \<open>The contract of a callback\<close>

text \<open>
  A callback allocates, frees and sends nothing, and answers \<^verbatim>\<open>NL_OK\<close> or -1. Its argument
  has an invariant \<open>I n\<close> ("room for \<open>n\<close> more messages"); on a well-formed message it keeps
  the invariant and raises no undefined behaviour.
\<close>

locale nl_callback =
  fixes cb :: "'m \<Rightarrow> 'r \<Rightarrow> 'w lib \<Rightarrow> int \<times> 'r \<times> 'w lib"
    and I :: "nat \<Rightarrow> 'r \<Rightarrow> bool"
    and wf :: "'m \<Rightarrow> bool"
  assumes cb_quiet: "cb m r s = (c, r', t) \<Longrightarrow> quiet s t"
    and cb_code: "cb m r s = (c, r', t) \<Longrightarrow> c = NL_OK \<or> c = -1"
    and cb_inv: "cb m r s = (c, r', t) \<Longrightarrow> I (Suc n) r \<Longrightarrow> wf m \<Longrightarrow> I n r' \<and> ub t = ub s"
begin

lemma deliver_quiet: "nl_deliver cb ms fin r s = (c, r', t) \<Longrightarrow> quiet s t"
proof (induction ms arbitrary: r s)
  case (Cons m ms)
  obtain c1 r1 s1 where cb1: "cb m r s = (c1, r1, s1)" by (metis prod_cases3)
  with Cons cb_quiet [OF cb1] show ?case by (auto split: if_splits intro: quiet_trans)
qed simp

lemma deliver_inv:
  "nl_deliver cb ms fin r s = (c, r', t) \<Longrightarrow> I (length ms) r \<Longrightarrow> list_all wf ms \<Longrightarrow>
   (\<exists>n. I n r') \<and> ub t = ub s"
proof (induction ms arbitrary: r s)
  case (Cons m ms)
  obtain c1 r1 s1 where cb1: "cb m r s = (c1, r1, s1)" by (metis prod_cases3)
  from Cons.prems have "I (length ms) r1 \<and> ub s1 = ub s"
    by (intro cb_inv [OF cb1]) simp_all
  with cb1 Cons show ?case by (auto split: if_splits)
qed auto

text \<open>One exchange: the message is freed, the socket is freed, at most the message is sent.\<close>

lemma send_effect:
  assumes "ipvs_nl_send_message L (Some m) cb r s = (c, r', t)"
    and "live s = Msg (msg_id m) # rs"
  shows "live t = rs \<and> next_id s \<le> next_id t \<and> sockfd t = sockfd s \<and> try_nl t = try_nl s
    \<and> (c = 0 \<or> c = -1) \<and> (ub s \<longrightarrow> ub t) \<and> (sent t = sent s \<or> sent t = sent s @ [NlRequest m])
    \<and> (c = 0 \<longrightarrow> sent t = sent s @ [NlRequest m])"
  using assms
  by (auto simp: ipvs_nl_send_message_def Let_def fail_genl_def acquire_def nlmsg_free_def
      set_errno_def release_def quiet_def
      split: prod.splits if_splits dest!: deliver_quiet)

lemma send_safe:
  assumes "ipvs_nl_send_message L (Some m) cb r s = (c, r', t)"
    and "live s = Msg (msg_id m) # rs"
    and "\<And>w. I (length (fst (nl_recvmsgs L w))) r \<and> list_all wf (fst (nl_recvmsgs L w))"
  shows "ub t = ub s \<and> (\<exists>n. I n r')"
proof -
  have "I (length ms) r \<and> list_all wf ms" if "nl_recvmsgs L w = (ms, x)" for w ms x
    using assms(3) [of w] that by simp
  then have rcv: "ub t' = ub s' \<and> (\<exists>n. I n r'') \<and> live t' = live s'"
    if "nl_recvmsgs L w = (ms, fin, w')" "nl_deliver cb ms fin r s' = (c', r'', t')"
    for w ms fin w' c' r'' s' t'
    using that deliver_inv [OF that(2)] deliver_quiet [OF that(2)] by (auto simp: quiet_def)
  have start: "\<exists>n. I n r" using assms(3) by blast
  from assms(1,2) start show ?thesis
    by (auto simp: ipvs_nl_send_message_def Let_def fail_genl_def acquire_def nlmsg_free_def
        set_errno_def release_def
        split: prod.splits if_splits dest!: rcv)
qed

end

text \<open>The callback of the commands that expect no answer.\<close>

interpretation noop: nl_callback "ipvs_nl_noop_cb :: 'm \<Rightarrow> unit \<Rightarrow> 'w lib \<Rightarrow> _" "\<lambda>_ _. True" "\<lambda>_. True"
  by unfold_locales (auto simp: ipvs_nl_noop_cb_def)

text \<open>The probe \<^verbatim>\<open>ipvs_init\<close> makes with no message: it only sets the family.\<close>

lemma send_probe:
  assumes "ipvs_nl_send_message L None cb r s = (c, r', t)"
  shows "live t = live s \<and> next_id s \<le> next_id t \<and> sent t = sent s \<and> sockfd t = sockfd s
    \<and> try_nl t = try_nl s \<and> ub t = ub s \<and> (c = 0 \<or> c = -1) \<and> (c = 0 \<longrightarrow> 0 \<le> family t)
    \<and> ipvs_func t = ipvs_func s \<and> ipvs_info t = ipvs_info s"
  using assms
  by (auto simp: ipvs_nl_send_message_def Let_def fail_genl_def acquire_def nlmsg_free_def
      set_errno_def release_def split: prod.splits if_splits)

end
