(* ===== verification/LibExample.thy ===== *)
theory LibExample
  imports LibState
begin

text \<open>
  A concrete outside for the library, on which the properties are exercised: a libnl whose
  messages are lists of typed attributes, every call of which succeeds, with a world that is
  the queue of the answers the kernel still has for the library, of at most 4096 messages.
\<close>

datatype attr =
    A8 u8
  | A16 u16
  | A32 u32
  | A64 u64
  | AStr string
  | AAddr nf_inet_addr
  | AFlags ip_vs_flags
  | ANest "(nat \<times> attr) list"

type_synonym message = "(nat \<times> attr) list"

type_synonym kernel = "message list list"

fun attr_u32 :: "attr \<Rightarrow> u32" where
  "attr_u32 (A32 x) = x"
| "attr_u32 (A64 x) = ucast x"
| "attr_u32 _ = 0"

fun attr_u64 :: "attr \<Rightarrow> u64" where
  "attr_u64 (A64 x) = x"
| "attr_u64 _ = 0"

fun sample_recvmsgs :: "kernel \<Rightarrow> message list \<times> int \<times> kernel" where
  "sample_recvmsgs [] = ([], 0, [])"
| "sample_recvmsgs (a # as) = (take 4096 a, 0, as)"

definition sample_sys :: "bool \<Rightarrow> (kernel, message, attr) sys" where
  "sample_sys nl = \<lparr>libipvs_use_nl = nl,
     nlmsg_alloc = (\<lambda>w. (True, w)),
     nla_put_ok = (\<lambda>_ _. True),
     nl_socket_alloc = (\<lambda>w. (True, w)),
     genl_connect = (\<lambda>w. (0, w)),
     genl_ctrl_resolve = (\<lambda>_ w. (26, w)),
     nl_socket_modify_cb = (\<lambda>w. (0, w)),
     nl_send_auto_complete = (\<lambda>_ w. (64, w)),
     nl_recvmsgs = sample_recvmsgs,
     genlmsg_parse = (\<lambda>m _ _. Some (map_of m)),
     nla_parse_nested = (\<lambda>a _ _. case a of ANest m \<Rightarrow> Some (map_of m) | _ \<Rightarrow> None),
     nla_get_u8 = (\<lambda>a. case a of A8 x \<Rightarrow> x | _ \<Rightarrow> 0),
     nla_get_u16 = (\<lambda>a. case a of A16 x \<Rightarrow> x | _ \<Rightarrow> 0),
     nla_get_u32 = attr_u32,
     nla_get_u64 = attr_u64,
     nla_get_string = (\<lambda>a. case a of AStr x \<Rightarrow> x | _ \<Rightarrow> []),
     nla_len = (\<lambda>_. 16),
     nla_addr = (\<lambda>a. case a of AAddr x \<Rightarrow> x | _ \<Rightarrow> addr_zero),
     nla_flags = (\<lambda>a. case a of AFlags x \<Rightarrow> x | _ \<Rightarrow> \<lparr>fl_flags = 0, fl_mask = 0\<rparr>),
     malloc = (\<lambda>_ w. (True, w)),
     realloc = (\<lambda>_ w. (True, w)),
     socket_raw = (\<lambda>w. (Inr 3, w)),
     close_fd = (\<lambda>_ w. w),
     setsockopt = (\<lambda>_ _ _ w. (Inr (), w)),
     getsockopt_info = (\<lambda>_ w. (Inr \<lparr>info_version = IP_VS_VERSION_CODE, info_size = 4096,
                                     info_num_services = 0\<rparr>, w)),
     getsockopt_services = (\<lambda>_ _ w. (Inr \<lparr>gsk_num_services = 0, gsk_entrytable = []\<rparr>, w)),
     getsockopt_dests = (\<lambda>_ dk w. (Inr dk, w)),
     getsockopt_service = (\<lambda>_ svc w. (Inr svc, w)),
     getsockopt_timeout = (\<lambda>_ w. (Inr \<lparr>tcp_timeout = 900, tcp_fin_timeout = 120,
                                        udp_timeout = 300\<rparr>, w)),
     getsockopt_daemon = (\<lambda>_ w. (Inr (\<lparr>dmk_state = 0, dmk_mcast_ifn = [], dmk_syncid = 0\<rparr>,
                                      \<lparr>dmk_state = 0, dmk_mcast_ifn = [], dmk_syncid = 0\<rparr>), w)),
     strerror = (\<lambda>_. ''Unknown error''),
     heap_service = (\<lambda>_. service_entry_zero),
     heap_dest = (\<lambda>_. dest_entry_zero),
     heap_dests = \<lparr>gd_block = 0, gd_protocol = 0, gd_addr_v4 = 0, gd_port = 0, gd_fwmark = 0,
                   gd_num_dests = 0, gd_af = 0, gd_addr = addr_zero, gd_entrytable = []\<rparr>\<rparr>"

text \<open>A virtual service 10.0.0.1:80 and one of its servers 10.0.0.2:80, as arguments.\<close>

definition sample_service :: ip_vs_service_user where
  "sample_service = service_zero\<lparr>svc_protocol := IPPROTO_TCP, svc_port := 0x5000,
     svc_sched_name := ''wlc'', svc_af := AF_INET, svc_addr := addr_zero\<lparr>all_0 := 0x0100000A\<rparr>\<rparr>"

definition sample_dest :: ip_vs_dest_user where
  "sample_dest = dest_zero\<lparr>dst_port := 0x5000, dst_weight := 5, dst_af := AF_INET,
     dst_addr := addr_zero\<lparr>all_0 := 0x0200000A\<rparr>\<rparr>"

end
