(* ===== verification/LibCommands.thy ===== *)
theory LibCommands
  imports LibSend LibExample
begin

text \<open>
  The commands of \<^verbatim>\<open>depend/libipvs/libipvs.c\<close>: start-up and shutdown, flush, and the
  operations that add, change, delete and reset services, destinations, timeouts and
  synchronisation daemons. Each has the netlink form and the socket-option form of the
  source and returns 0 or -1. The socket-option form writes the IPv4 address into its
  arguments, so the commands return their (changed) arguments too.
\<close>

section \<open>What a command puts into its message\<close>

definition flags_of :: "ip_vs_service_user \<Rightarrow> ip_vs_flags" where
  "flags_of svc = \<lparr>fl_flags = svc_flags svc, fl_mask = NOT 0\<rparr>"

definition service_items :: "ip_vs_service_user \<Rightarrow> nl_item list" where
  "service_items svc =
     [NestStart IPVS_CMD_ATTR_SERVICE,
      PutU16 IPVS_SVC_ATTR_AF (svc_af svc)] @
     (if svc_fwmark svc \<noteq> 0 then [PutU32 IPVS_SVC_ATTR_FWMARK (svc_fwmark svc)]
      else [PutU16 IPVS_SVC_ATTR_PROTOCOL (svc_protocol svc),
            PutAddr IPVS_SVC_ATTR_ADDR (svc_addr svc),
            PutU16 IPVS_SVC_ATTR_PORT (svc_port svc)]) @
     [PutString IPVS_SVC_ATTR_SCHED_NAME (svc_sched_name svc)] @
     (if svc_pe_name svc \<noteq> [] then [PutString IPVS_SVC_ATTR_PE_NAME (svc_pe_name svc)] else []) @
     [PutFlags IPVS_SVC_ATTR_FLAGS (flags_of svc),
      PutU32 IPVS_SVC_ATTR_TIMEOUT (svc_timeout svc),
      PutU32 IPVS_SVC_ATTR_NETMASK (svc_netmask svc),
      NestEnd]"

definition dest_items :: "ip_vs_dest_user \<Rightarrow> nl_item list" where
  "dest_items dst =
     [NestStart IPVS_CMD_ATTR_DEST,
      PutU16 IPVS_DEST_ATTR_ADDR_FAMILY (dst_af dst),
      PutAddr IPVS_DEST_ATTR_ADDR (dst_addr dst),
      PutU16 IPVS_DEST_ATTR_PORT (dst_port dst),
      PutU32 IPVS_DEST_ATTR_FWD_METHOD (dst_conn_flags dst AND IP_VS_CONN_F_FWD_MASK),
      PutU32 IPVS_DEST_ATTR_WEIGHT (dst_weight dst),
      PutU32 IPVS_DEST_ATTR_U_THRESH (dst_u_threshold dst),
      PutU32 IPVS_DEST_ATTR_L_THRESH (dst_l_threshold dst),
      NestEnd]"

definition ipvs_nl_fill_service_attr ::
  "('w, 'm, 'a) sys \<Rightarrow> nl_msg \<Rightarrow> ip_vs_service_user \<Rightarrow> 'w lib \<Rightarrow> int \<times> nl_msg \<times> 'w lib" where
  "ipvs_nl_fill_service_attr L msg svc s =
     (let (ok, msg, s) = nla_put_all L (service_items svc) msg s in (if ok then 0 else -1, msg, s))"

definition ipvs_nl_fill_dest_attr ::
  "('w, 'm, 'a) sys \<Rightarrow> nl_msg \<Rightarrow> ip_vs_dest_user \<Rightarrow> 'w lib \<Rightarrow> int \<times> nl_msg \<times> 'w lib" where
  "ipvs_nl_fill_dest_attr L msg dst s =
     (let (ok, msg, s) = nla_put_all L (dest_items dst) msg s in (if ok then 0 else -1, msg, s))"

section \<open>The two forms of a command\<close>

text \<open>
  Netlink: a message of the command is allocated and filled; if filling fails the message
  is freed, else it is sent (and freed by the send). \<open>fill\<close> is the filling, 0 on success.
\<close>

definition nl_command ::
  "('w, 'm, 'a) sys \<Rightarrow> ipvs_cmd \<Rightarrow> (nl_msg \<Rightarrow> 'w lib \<Rightarrow> int \<times> nl_msg \<times> 'w lib) \<Rightarrow> 'w lib \<Rightarrow> int \<times> 'w lib" where
  "nl_command L cmd fill s =
     (case ipvs_nl_message L cmd False s of
        (None, s) \<Rightarrow> (-1, s)
      | (Some msg, s) \<Rightarrow>
          (let (c, msg, s) = fill msg s
           in if c \<noteq> 0 then (-1, nlmsg_free (Some msg) s)
              else let (r, _, s) = ipvs_nl_send_message L (Some msg) ipvs_nl_noop_cb () s in (r, s)))"

definition fill_items ::
  "('w, 'm, 'a) sys \<Rightarrow> nl_item list \<Rightarrow> nl_msg \<Rightarrow> 'w lib \<Rightarrow> int \<times> nl_msg \<times> 'w lib" where
  "fill_items L xs msg s = (let (ok, msg, s) = nla_put_all L xs msg s in (if ok then 0 else -1, msg, s))"

text \<open>Socket option: the call with its buffer; -1 and \<^verbatim>\<open>errno\<close> when it fails.\<close>

definition call_setsockopt ::
  "('w, 'm, 'a) sys \<Rightarrow> so_set \<Rightarrow> so_arg \<Rightarrow> 'w lib \<Rightarrow> int \<times> 'w lib" where
  "call_setsockopt L opt arg s =
     (let (r, w) = setsockopt L (sockfd s) opt arg (world s);
          s = s\<lparr>world := w, sent := sent s @ [SoRequest opt arg]\<rparr>
      in case r of Inl e \<Rightarrow> (-1, set_errno e s) | Inr _ \<Rightarrow> (0, s))"

text \<open>
  The macros \<^verbatim>\<open>CHECK_COMPAT_SVC\<close> and \<^verbatim>\<open>CHECK_COMPAT_DEST\<close>: the older interface knows IPv4
  and no persistence engines. Passing the address check stores the IPv4 address.
\<close>

definition check_compat_svc ::
  "ip_vs_service_user \<Rightarrow> 'w lib \<Rightarrow> bool \<times> ip_vs_service_user \<times> 'w lib" where
  "check_compat_svc svc s =
     (if svc_af svc \<noteq> 0 \<and> svc_af svc \<noteq> AF_INET then (False, svc, set_errno EAFNOSUPPORT s)
      else let svc = svc\<lparr>svc_addr_v4 := addr_ip (svc_addr svc)\<rparr>
           in if svc_pe_name svc \<noteq> [] then (False, svc, set_errno EAFNOSUPPORT s)
              else (True, svc, s))"

definition check_compat_dest ::
  "ip_vs_dest_user \<Rightarrow> 'w lib \<Rightarrow> bool \<times> ip_vs_dest_user \<times> 'w lib" where
  "check_compat_dest dst s =
     (if dst_af dst \<noteq> 0 \<and> dst_af dst \<noteq> AF_INET then (False, dst, set_errno EAFNOSUPPORT s)
      else (True, dst\<lparr>dst_addr_v4 := addr_ip (dst_addr dst)\<rparr>, s))"

section \<open>Service commands\<close>

definition service_command ::
  "('w, 'm, 'a) sys \<Rightarrow> ipvs_fn \<Rightarrow> ipvs_cmd \<Rightarrow> so_set \<Rightarrow> ip_vs_service_user \<Rightarrow> 'w lib
     \<Rightarrow> int \<times> ip_vs_service_user \<times> 'w lib" where
  "service_command L fn cmd opt svc s =
     (let s = s\<lparr>ipvs_func := Some fn\<rparr>
      in if nl_mode L s
         then (let (r, s) = nl_command L cmd (\<lambda>msg s. ipvs_nl_fill_service_attr L msg svc s) s
               in (r, svc, s))
         else (let (ok, svc, s) = check_compat_svc svc s
               in if \<not> ok then (-1, svc, s)
                  else let (r, s) = call_setsockopt L opt (SoService (service_prefix svc)) s
                       in (r, svc, s)))"

definition ipvs_add_service ::
  "('w, 'm, 'a) sys \<Rightarrow> ip_vs_service_user \<Rightarrow> 'w lib \<Rightarrow> int \<times> ip_vs_service_user \<times> 'w lib" where
  "ipvs_add_service L = service_command L F_add_service IPVS_CMD_NEW_SERVICE IP_VS_SO_SET_ADD"

definition ipvs_update_service ::
  "('w, 'm, 'a) sys \<Rightarrow> ip_vs_service_user \<Rightarrow> 'w lib \<Rightarrow> int \<times> ip_vs_service_user \<times> 'w lib" where
  "ipvs_update_service L = service_command L F_update_service IPVS_CMD_SET_SERVICE IP_VS_SO_SET_EDIT"

definition ipvs_del_service ::
  "('w, 'm, 'a) sys \<Rightarrow> ip_vs_service_user \<Rightarrow> 'w lib \<Rightarrow> int \<times> ip_vs_service_user \<times> 'w lib" where
  "ipvs_del_service L = service_command L F_del_service IPVS_CMD_DEL_SERVICE IP_VS_SO_SET_DEL"

text \<open>Resetting counters: a service that names nothing stands for all, and is left out.\<close>

definition zero_items :: "ip_vs_service_user \<Rightarrow> nl_item list" where
  "zero_items svc =
     (if svc_fwmark svc \<noteq> 0 \<or> svc_addr svc \<noteq> in6addr_any \<or> svc_port svc \<noteq> 0
      then service_items svc else [])"

definition ipvs_zero_service ::
  "('w, 'm, 'a) sys \<Rightarrow> ip_vs_service_user \<Rightarrow> 'w lib \<Rightarrow> int \<times> ip_vs_service_user \<times> 'w lib" where
  "ipvs_zero_service L svc s =
     (let s = s\<lparr>ipvs_func := Some F_zero_service\<rparr>
      in if nl_mode L s
         then (let (r, s) = nl_command L IPVS_CMD_ZERO (fill_items L (zero_items svc)) s in (r, svc, s))
         else (let (ok, svc, s) = check_compat_svc svc s
               in if \<not> ok then (-1, svc, s)
                  else let (r, s) = call_setsockopt L IP_VS_SO_SET_ZERO (SoService (service_prefix svc)) s
                       in (r, svc, s)))"

section \<open>Destination commands\<close>

text \<open>The two fillings of a destination message: both or the failure label.\<close>

definition fill_svc_dest ::
  "('w, 'm, 'a) sys \<Rightarrow> ip_vs_service_user \<Rightarrow> ip_vs_dest_user \<Rightarrow> nl_msg \<Rightarrow> 'w lib \<Rightarrow> int \<times> nl_msg \<times> 'w lib" where
  "fill_svc_dest L svc dst msg s =
     (let (c, msg, s) = ipvs_nl_fill_service_attr L msg svc s
      in if c \<noteq> 0 then (-1, msg, s) else ipvs_nl_fill_dest_attr L msg dst s)"

definition dest_command ::
  "('w, 'm, 'a) sys \<Rightarrow> ipvs_cmd \<Rightarrow> so_set \<Rightarrow> ip_vs_service_user \<Rightarrow> ip_vs_dest_user \<Rightarrow> 'w lib
     \<Rightarrow> int \<times> ip_vs_service_user \<times> ip_vs_dest_user \<times> 'w lib" where
  "dest_command L cmd opt svc dst s =
     (if nl_mode L s
      then (let (r, s) = nl_command L cmd (fill_svc_dest L svc dst) s in (r, svc, dst, s))
      else (let (ok, svc, s) = check_compat_svc svc s
            in if \<not> ok then (-1, svc, dst, s)
               else let (ok, dst, s) = check_compat_dest dst s
            in if \<not> ok then (-1, svc, dst, s)
               else let (r, s) = call_setsockopt L opt
                                   (SoServiceDest (service_prefix svc) (dest_prefix dst)) s
            in (r, svc, dst, s)))"

text \<open>Adding a destination records itself in \<^verbatim>\<open>ipvs_func\<close> in the netlink build only.\<close>

definition ipvs_add_dest ::
  "('w, 'm, 'a) sys \<Rightarrow> ip_vs_service_user \<Rightarrow> ip_vs_dest_user \<Rightarrow> 'w lib
     \<Rightarrow> int \<times> ip_vs_service_user \<times> ip_vs_dest_user \<times> 'w lib" where
  "ipvs_add_dest L svc dst s =
     (let s = (if libipvs_use_nl L then s\<lparr>ipvs_func := Some F_add_dest\<rparr> else s)
      in dest_command L IPVS_CMD_NEW_DEST IP_VS_SO_SET_ADDDEST svc dst s)"

definition ipvs_update_dest ::
  "('w, 'm, 'a) sys \<Rightarrow> ip_vs_service_user \<Rightarrow> ip_vs_dest_user \<Rightarrow> 'w lib
     \<Rightarrow> int \<times> ip_vs_service_user \<times> ip_vs_dest_user \<times> 'w lib" where
  "ipvs_update_dest L svc dst s =
     dest_command L IPVS_CMD_SET_DEST IP_VS_SO_SET_EDITDEST svc dst (s\<lparr>ipvs_func := Some F_update_dest\<rparr>)"

definition ipvs_del_dest ::
  "('w, 'm, 'a) sys \<Rightarrow> ip_vs_service_user \<Rightarrow> ip_vs_dest_user \<Rightarrow> 'w lib
     \<Rightarrow> int \<times> ip_vs_service_user \<times> ip_vs_dest_user \<times> 'w lib" where
  "ipvs_del_dest L svc dst s =
     dest_command L IPVS_CMD_DEL_DEST IP_VS_SO_SET_DELDEST svc dst (s\<lparr>ipvs_func := Some F_del_dest\<rparr>)"

section \<open>Timeouts, daemons, flush\<close>

definition ipvs_flush :: "('w, 'm, 'a) sys \<Rightarrow> 'w lib \<Rightarrow> int \<times> 'w lib" where
  "ipvs_flush L s =
     (if nl_mode L s
      then (case ipvs_nl_message L IPVS_CMD_FLUSH False s of
              (None, s) \<Rightarrow> (-1, s)
            | (Some msg, s) \<Rightarrow>
                (let (r, _, s) = ipvs_nl_send_message L (Some msg) ipvs_nl_noop_cb () s
                 in (if r = 0 then 0 else -1, s)))
      else call_setsockopt L IP_VS_SO_SET_FLUSH SoNone s)"

definition timeout_items :: "ip_vs_timeout_user \<Rightarrow> nl_item list" where
  "timeout_items to =
     [PutU32 IPVS_CMD_ATTR_TIMEOUT_TCP (tcp_timeout to),
      PutU32 IPVS_CMD_ATTR_TIMEOUT_TCP_FIN (tcp_fin_timeout to),
      PutU32 IPVS_CMD_ATTR_TIMEOUT_UDP (udp_timeout to)]"

definition ipvs_set_timeout :: "('w, 'm, 'a) sys \<Rightarrow> ip_vs_timeout_user \<Rightarrow> 'w lib \<Rightarrow> int \<times> 'w lib" where
  "ipvs_set_timeout L to s =
     (let s = s\<lparr>ipvs_func := Some F_set_timeout\<rparr>
      in if nl_mode L s then nl_command L IPVS_CMD_SET_TIMEOUT (fill_items L (timeout_items to)) s
         else call_setsockopt L IP_VS_SO_SET_TIMEOUT (SoTimeout to) s)"

text \<open>The low byte of the 16-bit TTL is sent; a zero length, port or TTL is left out.\<close>

definition start_daemon_items :: "ip_vs_daemon_user \<Rightarrow> nl_item list" where
  "start_daemon_items dm =
     [NestStart IPVS_CMD_ATTR_DAEMON,
      PutU32 IPVS_DAEMON_ATTR_STATE (dm_state dm),
      PutString IPVS_DAEMON_ATTR_MCAST_IFN (dm_mcast_ifn dm),
      PutU32 IPVS_DAEMON_ATTR_SYNC_ID (dm_syncid dm)] @
     (if dm_sync_maxlen dm \<noteq> 0
      then [PutU16 IPVS_DAEMON_ATTR_SYNC_MAXLEN (ucast (dm_sync_maxlen dm))] else []) @
     (if dm_mcast_port dm \<noteq> 0 then [PutU16 IPVS_DAEMON_ATTR_MCAST_PORT (dm_mcast_port dm)] else []) @
     (if dm_mcast_ttl dm \<noteq> 0 then [PutU8 IPVS_DAEMON_ATTR_MCAST_TTL (ucast (dm_mcast_ttl dm))] else []) @
     (if dm_mcast_af dm = AF_INET6 then [PutAddr IPVS_DAEMON_ATTR_MCAST_GROUP6 (dm_mcast_group dm)]
      else if dm_mcast_af dm = AF_INET
      then [PutU32 IPVS_DAEMON_ATTR_MCAST_GROUP (addr_ip (dm_mcast_group dm))] else []) @
     [NestEnd]"

definition ipvs_start_daemon :: "('w, 'm, 'a) sys \<Rightarrow> ip_vs_daemon_user \<Rightarrow> 'w lib \<Rightarrow> int \<times> 'w lib" where
  "ipvs_start_daemon L dm s =
     (let s = s\<lparr>ipvs_func := Some F_start_daemon\<rparr>
      in if nl_mode L s then nl_command L IPVS_CMD_NEW_DAEMON (fill_items L (start_daemon_items dm)) s
         else let s = (if 16 \<le> length (dm_mcast_ifn dm) then undefined_behaviour s else s);
                  dmk = \<lparr>dmk_state = dm_state dm, dmk_mcast_ifn = dm_mcast_ifn dm, dmk_syncid = dm_syncid dm\<rparr>
              in call_setsockopt L IP_VS_SO_SET_STARTDAEMON (SoDaemon dmk) s)"

definition stop_daemon_items :: "ip_vs_daemon_user \<Rightarrow> nl_item list" where
  "stop_daemon_items dm =
     [NestStart IPVS_CMD_ATTR_DAEMON,
      PutU32 IPVS_DAEMON_ATTR_STATE (dm_state dm),
      PutString IPVS_DAEMON_ATTR_MCAST_IFN (dm_mcast_ifn dm),
      PutU32 IPVS_DAEMON_ATTR_SYNC_ID (dm_syncid dm),
      NestEnd]"

definition ipvs_stop_daemon :: "('w, 'm, 'a) sys \<Rightarrow> ip_vs_daemon_user \<Rightarrow> 'w lib \<Rightarrow> int \<times> 'w lib" where
  "ipvs_stop_daemon L dm s =
     (let s = s\<lparr>ipvs_func := Some F_stop_daemon\<rparr>
      in if nl_mode L s then nl_command L IPVS_CMD_DEL_DAEMON (fill_items L (stop_daemon_items dm)) s
         else let dmk = \<lparr>dmk_state = dm_state dm, dmk_mcast_ifn = [], dmk_syncid = 0\<rparr>
              in call_setsockopt L IP_VS_SO_SET_STOPDAEMON (SoDaemon dmk) s)"

section \<open>Start-up and shutdown\<close>

definition ipvs_getinfo_parse_cb ::
  "('w, 'm, 'a) sys \<Rightarrow> 'm \<Rightarrow> unit \<Rightarrow> 'w lib \<Rightarrow> int \<times> unit \<times> 'w lib" where
  "ipvs_getinfo_parse_cb L msg arg s =
     (case genlmsg_parse L msg IPVS_INFO_ATTR_MAX ipvs_info_policy of
        None \<Rightarrow> (-1, arg, s)
      | Some attrs \<Rightarrow>
          (case (attrs IPVS_INFO_ATTR_VERSION, attrs IPVS_INFO_ATTR_CONN_TAB_SIZE) of
             (Some v, Some n) \<Rightarrow>
               (NL_OK, arg, s\<lparr>ipvs_info := (ipvs_info s)\<lparr>info_version := nla_get_u32 L v,
                                                       info_size := nla_get_u32 L n\<rparr>\<rparr>)
           | _ \<Rightarrow> (-1, arg, s)))"

definition call_getsockopt_info :: "('w, 'm, 'a) sys \<Rightarrow> 'w lib \<Rightarrow> int \<times> 'w lib" where
  "call_getsockopt_info L s =
     (let (r, w) = getsockopt_info L (sockfd s) (world s); s = s\<lparr>world := w\<rparr>
      in case r of Inl e \<Rightarrow> (-1, set_errno e s) | Inr i \<Rightarrow> (0, s\<lparr>ipvs_info := i\<rparr>))"

definition ipvs_getinfo :: "('w, 'm, 'a) sys \<Rightarrow> 'w lib \<Rightarrow> int \<times> 'w lib" where
  "ipvs_getinfo L s =
     (if nl_mode L s
      then (case ipvs_nl_message L IPVS_CMD_GET_INFO False s of
              (None, s) \<Rightarrow> (-1, s)
            | (Some msg, s) \<Rightarrow>
                (let (r, _, s) = ipvs_nl_send_message L (Some msg) (ipvs_getinfo_parse_cb L) () s
                 in (r, s)))
      else call_getsockopt_info L (s\<lparr>ipvs_func := Some F_getinfo\<rparr>))"

text \<open>Opening the raw socket of the older interface: the fallback, or the only way.\<close>

definition open_raw_socket :: "('w, 'm, 'a) sys \<Rightarrow> 'w lib \<Rightarrow> int \<times> 'w lib" where
  "open_raw_socket L s =
     (let (r, w) = socket_raw L (world s); s = s\<lparr>world := w\<rparr>
      in case r of
           Inl e \<Rightarrow> (-1, set_errno e (s\<lparr>sockfd := -1\<rparr>))
         | Inr fd \<Rightarrow> call_getsockopt_info L (s\<lparr>sockfd := fd, live := Fd fd # live s\<rparr>))"

definition ipvs_init :: "('w, 'm, 'a) sys \<Rightarrow> 'w lib \<Rightarrow> int \<times> 'w lib" where
  "ipvs_init L s =
     (let s = s\<lparr>ipvs_func := Some F_init\<rparr>
      in if libipvs_use_nl L
         then (let s = s\<lparr>try_nl := True\<rparr>;
                   (c, _, s) = ipvs_nl_send_message L None (ipvs_nl_noop_cb) () s
               in if c = 0 then ipvs_getinfo L (s\<lparr>try_nl := True\<rparr>)
                  else open_raw_socket L (s\<lparr>try_nl := False\<rparr>))
         else open_raw_socket L s)"

definition ipvs_version :: "'w lib \<Rightarrow> u32" where
  "ipvs_version s = info_version (ipvs_info s)"

definition ipvs_close :: "('w, 'm, 'a) sys \<Rightarrow> 'w lib \<Rightarrow> 'w lib" where
  "ipvs_close L s =
     (if nl_mode L s then s
      else s\<lparr>world := close_fd L (sockfd s) (world s), live := remove1 (Fd (sockfd s)) (live s)\<rparr>)"

end
