(* ===== verification/LibContract.thy ===== *)
theory LibContract
  imports LibCommands
begin

text \<open>
  The contract the commands of libipvs share, as their clients use it: a call returns 0 or
  -1; it frees whatever it allocated; it sends at most the one request it stands for, and
  has sent it when it returns 0. The contract is a locale; every command is an instance of
  it, in both its forms.
\<close>

section \<open>The contract\<close>

locale ipvs_command =
  fixes op :: "'w lib \<Rightarrow> int \<times> 'w lib"
    and req :: "'w lib \<Rightarrow> request"
    and clean :: bool
  assumes op_code: "op s = (r, t) \<Longrightarrow> r = 0 \<or> r = -1"
    and op_balanced: "op s = (r, t) \<Longrightarrow> balanced s t"
    and op_sent: "op s = (r, t) \<Longrightarrow> sent t = sent s \<or> sent t = sent s @ [req s]"
    and op_done: "op s = (0, t) \<Longrightarrow> sent t = sent s @ [req s]"
    and op_clean: "op s = (r, t) \<Longrightarrow> clean \<Longrightarrow> ub t = ub s"
begin

lemma op_safe: "op s = (r, t) \<Longrightarrow> clean \<Longrightarrow> safe s t"
  by (simp add: safe_def op_balanced op_clean)

lemma op_trace: "op s = (r, t) \<Longrightarrow> length (sent t) \<le> Suc (length (sent s))"
  using op_sent by fastforce

text \<open>Trying again until it works, at most \<open>n\<close> times, as a client may.\<close>

fun retry :: "nat \<Rightarrow> 'w lib \<Rightarrow> int \<times> 'w lib" where
  "retry 0 s = (-1, s)"
| "retry (Suc n) s = (let (r, t) = op s in if r = 0 then (0, t) else retry n t)"

lemma retry_balanced: "retry n s = (r, t) \<Longrightarrow> balanced s t"
  by (induction n arbitrary: s)
    (auto split: prod.splits if_splits intro: balanced_trans op_balanced)

lemma retry_trace: "retry n s = (r, t) \<Longrightarrow> length (sent t) \<le> n + length (sent s)"
proof (induction n arbitrary: s)
  case (Suc n)
  obtain c u where opu: "op s = (c, u)" by (metis surj_pair)
  with op_trace [OF opu] Suc.IH [of u] Suc.prems show ?case by (auto split: if_splits)
qed simp

end

section \<open>Netlink commands satisfy it\<close>

definition nl_request :: "ipvs_cmd \<Rightarrow> nl_item list \<Rightarrow> 'w lib \<Rightarrow> request" where
  "nl_request cmd xs s =
     NlRequest \<lparr>msg_id = next_id s, msg_family = family s, msg_cmd = cmd, msg_dump = False, msg_items = xs\<rparr>"

lemma fill_svc_dest_items: "fill_svc_dest L svc dst = fill_items L (service_items svc @ dest_items dst)"
  by (intro ext) (simp add: fill_svc_dest_def fill_items_def ipvs_nl_fill_service_attr_def
      ipvs_nl_fill_dest_attr_def nla_put_all_append Let_def split: prod.split)

lemma fill_service_attr_items: "(\<lambda>msg s. ipvs_nl_fill_service_attr L msg svc s) = fill_items L (service_items svc)"
  by (intro ext) (simp add: ipvs_nl_fill_service_attr_def fill_items_def)

lemma nl_command_contract:
  assumes "nl_command L cmd (fill_items L xs) s = (r, t)"
  shows "(r = 0 \<or> r = -1) \<and> balanced s t \<and> (sent t = sent s \<or> sent t = sent s @ [nl_request cmd xs s])
    \<and> (r = 0 \<longrightarrow> sent t = sent s @ [nl_request cmd xs s])
    \<and> (list_all (\<lambda>x. \<not> unterminated x) xs \<longrightarrow> ub t = ub s)"
proof (cases "ipvs_nl_message L cmd False s")
  case (Pair m0 s1)
  show ?thesis
  proof (cases m0)
    case None
    have "quiet s s1" and "ub s1 = ub s"
      using Pair None
      by (auto simp: ipvs_nl_message_def acquire_def quiet_def Let_def split: prod.splits if_splits)
    with assms Pair None show ?thesis
      by (auto simp: nl_command_def quiet_def balanced_def)
  next
    case (Some m)
    note msg = ipvs_nl_message_Some [OF Pair [unfolded Some]]
    obtain ok m' s2 where put: "nla_put_all L xs m s1 = (ok, m', s2)" by (metis prod_cases3)
    note q = nla_put_all_quiet [OF put]
    have live2: "live s2 = Msg (msg_id m') # live s"
      using msg q by (simp add: quiet_def)
    have ub2: "list_all (\<lambda>x. \<not> unterminated x) xs \<Longrightarrow> ub s2 = ub s"
      using nla_put_all_ub [OF put] msg by simp
    show ?thesis
    proof (cases ok)
      case False
      with assms Pair Some put have "r = -1" "t = release (Msg (msg_id m')) s2"
        by (auto simp: nl_command_def fill_items_def nlmsg_free_def)
      then have "t = s2\<lparr>live := live s\<rparr>" using live2 by simp
      with \<open>r = -1\<close> q msg ub2 show ?thesis by (simp add: quiet_def balanced_def)
    next
      case True
      then have m': "NlRequest m' = nl_request cmd xs s"
        using nla_put_all_ok [of L xs m s1 m' s2] put msg by (simp add: nl_request_def)
      from True assms Pair Some put obtain a where
        snd: "ipvs_nl_send_message L (Some m') ipvs_nl_noop_cb () s2 = (r, a, t)"
        by (auto simp: nl_command_def fill_items_def split: prod.splits)
      note eff = noop.send_effect [OF snd live2]
      note sf = noop.send_safe [OF snd live2]
      have "sent s2 = sent s" using q msg by (simp add: quiet_def)
      with eff sf m' q msg ub2 show ?thesis by (auto simp: quiet_def balanced_def list_all_iff)
    qed
  qed
qed

lemma call_setsockopt_contract:
  assumes "call_setsockopt L opt arg s = (r, t)"
  shows "(r = 0 \<or> r = -1) \<and> safe s t \<and> sent t = sent s @ [SoRequest opt arg]"
  using assms
  by (auto simp: call_setsockopt_def Let_def safe_def balanced_def set_errno_def
      split: prod.splits sum.splits)

lemma check_compat_svc_effect:
  "check_compat_svc svc s = (ok, svc', t) \<Longrightarrow> t = s \<or> t = set_errno EAFNOSUPPORT s"
  by (auto simp: check_compat_svc_def Let_def split: if_splits)

lemma check_compat_dest_effect:
  "check_compat_dest dst s = (ok, dst', t) \<Longrightarrow> t = s \<or> t = set_errno EAFNOSUPPORT s"
  by (auto simp: check_compat_dest_def Let_def split: if_splits)

section \<open>The commands as values\<close>

text \<open>One constructor per command of the library, its execution, and the request it stands for.\<close>

datatype command =
    AddService ip_vs_service_user
  | UpdateService ip_vs_service_user
  | DelService ip_vs_service_user
  | ZeroService ip_vs_service_user
  | AddDest ip_vs_service_user ip_vs_dest_user
  | UpdateDest ip_vs_service_user ip_vs_dest_user
  | DelDest ip_vs_service_user ip_vs_dest_user
  | SetTimeout ip_vs_timeout_user
  | StartDaemon ip_vs_daemon_user
  | StopDaemon ip_vs_daemon_user
  | Flush

fun exec_command :: "('w, 'm, 'a) sys \<Rightarrow> command \<Rightarrow> 'w lib \<Rightarrow> int \<times> 'w lib" where
  "exec_command L (AddService svc) s = (let (r, _, t) = ipvs_add_service L svc s in (r, t))"
| "exec_command L (UpdateService svc) s = (let (r, _, t) = ipvs_update_service L svc s in (r, t))"
| "exec_command L (DelService svc) s = (let (r, _, t) = ipvs_del_service L svc s in (r, t))"
| "exec_command L (ZeroService svc) s = (let (r, _, t) = ipvs_zero_service L svc s in (r, t))"
| "exec_command L (AddDest svc dst) s = (let (r, _, _, t) = ipvs_add_dest L svc dst s in (r, t))"
| "exec_command L (UpdateDest svc dst) s = (let (r, _, _, t) = ipvs_update_dest L svc dst s in (r, t))"
| "exec_command L (DelDest svc dst) s = (let (r, _, _, t) = ipvs_del_dest L svc dst s in (r, t))"
| "exec_command L (SetTimeout to) s = ipvs_set_timeout L to s"
| "exec_command L (StartDaemon dm) s = ipvs_start_daemon L dm s"
| "exec_command L (StopDaemon dm) s = ipvs_stop_daemon L dm s"
| "exec_command L Flush s = ipvs_flush L s"

fun nl_content :: "command \<Rightarrow> ipvs_cmd \<times> nl_item list" where
  "nl_content (AddService svc) = (IPVS_CMD_NEW_SERVICE, service_items svc)"
| "nl_content (UpdateService svc) = (IPVS_CMD_SET_SERVICE, service_items svc)"
| "nl_content (DelService svc) = (IPVS_CMD_DEL_SERVICE, service_items svc)"
| "nl_content (ZeroService svc) = (IPVS_CMD_ZERO, zero_items svc)"
| "nl_content (AddDest svc dst) = (IPVS_CMD_NEW_DEST, service_items svc @ dest_items dst)"
| "nl_content (UpdateDest svc dst) = (IPVS_CMD_SET_DEST, service_items svc @ dest_items dst)"
| "nl_content (DelDest svc dst) = (IPVS_CMD_DEL_DEST, service_items svc @ dest_items dst)"
| "nl_content (SetTimeout to) = (IPVS_CMD_SET_TIMEOUT, timeout_items to)"
| "nl_content (StartDaemon dm) = (IPVS_CMD_NEW_DAEMON, start_daemon_items dm)"
| "nl_content (StopDaemon dm) = (IPVS_CMD_DEL_DAEMON, stop_daemon_items dm)"
| "nl_content Flush = (IPVS_CMD_FLUSH, [])"

definition with_v4 :: "ip_vs_service_user \<Rightarrow> ip_vs_service_user" where
  "with_v4 svc = svc\<lparr>svc_addr_v4 := addr_ip (svc_addr svc)\<rparr>"

definition with_dest_v4 :: "ip_vs_dest_user \<Rightarrow> ip_vs_dest_user" where
  "with_dest_v4 dst = dst\<lparr>dst_addr_v4 := addr_ip (dst_addr dst)\<rparr>"

fun so_content :: "command \<Rightarrow> so_set \<times> so_arg" where
  "so_content (AddService svc) = (IP_VS_SO_SET_ADD, SoService (service_prefix (with_v4 svc)))"
| "so_content (UpdateService svc) = (IP_VS_SO_SET_EDIT, SoService (service_prefix (with_v4 svc)))"
| "so_content (DelService svc) = (IP_VS_SO_SET_DEL, SoService (service_prefix (with_v4 svc)))"
| "so_content (ZeroService svc) = (IP_VS_SO_SET_ZERO, SoService (service_prefix (with_v4 svc)))"
| "so_content (AddDest svc dst) =
     (IP_VS_SO_SET_ADDDEST, SoServiceDest (service_prefix (with_v4 svc)) (dest_prefix (with_dest_v4 dst)))"
| "so_content (UpdateDest svc dst) =
     (IP_VS_SO_SET_EDITDEST, SoServiceDest (service_prefix (with_v4 svc)) (dest_prefix (with_dest_v4 dst)))"
| "so_content (DelDest svc dst) =
     (IP_VS_SO_SET_DELDEST, SoServiceDest (service_prefix (with_v4 svc)) (dest_prefix (with_dest_v4 dst)))"
| "so_content (SetTimeout to) = (IP_VS_SO_SET_TIMEOUT, SoTimeout to)"
| "so_content (StartDaemon dm) = (IP_VS_SO_SET_STARTDAEMON,
     SoDaemon \<lparr>dmk_state = dm_state dm, dmk_mcast_ifn = dm_mcast_ifn dm, dmk_syncid = dm_syncid dm\<rparr>)"
| "so_content (StopDaemon dm) = (IP_VS_SO_SET_STOPDAEMON,
     SoDaemon \<lparr>dmk_state = dm_state dm, dmk_mcast_ifn = [], dmk_syncid = 0\<rparr>)"
| "so_content Flush = (IP_VS_SO_SET_FLUSH, SoNone)"

definition request_of :: "('w, 'm, 'a) sys \<Rightarrow> command \<Rightarrow> 'w lib \<Rightarrow> request" where
  "request_of L c s =
     (if nl_mode L s then nl_request (fst (nl_content c)) (snd (nl_content c)) s
      else SoRequest (fst (so_content c)) (snd (so_content c)))"

text \<open>The strings of a command's arguments are terminated within their 16 bytes.\<close>

fun terminated :: "command \<Rightarrow> bool" where
  "terminated (SetTimeout to) = True"
| "terminated Flush = True"
| "terminated (StartDaemon dm) = (length (dm_mcast_ifn dm) < 16)"
| "terminated (StopDaemon dm) = (length (dm_mcast_ifn dm) < 16)"
| "terminated (AddService svc) = (length (svc_sched_name svc) < 16 \<and> length (svc_pe_name svc) < 16)"
| "terminated (UpdateService svc) = (length (svc_sched_name svc) < 16 \<and> length (svc_pe_name svc) < 16)"
| "terminated (DelService svc) = (length (svc_sched_name svc) < 16 \<and> length (svc_pe_name svc) < 16)"
| "terminated (ZeroService svc) = (length (svc_sched_name svc) < 16 \<and> length (svc_pe_name svc) < 16)"
| "terminated (AddDest svc dst) = (length (svc_sched_name svc) < 16 \<and> length (svc_pe_name svc) < 16)"
| "terminated (UpdateDest svc dst) = (length (svc_sched_name svc) < 16 \<and> length (svc_pe_name svc) < 16)"
| "terminated (DelDest svc dst) = (length (svc_sched_name svc) < 16 \<and> length (svc_pe_name svc) < 16)"

lemma terminated_items: "terminated c \<Longrightarrow> list_all (\<lambda>x. \<not> unterminated x) (snd (nl_content c))"
  by (cases c) (auto simp: service_items_def dest_items_def zero_items_def timeout_items_def
      start_daemon_items_def stop_daemon_items_def)

section \<open>Every command keeps the contract\<close>

text \<open>Every command in its netlink form is the generic command on its content.\<close>

lemma nl_mode_func [simp]: "nl_mode L (s\<lparr>ipvs_func := f\<rparr>) = nl_mode L s"
  by (simp add: nl_mode_def)

lemma flush_nl:
  assumes "nl_mode L s" and "ipvs_flush L s = (r, t)"
  shows "nl_command L IPVS_CMD_FLUSH (fill_items L []) s = (r, t)"
proof (cases "ipvs_nl_message L IPVS_CMD_FLUSH False s")
  case (Pair m s1)
  show ?thesis
  proof (cases m)
    case None
    with Pair assms show ?thesis by (simp add: ipvs_flush_def nl_command_def)
  next
    case (Some m0)
    obtain r0 a t0 where snd: "ipvs_nl_send_message L (Some m0) ipvs_nl_noop_cb () s1 = (r0, a, t0)"
      by (metis prod_cases3)
    have "live s1 = Msg (msg_id m0) # live s"
      using ipvs_nl_message_Some [OF Pair [unfolded Some]] by (simp add: quiet_def)
    from noop.send_effect [OF snd this] snd Pair Some assms show ?thesis
      by (auto simp: ipvs_flush_def nl_command_def fill_items_def split: if_splits)
  qed
qed

lemma exec_nl:
  assumes "nl_mode L s" and "exec_command L c s = (r, t)"
  shows "\<exists>f. nl_command L (fst (nl_content c)) (fill_items L (snd (nl_content c))) (s\<lparr>ipvs_func := f\<rparr>) = (r, t)"
proof (cases c)
  case Flush
  with flush_nl [OF assms(1)] assms(2) have
    "nl_command L (fst (nl_content c)) (fill_items L (snd (nl_content c))) (s\<lparr>ipvs_func := ipvs_func s\<rparr>) = (r, t)"
    by simp
  then show ?thesis ..
qed (use assms in \<open>auto simp: ipvs_add_service_def ipvs_update_service_def ipvs_del_service_def
    service_command_def ipvs_zero_service_def ipvs_add_dest_def ipvs_update_dest_def
    ipvs_del_dest_def dest_command_def ipvs_set_timeout_def ipvs_start_daemon_def
    ipvs_stop_daemon_def fill_service_attr_items fill_svc_dest_items nl_mode_def Let_def
    split: prod.splits\<close>)

text \<open>In the socket form a command is refused with EAFNOSUPPORT or is the call on its content.\<close>

definition so_outcome :: "('w, 'm, 'a) sys \<Rightarrow> command \<Rightarrow> 'w lib \<Rightarrow> int \<Rightarrow> 'w lib \<Rightarrow> bool" where
  "so_outcome L c s r t \<longleftrightarrow>
     (r = -1 \<and> safe s t \<and> sent t = sent s \<and> errno t = EAFNOSUPPORT) \<or>
     (\<exists>s'. call_setsockopt L (fst (so_content c)) (snd (so_content c)) s' = (r, t) \<and>
       balanced s s' \<and> sent s' = sent s \<and> (terminated c \<longrightarrow> ub s' = ub s))"

lemma so_outcome_call:
  "call_setsockopt L opt arg s' = (r, t) \<Longrightarrow> so_content c = (opt, arg) \<Longrightarrow> balanced s s' \<Longrightarrow>
   sent s' = sent s \<Longrightarrow> (terminated c \<Longrightarrow> ub s' = ub s) \<Longrightarrow> so_outcome L c s r t"
  by (auto simp: so_outcome_def)

lemma so_outcome_refused: "so_outcome L c s (-1) (set_errno EAFNOSUPPORT (s\<lparr>ipvs_func := f\<rparr>))"
  by (simp add: so_outcome_def set_errno_def safe_def balanced_def)

lemma check_compat_svc_cases:
  obtains "check_compat_svc svc s = (True, with_v4 svc, s)"
  | svc' where "check_compat_svc svc s = (False, svc', set_errno EAFNOSUPPORT s)"
proof -
  have "check_compat_svc svc s = (True, with_v4 svc, s) \<or>
      (\<exists>svc'. check_compat_svc svc s = (False, svc', set_errno EAFNOSUPPORT s))"
    by (auto simp: check_compat_svc_def with_v4_def Let_def)
  with that show ?thesis by blast
qed

lemma check_compat_dest_cases:
  obtains "check_compat_dest dst s = (True, with_dest_v4 dst, s)"
  | dst' where "check_compat_dest dst s = (False, dst', set_errno EAFNOSUPPORT s)"
  using that by (cases "dst_af dst \<noteq> 0 \<and> dst_af dst \<noteq> AF_INET")
    (simp_all add: check_compat_dest_def with_dest_v4_def)

lemma service_command_so:
  assumes "\<not> nl_mode L s" and "service_command L fn cmd opt svc s = (r, svc', t)"
    and "so_content c = (opt, SoService (service_prefix (with_v4 svc)))"
  shows "so_outcome L c s r t"
proof (cases rule: check_compat_svc_cases [of svc "s\<lparr>ipvs_func := Some fn\<rparr>"])
  case 1
  with assms have "call_setsockopt L opt (SoService (service_prefix (with_v4 svc)))
      (s\<lparr>ipvs_func := Some fn\<rparr>) = (r, t)"
    by (auto simp: service_command_def split: prod.splits)
  from so_outcome_call [OF this assms(3)] show ?thesis by simp
next
  case (2 svc'')
  with assms show ?thesis
    by (auto simp: service_command_def so_outcome_refused)
qed

lemma zero_service_so:
  assumes "\<not> nl_mode L s" and "ipvs_zero_service L svc s = (r, svc', t)"
  shows "so_outcome L (ZeroService svc) s r t"
proof -
  have "service_command L F_zero_service IPVS_CMD_ZERO IP_VS_SO_SET_ZERO svc s = (r, svc', t)"
    using assms by (simp add: ipvs_zero_service_def service_command_def Let_def)
  from service_command_so [OF assms(1) this] show ?thesis by simp
qed

lemma dest_command_so:
  assumes "\<not> nl_mode L s" and "dest_command L cmd opt svc dst (s\<lparr>ipvs_func := f\<rparr>) = (r, svc', dst', t)"
    and "so_content c = (opt, SoServiceDest (service_prefix (with_v4 svc)) (dest_prefix (with_dest_v4 dst)))"
  shows "so_outcome L c s r t"
proof (cases rule: check_compat_svc_cases [of svc "s\<lparr>ipvs_func := f\<rparr>"])
  case svc: 1
  show ?thesis
  proof (cases rule: check_compat_dest_cases [of dst "s\<lparr>ipvs_func := f\<rparr>"])
    case 1
    with svc assms have "call_setsockopt L opt
        (SoServiceDest (service_prefix (with_v4 svc)) (dest_prefix (with_dest_v4 dst)))
        (s\<lparr>ipvs_func := f\<rparr>) = (r, t)"
      by (auto simp: dest_command_def split: prod.splits)
    from so_outcome_call [OF this assms(3)] show ?thesis by simp
  next
    case (2 dst'')
    with svc assms show ?thesis by (auto simp: dest_command_def so_outcome_refused)
  qed
next
  case (2 svc'')
  with assms show ?thesis by (auto simp: dest_command_def so_outcome_refused)
qed

lemma exec_so:
  assumes nl: "\<not> nl_mode L s" and ex: "exec_command L c s = (r, t)"
  shows "so_outcome L c s r t"
proof (cases c)
  case (AddDest svc dst)
  then obtain f svc' dst' where
    "dest_command L IPVS_CMD_NEW_DEST IP_VS_SO_SET_ADDDEST svc dst (s\<lparr>ipvs_func := f\<rparr>) = (r, svc', dst', t)"
    using ex that [of "if libipvs_use_nl L then Some F_add_dest else ipvs_func s"]
    by (cases "libipvs_use_nl L") (simp_all add: ipvs_add_dest_def split: prod.splits)
  from dest_command_so [OF nl this] AddDest show ?thesis by simp
next
  case (UpdateDest svc dst)
  with ex dest_command_so [OF nl] show ?thesis
    by (auto simp: ipvs_update_dest_def split: prod.splits)
next
  case (DelDest svc dst)
  with ex dest_command_so [OF nl] show ?thesis
    by (auto simp: ipvs_del_dest_def split: prod.splits)
next
  case (ZeroService svc)
  with ex zero_service_so [OF nl] show ?thesis by (auto split: prod.splits)
next
  case (StartDaemon dm)
  let ?s = "s\<lparr>ipvs_func := Some F_start_daemon\<rparr>"
  let ?t = "if 16 \<le> length (dm_mcast_ifn dm) then undefined_behaviour ?s else ?s"
  have "call_setsockopt L IP_VS_SO_SET_STARTDAEMON (snd (so_content c)) ?t = (r, t)"
    using nl ex StartDaemon by (simp add: ipvs_start_daemon_def Let_def)
  moreover have "so_content c = (IP_VS_SO_SET_STARTDAEMON, snd (so_content c))"
    using StartDaemon by simp
  moreover have "balanced s ?t" and "sent ?t = sent s" and "terminated c \<Longrightarrow> ub ?t = ub s"
    using StartDaemon by (auto simp: undefined_behaviour_def balanced_def)
  ultimately show ?thesis by (rule so_outcome_call)
qed (use nl ex service_command_so [OF nl] in \<open>auto simp: ipvs_add_service_def
    ipvs_update_service_def ipvs_del_service_def ipvs_set_timeout_def ipvs_stop_daemon_def
    ipvs_flush_def Let_def split: prod.splits intro!: so_outcome_call\<close>)

lemma exec_command_contract:
  assumes "exec_command L c s = (r, t)"
  shows "(r = 0 \<or> r = -1) \<and> balanced s t \<and> (sent t = sent s \<or> sent t = sent s @ [request_of L c s])
    \<and> (r = 0 \<longrightarrow> sent t = sent s @ [request_of L c s]) \<and> (terminated c \<longrightarrow> ub t = ub s)"
proof (cases "nl_mode L s")
  case True
  from exec_nl [OF True assms] obtain f where
    "nl_command L (fst (nl_content c)) (fill_items L (snd (nl_content c))) (s\<lparr>ipvs_func := f\<rparr>) = (r, t)" ..
  from nl_command_contract [OF this] True terminated_items [of c] show ?thesis
    by (simp add: request_of_def nl_request_def)
next
  case False
  from exec_so [OF False assms] show ?thesis
    unfolding so_outcome_def
  proof (elim disjE exE)
    assume "r = -1 \<and> safe s t \<and> sent t = sent s \<and> errno t = EAFNOSUPPORT"
    then show ?thesis by (simp add: safe_def)
  next
    fix s'
    assume s': "call_setsockopt L (fst (so_content c)) (snd (so_content c)) s' = (r, t) \<and>
      balanced s s' \<and> sent s' = sent s \<and> (terminated c \<longrightarrow> ub s' = ub s)"
    with call_setsockopt_contract [of L _ _ s' r t] False show ?thesis
      by (auto simp: request_of_def safe_def intro: balanced_trans)
  qed
qed

interpretation cmd: ipvs_command "exec_command L c" "request_of L c" "terminated c" for L c
  by unfold_locales (use exec_command_contract in blast)+

section \<open>Runs of commands\<close>

fun exec_all :: "('w, 'm, 'a) sys \<Rightarrow> command list \<Rightarrow> 'w lib \<Rightarrow> int list \<times> 'w lib" where
  "exec_all L [] s = ([], s)"
| "exec_all L (c # cs) s =
     (let (r, s) = exec_command L c s; (rs, s) = exec_all L cs s in (r # rs, s))"

text \<open>C12. Whatever the kernel, libnl and the allocator answer, any run of library commands frees
  every message and socket it allocated and nothing twice, keeps the raw socket and the mode,
  returns 0 or -1 each time, and makes at least as many kernel requests as commands succeeded
  and at most one per command; when the strings in the arguments are terminated it raises no
  undefined behaviour.\<close>

theorem exec_all_balanced:
  assumes "exec_all L cs s = (rs, t)"
  shows "balanced s t \<and> set rs \<subseteq> {0, -1} \<and> length rs = length cs
    \<and> length (sent s) + length (filter (\<lambda>r. r = 0) rs) \<le> length (sent t)
    \<and> length (sent t) \<le> length (sent s) + length cs
    \<and> (list_all terminated cs \<longrightarrow> ub t = ub s)"
  using assms
proof (induction cs arbitrary: s rs)
  case (Cons c cs)
  obtain r s1 rs' where ex: "exec_command L c s = (r, s1)" "exec_all L cs s1 = (rs', t)" "rs = r # rs'"
    using Cons.prems by (auto split: prod.splits)
  from Cons.IH [OF ex(2)] ex(3) cmd.op_code [OF ex(1)] cmd.op_balanced [OF ex(1)]
    cmd.op_sent [OF ex(1)] cmd.op_done [of L c s s1] cmd.op_clean [OF ex(1)] ex(1)
  show ?case by (auto intro: balanced_trans)
qed auto

lemma exec_all_balanced_witness:
  "\<exists>rs t. exec_all (sample_sys True) [AddDest sample_service sample_dest, Flush] (lib_start []) = (rs, t)
     \<and> rs = [0, 0] \<and> length (sent t) = 2 \<and> live t = [] \<and> \<not> ub t"
proof (intro exI conjI)
  let ?L = "sample_sys True" and ?cs = "[AddDest sample_service sample_dest, Flush]"
  let ?r = "exec_all ?L ?cs (lib_start [])"
  show run: "?r = (fst ?r, snd ?r)" by simp
  show rs: "fst ?r = [0, 0]" by code_simp
  from exec_all_balanced [OF run] rs show "length (sent (snd ?r)) = 2" by (simp add: lib_start_def)
  from exec_all_balanced [OF run] show "live (snd ?r) = []" by (simp add: balanced_def lib_start_def)
  have "list_all terminated ?cs" by code_simp
  with exec_all_balanced [OF run] show "\<not> ub (snd ?r)" by (simp add: lib_start_def)
qed

end
