(* ===== verification/LibParse.thy ===== *)
theory LibParse
  imports LibContract
begin

text \<open>
  The callbacks of \<^verbatim>\<open>depend/libipvs/libipvs.c\<close> that read the kernel's netlink answers:
  counters, services, destinations, timeouts and synchronisation daemons, with the
  invariant of the growing tables the services and destinations are collected in.
\<close>

section \<open>Callbacks that collect\<close>

text \<open>
  A callback that appends what a message says (\<open>decode\<close>, None when it is refused) to what its
  argument holds (\<open>view\<close>): after an exchange the argument holds the decoded answers in order.
\<close>

locale nl_collector = nl_callback cb I wf
  for cb :: "'m \<Rightarrow> 'r \<Rightarrow> 'w lib \<Rightarrow> int \<times> 'r \<times> 'w lib"
    and I :: "nat \<Rightarrow> 'r \<Rightarrow> bool"
    and wf :: "'m \<Rightarrow> bool" +
  fixes decode :: "'m \<Rightarrow> 'e option" and view :: "'r \<Rightarrow> 'e list"
  assumes cb_collects: "cb m r s = (c, r', t) \<Longrightarrow> I (Suc n) r \<Longrightarrow> wf m \<Longrightarrow>
    (case decode m of None \<Rightarrow> c = -1 | Some e \<Rightarrow> c = 0 \<and> view r' = view r @ [e])"
begin

lemma deliver_collects:
  "nl_deliver cb ms fin r s = (c, r', t) \<Longrightarrow> I (length ms) r \<Longrightarrow> list_all wf ms \<Longrightarrow>
   (if list_all (\<lambda>m. decode m \<noteq> None) ms
    then c = fin \<and> view r' = view r @ map (\<lambda>m. the (decode m)) ms else c = -1)"
proof (induction ms arbitrary: r s)
  case (Cons m ms)
  obtain c1 r1 s1 where cb1: "cb m r s = (c1, r1, s1)" by (metis prod_cases3)
  from Cons.prems have I: "I (Suc (length ms)) r" and wf: "wf m" "list_all wf ms" by simp_all
  note step = cb_collects [OF cb1 I wf(1)]
  show ?case
  proof (cases "decode m")
    case None
    with step cb1 Cons.prems show ?thesis by simp
  next
    case (Some e)
    with step cb1 Cons.prems have rest: "nl_deliver cb ms fin r1 s1 = (c, r', t)" by simp
    from cb_inv [OF cb1 I wf(1)] have "I (length ms) r1" by simp
    from Cons.IH [OF rest this wf(2)] step Some show ?thesis by simp
  qed
qed simp

lemma send_collects:
  assumes "ipvs_nl_send_message L (Some m) cb r s = (0, r', t)"
    and "\<And>w. I (length (fst (nl_recvmsgs L w))) r \<and> list_all wf (fst (nl_recvmsgs L w))"
  shows "\<exists>w ms. fst (nl_recvmsgs L w) = ms \<and> list_all (\<lambda>m. decode m \<noteq> None) ms
    \<and> view r' = view r @ map (\<lambda>m. the (decode m)) ms"
proof -
  have rcv: "list_all (\<lambda>m. decode m \<noteq> None) ms \<and> view r'' = view r @ map (\<lambda>m. the (decode m)) ms"
    if "nl_recvmsgs L w = (ms, fin, w')" "nl_deliver cb ms fin r s' = (c', r'', t')" "\<not> c' < 0"
    for w ms fin w' c' r'' s' t'
    using that deliver_collects [OF that(2)] assms(2) [of w] by (simp split: if_splits)
  from assms(1) obtain w ms fin w' s' c' t' where "nl_recvmsgs L w = (ms, fin, w')"
    "nl_deliver cb ms fin r s' = (c', r', t')" "\<not> c' < 0"
    by (auto simp: ipvs_nl_send_message_def Let_def split: prod.splits if_splits)
  from rcv [OF this] this(1) show ?thesis by (metis fst_conv)
qed

end

section \<open>Counters\<close>

text \<open>The ten counters, each of them required; \<open>get\<close> reads the counters other than the bytes.\<close>

definition parse_counters ::
  "('w, 'm, 'a) sys \<Rightarrow> ('a \<Rightarrow> u64) \<Rightarrow> 'a \<Rightarrow> ip_vs_stats64 \<Rightarrow> int \<times> ip_vs_stats64" where
  "parse_counters L get nla stats =
     (case nla_parse_nested L nla IPVS_STATS_ATTR_MAX ipvs_stats_policy of
        None \<Rightarrow> (-1, stats)
      | Some attrs \<Rightarrow>
          (case (attrs IPVS_STATS_ATTR_CONNS, attrs IPVS_STATS_ATTR_INPKTS, attrs IPVS_STATS_ATTR_OUTPKTS,
                 attrs IPVS_STATS_ATTR_INBYTES, attrs IPVS_STATS_ATTR_OUTBYTES, attrs IPVS_STATS_ATTR_CPS,
                 attrs IPVS_STATS_ATTR_INPPS, attrs IPVS_STATS_ATTR_OUTPPS, attrs IPVS_STATS_ATTR_INBPS,
                 attrs IPVS_STATS_ATTR_OUTBPS) of
             (Some conns, Some inpkts, Some outpkts, Some inbytes, Some outbytes, Some cps,
              Some inpps, Some outpps, Some inbps, Some outbps) \<Rightarrow>
               (0, stats\<lparr>st_conns := get conns, st_inpkts := get inpkts, st_outpkts := get outpkts,
                         st_inbytes := nla_get_u64 L inbytes, st_outbytes := nla_get_u64 L outbytes,
                         st_cps := get cps, st_inpps := get inpps, st_outpps := get outpps,
                         st_inbps := get inbps, st_outbps := get outbps\<rparr>)
           | _ \<Rightarrow> (-1, stats)))"

definition ipvs_parse_stats ::
  "('w, 'm, 'a) sys \<Rightarrow> ip_vs_stats64 \<Rightarrow> 'a \<Rightarrow> int \<times> ip_vs_stats64" where
  "ipvs_parse_stats L stats nla = parse_counters L (\<lambda>a. ucast (nla_get_u32 L a)) nla stats"

definition ipvs_parse_stats64 ::
  "('w, 'm, 'a) sys \<Rightarrow> ip_vs_stats64 \<Rightarrow> 'a \<Rightarrow> int \<times> ip_vs_stats64" where
  "ipvs_parse_stats64 L stats nla = parse_counters L (nla_get_u64 L) nla stats"

definition copy_stats_from_kern :: "ip_vs_stats_user \<Rightarrow> ip_vs_stats64" where
  "copy_stats_from_kern s = \<lparr>st_conns = ucast (su_conns s), st_inpkts = ucast (su_inpkts s),
     st_outpkts = ucast (su_outpkts s), st_inbytes = su_inbytes s, st_outbytes = su_outbytes s,
     st_cps = ucast (su_cps s), st_inpps = ucast (su_inpps s), st_outpps = ucast (su_outpps s),
     st_inbps = ucast (su_inbps s), st_outbps = ucast (su_outbps s)\<rparr>"

section \<open>Growing tables\<close>

text \<open>
  A write to slot \<open>i\<close> (a C \<^verbatim>\<open>int\<close>) of a table: outside the block it is undefined behaviour.
  \<open>grow\<close> is \<^verbatim>\<open>realloc\<close> to room for one entry more than the count, computed in 32 bits.
\<close>

definition table_put :: "i32 \<Rightarrow> 'e \<Rightarrow> 'e option list \<Rightarrow> 'w lib \<Rightarrow> 'e option list \<times> 'w lib" where
  "table_put i e xs s =
     (if 0 \<le> sint i \<and> nat (sint i) < length xs then (xs[nat (sint i) := Some e], s)
      else (xs, undefined_behaviour s))"

definition resize :: "nat \<Rightarrow> 'e option list \<Rightarrow> 'e option list" where
  "resize n xs = take n xs @ replicate (n - length xs) None"

definition realloc_table ::
  "('w, 'm, 'a) sys \<Rightarrow> nat \<Rightarrow> nat \<Rightarrow> nat \<Rightarrow> 'e option list \<Rightarrow> 'w lib \<Rightarrow> 'e option list option \<times> 'w lib" where
  "realloc_table L hdr sz n xs s =
     (let (ok, w) = realloc L (hdr + sz * n) (world s); s = s\<lparr>world := w\<rparr>
      in if ok then (Some (resize n xs), s) else (None, set_errno ENOMEM s))"

text \<open>Copying an address out of an attribute reads 16 bytes, whatever its length is.\<close>

definition overread :: "('w, 'm, 'a) sys \<Rightarrow> 'a option \<Rightarrow> bool" where
  "overread L a = (case a of Some a \<Rightarrow> nla_len L a < sizeof_nf_inet_addr | None \<Rightarrow> False)"

definition read_payload :: "('w, 'm, 'a) sys \<Rightarrow> 'a option \<Rightarrow> 'w lib \<Rightarrow> 'w lib" where
  "read_payload L a s = (if overread L a then undefined_behaviour s else s)"

section \<open>Services\<close>

definition service_complete :: "(nat \<Rightarrow> 'a option) \<Rightarrow> bool" where
  "service_complete at \<longleftrightarrow>
     at IPVS_SVC_ATTR_AF \<noteq> None \<and>
     (at IPVS_SVC_ATTR_FWMARK \<noteq> None \<or>
      (at IPVS_SVC_ATTR_PROTOCOL \<noteq> None \<and> at IPVS_SVC_ATTR_ADDR \<noteq> None \<and> at IPVS_SVC_ATTR_PORT \<noteq> None)) \<and>
     at IPVS_SVC_ATTR_SCHED_NAME \<noteq> None \<and> at IPVS_SVC_ATTR_NETMASK \<noteq> None \<and>
     at IPVS_SVC_ATTR_TIMEOUT \<noteq> None \<and> at IPVS_SVC_ATTR_FLAGS \<noteq> None"

text \<open>The entry of a complete set of attributes, without its counters.\<close>

definition service_entry ::
  "('w, 'm, 'a) sys \<Rightarrow> (nat \<Rightarrow> 'a option) \<Rightarrow> ip_vs_service_entry" where
  "service_entry L at =
     (let e = service_entry_zero\<lparr>se_af := nla_get_u16 L (the (at IPVS_SVC_ATTR_AF))\<rparr>;
          e = (case at IPVS_SVC_ATTR_FWMARK of
              Some a \<Rightarrow> e\<lparr>se_fwmark := nla_get_u32 L a\<rparr>
            | None \<Rightarrow> e\<lparr>se_protocol := nla_get_u16 L (the (at IPVS_SVC_ATTR_PROTOCOL)),
                         se_addr := nla_addr L (the (at IPVS_SVC_ATTR_ADDR)),
                         se_port := nla_get_u16 L (the (at IPVS_SVC_ATTR_PORT))\<rparr>);
          e = e\<lparr>se_sched_name := strncpy (nla_get_string L (the (at IPVS_SVC_ATTR_SCHED_NAME))) IP_VS_SCHEDNAME_MAXLEN\<rparr>;
          e = (case at IPVS_SVC_ATTR_PE_NAME of
                 Some a \<Rightarrow> e\<lparr>se_pe_name := strncpy (nla_get_string L a) IP_VS_PENAME_MAXLEN\<rparr> | None \<Rightarrow> e);
          flags = nla_flags L (the (at IPVS_SVC_ATTR_FLAGS))
      in e\<lparr>se_netmask := nla_get_u32 L (the (at IPVS_SVC_ATTR_NETMASK)),
           se_timeout := nla_get_u32 L (the (at IPVS_SVC_ATTR_TIMEOUT)),
           se_flags := fl_flags flags AND fl_mask flags\<rparr>)"

text \<open>The address is read when there is no firewall mark.\<close>

definition service_addr_attr :: "(nat \<Rightarrow> 'a option) \<Rightarrow> 'a option" where
  "service_addr_attr at = (if at IPVS_SVC_ATTR_FWMARK = None then at IPVS_SVC_ATTR_ADDR else None)"

definition service_counters ::
  "('w, 'm, 'a) sys \<Rightarrow> (nat \<Rightarrow> 'a option) \<Rightarrow> ip_vs_stats64 \<Rightarrow> int \<times> ip_vs_stats64" where
  "service_counters L at stats =
     (case at IPVS_SVC_ATTR_STATS64 of
        Some a \<Rightarrow> ipvs_parse_stats64 L stats a
      | None \<Rightarrow> (case at IPVS_SVC_ATTR_STATS of
                   Some a \<Rightarrow> ipvs_parse_stats L stats a | None \<Rightarrow> (0, stats)))"

text \<open>
  The callback. Its argument is the pointer to the table, None when an earlier \<^verbatim>\<open>realloc\<close>
  failed, and following it then is undefined behaviour. The slot is cleared before the
  attributes are checked, and a refused message leaves it cleared or partly filled.
\<close>

definition put_service ::
  "i32 \<Rightarrow> ip_vs_service_entry \<Rightarrow> ip_vs_get_services \<Rightarrow> 'w lib \<Rightarrow> ip_vs_get_services \<times> 'w lib" where
  "put_service i e get s =
     (let (xs, s) = table_put i e (gs_entrytable get) s in (get\<lparr>gs_entrytable := xs\<rparr>, s))"

definition ipvs_services_parse_cb ::
  "('w, 'm, 'a) sys \<Rightarrow> 'm \<Rightarrow> ip_vs_get_services option \<Rightarrow> 'w lib
     \<Rightarrow> int \<times> ip_vs_get_services option \<times> 'w lib" where
  "ipvs_services_parse_cb L msg getp s =
     (case getp of None \<Rightarrow> (-1, None, undefined_behaviour s) | Some get \<Rightarrow>
      let i = gs_num_services get
      in case genlmsg_parse L msg IPVS_CMD_ATTR_MAX ipvs_cmd_policy of
           None \<Rightarrow> (-1, Some get, s)
         | Some attrs \<Rightarrow>
      (case attrs IPVS_CMD_ATTR_SERVICE of None \<Rightarrow> (-1, Some get, s) | Some nest \<Rightarrow>
      (case nla_parse_nested L nest IPVS_SVC_ATTR_MAX ipvs_service_policy of
           None \<Rightarrow> (-1, Some get, s)
         | Some at \<Rightarrow>
      let (get, s) = put_service i service_entry_zero get s
      in if \<not> service_complete at then (-1, Some get, s)
      else let e = service_entry L at;
               s = read_payload L (service_addr_attr at) s;
               (c, st) = service_counters L at (se_stats64 e);
               e = e\<lparr>se_stats64 := st\<rparr>;
               (get, s) = put_service i e get s
      in if c \<noteq> 0 then (-1, Some get, s)
      else let (get, s) = put_service i (e\<lparr>se_num_dests := 0\<rparr>) get s;
               get = get\<lparr>gs_num_services := i + 1\<rparr>;
               (xs, s) = realloc_table L sizeof_get_services sizeof_service_entry
                           (unat (gs_num_services get + 1)) (gs_entrytable get) s
      in (case xs of None \<Rightarrow> (0, None, s) | Some xs \<Rightarrow> (0, Some (get\<lparr>gs_entrytable := xs\<rparr>), s)))))"

text \<open>What a message says, apart from the table it is put into.\<close>

definition service_attrs :: "('w, 'm, 'a) sys \<Rightarrow> 'm \<Rightarrow> (nat \<Rightarrow> 'a option) option" where
  "service_attrs L msg =
     (case genlmsg_parse L msg IPVS_CMD_ATTR_MAX ipvs_cmd_policy of None \<Rightarrow> None | Some attrs \<Rightarrow>
      (case attrs IPVS_CMD_ATTR_SERVICE of None \<Rightarrow> None | Some nest \<Rightarrow>
       nla_parse_nested L nest IPVS_SVC_ATTR_MAX ipvs_service_policy))"

definition decode_service :: "('w, 'm, 'a) sys \<Rightarrow> 'm \<Rightarrow> ip_vs_service_entry option" where
  "decode_service L msg =
     (case service_attrs L msg of None \<Rightarrow> None | Some at \<Rightarrow>
      if \<not> service_complete at then None
      else let e = service_entry L at; (c, st) = service_counters L at (se_stats64 e)
           in if c \<noteq> 0 then None else Some (e\<lparr>se_stats64 := st, se_num_dests := 0\<rparr>))"

definition services_view :: "ip_vs_get_services \<Rightarrow> ip_vs_service_entry list" where
  "services_view g = map the (take (unat (gs_num_services g)) (gs_entrytable g))"

text \<open>Room for \<open>n\<close> more messages: a block of one entry more than counted, all counted ones written.\<close>

definition table_room :: "nat \<Rightarrow> u32 \<Rightarrow> 'e option list \<Rightarrow> bool" where
  "table_room n k xs \<longleftrightarrow> length xs = unat k + 1 \<and> unat k + n < 2 ^ 31
     \<and> list_all (\<lambda>e. e \<noteq> None) (take (unat k) xs)"

definition realloc_total :: "('w, 'm, 'a) sys \<Rightarrow> bool" where
  "realloc_total L \<longleftrightarrow> (\<forall>k w. fst (realloc L k w))"

lemma quiet_ub [simp]: "quiet s (undefined_behaviour s)"
  by (simp add: quiet_def undefined_behaviour_def)

lemma table_put_quiet: "table_put i e xs s = (ys, t) \<Longrightarrow> quiet s t"
  by (auto simp: table_put_def split: if_splits)

lemma realloc_table_quiet: "realloc_table L h z n xs s = (ys, t) \<Longrightarrow> quiet s t"
  by (auto simp: realloc_table_def quiet_def set_errno_def Let_def split: prod.splits if_splits)

lemma read_payload_quiet [simp]: "quiet s (read_payload L a s)"
  by (simp add: read_payload_def)

lemma sint_small:
  assumes "unat (k :: u32) < 2 ^ 31"
  shows "sint k = int (unat k)"
proof -
  from assms have "int (unat k) < int (2 ^ 31)" by (simp only: of_nat_less_iff)
  then have u: "0 \<le> uint k \<and> uint k < 2 ^ 31" by simp
  have "sint k = signed_take_bit 31 (uint k)" by (simp add: sint_uint)
  also have "\<dots> = uint k"
    by (rule signed_take_bit_int_eq_self) (use u in linarith)+
  finally show ?thesis by simp
qed

lemma unat_inc: "unat (k :: u32) < 2 ^ 32 - 1 \<Longrightarrow> unat (k + 1) = Suc (unat k)"
  by (simp add: unat_plus_if')

lemma unat_succ: "unat (k :: u32) + Suc n < 2 ^ 31 \<Longrightarrow> unat (k + 1) = Suc (unat k)"
  by (rule unat_inc) simp

lemma unat_succ2: "unat (k :: u32) + Suc n < 2 ^ 31 \<Longrightarrow> unat (2 + k) = Suc (Suc (unat k))"
  using unat_inc [of "k + 1"] unat_succ [of k n] by (simp add: add.commute)

lemma table_put_room:
  "table_room (Suc n) k xs \<Longrightarrow> table_put k e xs s = (xs[unat k := Some e], s)"
  by (simp add: table_put_def table_room_def sint_small)

lemma table_room_update:
  "table_room n k xs \<Longrightarrow> table_room n k (xs[unat k := e])"
  by (simp add: table_room_def)

text \<open>A write to the slot after the counted ones, then growing, is appending an entry.\<close>

lemma resize_last:
  "length xs = Suc k \<Longrightarrow> resize (Suc (Suc k)) (xs[k := Some e]) = take k xs @ [Some e, None]"
  by (simp add: resize_def take_Suc_conv_app_nth [of k] list_eq_iff_nth_eq nth_append less_Suc_eq
      take_all)

lemma table_room_grow:
  assumes "table_room (Suc n) k xs"
  shows "table_room n (k + 1) (resize (unat (2 + k)) (xs[unat k := Some e]))"
    and "map the (take (unat (k + 1)) (resize (unat (2 + k)) (xs[unat k := Some e]))) =
      map the (take (unat k) xs) @ [e]"
proof -
  from assms have len: "length xs = Suc (unat k)" and b: "unat k + Suc n < 2 ^ 31"
    and w: "list_all (\<lambda>e. e \<noteq> None) (take (unat k) xs)"
    by (simp_all add: table_room_def)
  note r = unat_succ [OF b] unat_succ2 [OF b] resize_last [OF len]
  show "table_room n (k + 1) (resize (unat (2 + k)) (xs[unat k := Some e]))"
    using b w len by (simp add: table_room_def r)
  show "map the (take (unat (k + 1)) (resize (unat (2 + k)) (xs[unat k := Some e]))) =
      map the (take (unat k) xs) @ [e]"
    using len by (simp add: r)
qed

section \<open>The service callback appends what a message says\<close>

lemma put_service_quiet: "put_service i e g s = (g', t) \<Longrightarrow> quiet s t"
  by (auto simp: put_service_def dest: table_put_quiet split: prod.splits)

lemma services_cb_quiet:
  assumes "ipvs_services_parse_cb L m r s = (c, r', t)"
  shows "quiet s t \<and> (c = NL_OK \<or> c = -1)"
  using assms
  by (auto simp: ipvs_services_parse_cb_def Let_def NL_OK_def
      split: option.splits prod.splits if_splits
      dest!: put_service_quiet realloc_table_quiet)
    (meson quiet_trans read_payload_quiet)+

definition services_room :: "nat \<Rightarrow> nat \<Rightarrow> ip_vs_get_services option \<Rightarrow> bool" where
  "services_room b n getp =
     (case getp of None \<Rightarrow> False
      | Some g \<Rightarrow> gs_block g = b \<and> table_room n (gs_num_services g) (gs_entrytable g))"

text \<open>
  What the callback needs from outside: \<^verbatim>\<open>realloc\<close> does not fail and an address that is read
  has its 16 bytes.
\<close>

definition services_wf :: "('w, 'm, 'a) sys \<Rightarrow> 'm \<Rightarrow> bool" where
  "services_wf L m \<longleftrightarrow> realloc_total L \<and>
     (case service_attrs L m of None \<Rightarrow> True | Some at \<Rightarrow>
        service_complete at \<longrightarrow> \<not> overread L (service_addr_attr at))"

lemma realloc_table_total:
  "realloc_total L \<Longrightarrow> \<exists>w. realloc_table L h z n xs s = (Some (resize n xs), s\<lparr>world := w\<rparr>)"
  by (auto simp: realloc_table_def realloc_total_def Let_def split: prod.splits) (metis fst_conv)

lemma put_service_room:
  "table_room (Suc n) (gs_num_services g) (gs_entrytable g) \<Longrightarrow> i = gs_num_services g \<Longrightarrow>
   put_service i e g s = (g\<lparr>gs_entrytable := (gs_entrytable g)[unat i := Some e]\<rparr>, s)"
  by (simp add: put_service_def table_put_room)

lemma services_cb_step:
  assumes room: "table_room (Suc n) (gs_num_services g) (gs_entrytable g)" and wf: "services_wf L m"
    and cb: "ipvs_services_parse_cb L m (Some g) s = (c, r', t)"
  shows "\<exists>g'. r' = Some g' \<and> gs_block g' = gs_block g \<and> ub t = ub s \<and>
    (case decode_service L m of
       None \<Rightarrow> c = -1 \<and> services_view g' = services_view g
         \<and> table_room n (gs_num_services g') (gs_entrytable g')
     | Some e \<Rightarrow> c = 0 \<and> services_view g' = services_view g @ [e]
         \<and> table_room n (gs_num_services g') (gs_entrytable g'))"
proof -
  let ?xs = "gs_entrytable g" and ?k = "gs_num_services g"
  have keep: "table_room n ?k ?xs" using room by (simp add: table_room_def)
  have view: "map the (take (unat ?k) (?xs[unat ?k := x])) = map the (take (unat ?k) ?xs)" for x
    by simp
  show ?thesis
  proof (cases "service_attrs L m")
    case None
    with cb keep show ?thesis
      by (auto simp: ipvs_services_parse_cb_def service_attrs_def decode_service_def split: option.splits)
  next
    case (Some at)
    then obtain attrs nest where msg: "genlmsg_parse L m IPVS_CMD_ATTR_MAX ipvs_cmd_policy = Some attrs"
      "attrs IPVS_CMD_ATTR_SERVICE = Some nest"
      "nla_parse_nested L nest IPVS_SVC_ATTR_MAX ipvs_service_policy = Some at"
      by (auto simp: service_attrs_def split: option.splits)
    have put2: "put_service ?k e (g\<lparr>gs_entrytable := ?xs[unat ?k := Some e']\<rparr>) s' =
        (g\<lparr>gs_entrytable := ?xs[unat ?k := Some e]\<rparr>, s')" for e e' and s' :: "'a lib"
      using put_service_room [of n "g\<lparr>gs_entrytable := ?xs[unat ?k := Some e']\<rparr>" ?k e s'] room
      by (simp add: table_room_update)
    note put = put_service_room [OF room refl] put2
    show ?thesis
    proof (cases "service_complete at")
      case False
      with cb msg Some keep show ?thesis
        by (auto simp: ipvs_services_parse_cb_def decode_service_def put table_room_update services_view_def)
    next
      case True
      obtain c1 st where ct: "service_counters L at (se_stats64 (service_entry L at)) = (c1, st)" by fastforce
      have ro: "read_payload L (service_addr_attr at) s' = s'" for s' :: "'a lib"
        using wf Some True by (simp add: services_wf_def read_payload_def)
      let ?e = "(service_entry L at)\<lparr>se_stats64 := st, se_num_dests := 0\<rparr>"
      obtain w where re: "realloc_table L 8 224 (unat (2 + ?k)) (?xs[unat ?k := Some ?e]) s =
          (Some (resize (unat (2 + ?k)) (?xs[unat ?k := Some ?e])), s\<lparr>world := w\<rparr>)"
        using realloc_table_total wf unfolding services_wf_def by blast
      note grow = table_room_grow [OF room, of ?e]
      show ?thesis
      proof (cases "c1 = 0")
        case False
        with cb msg Some True keep room show ?thesis
          by (auto simp: ipvs_services_parse_cb_def decode_service_def ct ro put table_room_update services_view_def Let_def)
      next
        case c1: True
        with cb msg Some True keep room grow re show ?thesis
          by (auto simp: ipvs_services_parse_cb_def decode_service_def ct ro put table_room_update services_view_def Let_def)
      qed
    qed
  qed
qed

definition services_listed :: "ip_vs_get_services option \<Rightarrow> ip_vs_service_entry list" where
  "services_listed getp = (case getp of None \<Rightarrow> [] | Some g \<Rightarrow> services_view g)"

lemma services_cb_outcome:
  assumes cb: "ipvs_services_parse_cb L m r s = (c, r', t)" and I: "services_room b (Suc n) r"
    and wf: "services_wf L m"
  shows "services_room b n r' \<and> ub t = ub s \<and>
    (case decode_service L m of None \<Rightarrow> c = -1 | Some e \<Rightarrow> c = 0 \<and> services_listed r' = services_listed r @ [e])"
proof -
  from I obtain g where g: "r = Some g" "table_room (Suc n) (gs_num_services g) (gs_entrytable g)"
    by (auto simp: services_room_def split: option.splits)
  from services_cb_step [OF g(2) wf cb [unfolded g(1)]] I g(1) show ?thesis
    by (auto simp: services_room_def services_listed_def split: option.splits)
qed

interpretation services: nl_collector "ipvs_services_parse_cb L" "services_room b" "services_wf L"
  "decode_service L" services_listed for L b
proof
  fix n m r s c r' t
  assume *: "ipvs_services_parse_cb L m r s = (c, r', t)" "services_room b (Suc n) r" "services_wf L m"
  from services_cb_outcome [OF *] show "services_room b n r' \<and> ub t = ub s" by simp
  from services_cb_outcome [OF *]
  show "case decode_service L m of None \<Rightarrow> c = -1
      | Some e \<Rightarrow> c = 0 \<and> services_listed r' = services_listed r @ [e]" by simp
qed (auto dest: services_cb_quiet)

section \<open>Destinations\<close>

definition dest_complete :: "(nat \<Rightarrow> 'a option) \<Rightarrow> bool" where
  "dest_complete at \<longleftrightarrow>
     at IPVS_DEST_ATTR_ADDR \<noteq> None \<and> at IPVS_DEST_ATTR_PORT \<noteq> None \<and>
     at IPVS_DEST_ATTR_FWD_METHOD \<noteq> None \<and> at IPVS_DEST_ATTR_WEIGHT \<noteq> None \<and>
     at IPVS_DEST_ATTR_U_THRESH \<noteq> None \<and> at IPVS_DEST_ATTR_L_THRESH \<noteq> None \<and>
     at IPVS_DEST_ATTR_ACTIVE_CONNS \<noteq> None \<and> at IPVS_DEST_ATTR_INACT_CONNS \<noteq> None \<and>
     at IPVS_DEST_ATTR_PERSIST_CONNS \<noteq> None"

definition dest_entry ::
  "('w, 'm, 'a) sys \<Rightarrow> (nat \<Rightarrow> 'a option) \<Rightarrow> u16 \<Rightarrow> ip_vs_dest_entry" where
  "dest_entry L at af =
     (let u32 = (\<lambda>k. nla_get_u32 L (the (at k)))
      in dest_entry_zero\<lparr>de_addr := nla_addr L (the (at IPVS_DEST_ATTR_ADDR)),
           de_port := nla_get_u16 L (the (at IPVS_DEST_ATTR_PORT)),
           de_conn_flags := u32 IPVS_DEST_ATTR_FWD_METHOD, de_weight := u32 IPVS_DEST_ATTR_WEIGHT,
           de_u_threshold := u32 IPVS_DEST_ATTR_U_THRESH, de_l_threshold := u32 IPVS_DEST_ATTR_L_THRESH,
           de_activeconns := u32 IPVS_DEST_ATTR_ACTIVE_CONNS,
           de_inactconns := u32 IPVS_DEST_ATTR_INACT_CONNS,
           de_persistconns := u32 IPVS_DEST_ATTR_PERSIST_CONNS,
           de_af := (case at IPVS_DEST_ATTR_ADDR_FAMILY of Some a \<Rightarrow> nla_get_u16 L a | None \<Rightarrow> af)\<rparr>)"

text \<open>Both forms of the counters are read by the 32-bit reader.\<close>

definition dest_counters ::
  "('w, 'm, 'a) sys \<Rightarrow> (nat \<Rightarrow> 'a option) \<Rightarrow> ip_vs_stats64 \<Rightarrow> int \<times> ip_vs_stats64" where
  "dest_counters L at stats =
     (case at IPVS_DEST_ATTR_STATS64 of
        Some a \<Rightarrow> ipvs_parse_stats L stats a
      | None \<Rightarrow> (case at IPVS_DEST_ATTR_STATS of
                   Some a \<Rightarrow> ipvs_parse_stats L stats a | None \<Rightarrow> (0, stats)))"

definition put_dest ::
  "i32 \<Rightarrow> ip_vs_dest_entry \<Rightarrow> ip_vs_get_dests \<Rightarrow> 'w lib \<Rightarrow> ip_vs_get_dests \<times> 'w lib" where
  "put_dest i e d s =
     (let (xs, s) = table_put i e (gd_entrytable d) s in (d\<lparr>gd_entrytable := xs\<rparr>, s))"

definition ipvs_dests_parse_cb ::
  "('w, 'm, 'a) sys \<Rightarrow> 'm \<Rightarrow> ip_vs_get_dests option \<Rightarrow> 'w lib
     \<Rightarrow> int \<times> ip_vs_get_dests option \<times> 'w lib" where
  "ipvs_dests_parse_cb L msg dp s =
     (case dp of None \<Rightarrow> (-1, None, undefined_behaviour s) | Some d \<Rightarrow>
      let i = gd_num_dests d
      in case genlmsg_parse L msg IPVS_CMD_ATTR_MAX ipvs_cmd_policy of
           None \<Rightarrow> (-1, Some d, s)
         | Some attrs \<Rightarrow>
      (case attrs IPVS_CMD_ATTR_DEST of None \<Rightarrow> (-1, Some d, s) | Some nest \<Rightarrow>
      (case nla_parse_nested L nest IPVS_DEST_ATTR_MAX ipvs_dest_policy of
           None \<Rightarrow> (-1, Some d, s)
         | Some at \<Rightarrow>
      let (d, s) = put_dest i dest_entry_zero d s
      in if \<not> dest_complete at then (-1, Some d, s)
      else let e = dest_entry L at (gd_af d);
               s = read_payload L (at IPVS_DEST_ATTR_ADDR) s;
               (c, st) = dest_counters L at (de_stats64 e);
               (d, s) = put_dest i (e\<lparr>de_stats64 := st\<rparr>) d s
      in if c \<noteq> 0 then (-1, Some d, s)
      else let d = d\<lparr>gd_num_dests := i + 1\<rparr>;
               (xs, s) = realloc_table L sizeof_get_dests sizeof_dest_entry
                           (unat (gd_num_dests d + 1)) (gd_entrytable d) s
      in (case xs of None \<Rightarrow> (0, None, s) | Some xs \<Rightarrow> (0, Some (d\<lparr>gd_entrytable := xs\<rparr>), s)))))"

definition dest_attrs :: "('w, 'm, 'a) sys \<Rightarrow> 'm \<Rightarrow> (nat \<Rightarrow> 'a option) option" where
  "dest_attrs L msg =
     (case genlmsg_parse L msg IPVS_CMD_ATTR_MAX ipvs_cmd_policy of None \<Rightarrow> None | Some attrs \<Rightarrow>
      (case attrs IPVS_CMD_ATTR_DEST of None \<Rightarrow> None | Some nest \<Rightarrow>
       nla_parse_nested L nest IPVS_DEST_ATTR_MAX ipvs_dest_policy))"

definition decode_dest :: "('w, 'm, 'a) sys \<Rightarrow> u16 \<Rightarrow> 'm \<Rightarrow> ip_vs_dest_entry option" where
  "decode_dest L af msg =
     (case dest_attrs L msg of None \<Rightarrow> None | Some at \<Rightarrow>
      if \<not> dest_complete at then None
      else let e = dest_entry L at af; (c, st) = dest_counters L at (de_stats64 e)
           in if c \<noteq> 0 then None else Some (e\<lparr>de_stats64 := st\<rparr>))"

definition dests_view :: "ip_vs_get_dests \<Rightarrow> ip_vs_dest_entry list" where
  "dests_view d = map the (take (unat (gd_num_dests d)) (gd_entrytable d))"

definition dests_wf :: "('w, 'm, 'a) sys \<Rightarrow> 'm \<Rightarrow> bool" where
  "dests_wf L m \<longleftrightarrow> realloc_total L \<and>
     (case dest_attrs L m of None \<Rightarrow> True | Some at \<Rightarrow>
        dest_complete at \<longrightarrow> \<not> overread L (at IPVS_DEST_ATTR_ADDR))"

definition dests_room :: "nat \<Rightarrow> u16 \<Rightarrow> nat \<Rightarrow> ip_vs_get_dests option \<Rightarrow> bool" where
  "dests_room b af n dp =
     (case dp of None \<Rightarrow> False
      | Some d \<Rightarrow> gd_block d = b \<and> gd_af d = af \<and> table_room n (gd_num_dests d) (gd_entrytable d))"

definition dests_listed :: "ip_vs_get_dests option \<Rightarrow> ip_vs_dest_entry list" where
  "dests_listed dp = (case dp of None \<Rightarrow> [] | Some d \<Rightarrow> dests_view d)"

lemma put_dest_quiet: "put_dest i e g s = (g', t) \<Longrightarrow> quiet s t"
  by (auto simp: put_dest_def dest: table_put_quiet split: prod.splits)

lemma dests_cb_quiet:
  assumes "ipvs_dests_parse_cb L m r s = (c, r', t)"
  shows "quiet s t \<and> (c = NL_OK \<or> c = -1)"
  using assms
  by (auto simp: ipvs_dests_parse_cb_def Let_def NL_OK_def
      split: option.splits prod.splits if_splits
      dest!: put_dest_quiet realloc_table_quiet)
    (meson quiet_trans read_payload_quiet)+

lemma put_dest_room:
  "table_room (Suc n) (gd_num_dests d) (gd_entrytable d) \<Longrightarrow> i = gd_num_dests d \<Longrightarrow>
   put_dest i e d s = (d\<lparr>gd_entrytable := (gd_entrytable d)[unat i := Some e]\<rparr>, s)"
  by (simp add: put_dest_def table_put_room)

lemma dests_cb_step:
  assumes room: "table_room (Suc n) (gd_num_dests d) (gd_entrytable d)" and wf: "dests_wf L m"
    and cb: "ipvs_dests_parse_cb L m (Some d) s = (c, r', t)"
  shows "\<exists>d'. r' = Some d' \<and> gd_block d' = gd_block d \<and> gd_af d' = gd_af d \<and> ub t = ub s \<and>
    table_room n (gd_num_dests d') (gd_entrytable d') \<and>
    (case decode_dest L (gd_af d) m of
       None \<Rightarrow> c = -1 \<and> dests_view d' = dests_view d
     | Some e \<Rightarrow> c = 0 \<and> dests_view d' = dests_view d @ [e])"
proof -
  let ?xs = "gd_entrytable d" and ?k = "gd_num_dests d"
  have keep: "table_room n ?k ?xs" using room by (simp add: table_room_def)
  show ?thesis
  proof (cases "dest_attrs L m")
    case None
    with cb keep show ?thesis
      by (auto simp: ipvs_dests_parse_cb_def dest_attrs_def decode_dest_def split: option.splits)
  next
    case (Some at)
    then obtain attrs nest where msg: "genlmsg_parse L m IPVS_CMD_ATTR_MAX ipvs_cmd_policy = Some attrs"
      "attrs IPVS_CMD_ATTR_DEST = Some nest"
      "nla_parse_nested L nest IPVS_DEST_ATTR_MAX ipvs_dest_policy = Some at"
      by (auto simp: dest_attrs_def split: option.splits)
    have put2: "put_dest ?k e (d\<lparr>gd_entrytable := ?xs[unat ?k := Some e']\<rparr>) s' =
        (d\<lparr>gd_entrytable := ?xs[unat ?k := Some e]\<rparr>, s')" for e e' and s' :: "'a lib"
      using put_dest_room [of n "d\<lparr>gd_entrytable := ?xs[unat ?k := Some e']\<rparr>" ?k e s'] room
      by (simp add: table_room_update)
    note put = put_dest_room [OF room refl] put2
    show ?thesis
    proof (cases "dest_complete at")
      case False
      with cb msg Some keep show ?thesis
        by (auto simp: ipvs_dests_parse_cb_def decode_dest_def put table_room_update dests_view_def Let_def)
    next
      case True
      obtain c1 st where ct: "dest_counters L at (de_stats64 (dest_entry L at (gd_af d))) = (c1, st)" by fastforce
      have ro: "read_payload L (at IPVS_DEST_ATTR_ADDR) s' = s'" for s' :: "'a lib"
        using wf Some True by (simp add: dests_wf_def read_payload_def)
      let ?e = "(dest_entry L at (gd_af d))\<lparr>de_stats64 := st\<rparr>"
      obtain w where re: "realloc_table L 40 200 (unat (2 + ?k)) (?xs[unat ?k := Some ?e]) s =
          (Some (resize (unat (2 + ?k)) (?xs[unat ?k := Some ?e])), s\<lparr>world := w\<rparr>)"
        using realloc_table_total wf unfolding dests_wf_def by blast
      note defs = ipvs_dests_parse_cb_def decode_dest_def dests_view_def
      show ?thesis
      proof (cases "c1 = 0")
        case False
        with cb msg Some True keep show ?thesis
          by (auto simp: defs ct ro [unfolded One_nat_def] put table_room_update Let_def)
      next
        case c1: True
        with cb msg Some True table_room_grow [OF room, of ?e] re show ?thesis
          by (auto simp: defs ct ro [unfolded One_nat_def] put Let_def)
      qed
    qed
  qed
qed

lemma dests_cb_outcome:
  assumes cb: "ipvs_dests_parse_cb L m r s = (c, r', t)" and I: "dests_room b af (Suc n) r"
    and wf: "dests_wf L m"
  shows "dests_room b af n r' \<and> ub t = ub s \<and>
    (case decode_dest L af m of None \<Rightarrow> c = -1 | Some e \<Rightarrow> c = 0 \<and> dests_listed r' = dests_listed r @ [e])"
proof -
  from I obtain d where d: "r = Some d" "table_room (Suc n) (gd_num_dests d) (gd_entrytable d)"
    by (auto simp: dests_room_def split: option.splits)
  from dests_cb_step [OF d(2) wf cb [unfolded d(1)]] I d(1) show ?thesis
    by (auto simp: dests_room_def dests_listed_def split: option.splits)
qed

interpretation dests: nl_collector "ipvs_dests_parse_cb L" "dests_room b af" "dests_wf L"
  "decode_dest L af" dests_listed for L b af
proof
  fix n m r s c r' t
  assume *: "ipvs_dests_parse_cb L m r s = (c, r', t)" "dests_room b af (Suc n) r" "dests_wf L m"
  from dests_cb_outcome [OF *] show "dests_room b af n r' \<and> ub t = ub s" by simp
  from dests_cb_outcome [OF *]
  show "case decode_dest L af m of None \<Rightarrow> c = -1
      | Some e \<Rightarrow> c = 0 \<and> dests_listed r' = dests_listed r @ [e]" by simp
qed (auto dest: dests_cb_quiet)

end
