(* ===== verification/LibQueries.thy ===== *)
theory LibQueries
  imports LibParse
begin

text \<open>
  The queries of \<^verbatim>\<open>depend/libipvs/libipvs.c\<close>: the services, the destinations of a service,
  one service, the timeouts and the synchronisation daemons, each in its netlink and its
  socket-option form. A query returns a heap block the caller has to free (the number of the
  block comes with the data) or the null pointer.
\<close>

section \<open>Timeouts and daemons as the kernel answers them\<close>

definition ipvs_timeout_parse_cb ::
  "('w, 'm, 'a) sys \<Rightarrow> 'm \<Rightarrow> ip_vs_timeout_user \<Rightarrow> 'w lib \<Rightarrow> int \<times> ip_vs_timeout_user \<times> 'w lib" where
  "ipvs_timeout_parse_cb L msg u s =
     (case genlmsg_parse L msg IPVS_CMD_ATTR_MAX ipvs_cmd_policy of
        None \<Rightarrow> (-1, u, s)
      | Some attrs \<Rightarrow>
          (let u = (case attrs IPVS_CMD_ATTR_TIMEOUT_TCP of
                      Some a \<Rightarrow> u\<lparr>tcp_timeout := nla_get_u32 L a\<rparr> | None \<Rightarrow> u);
               u = (case attrs IPVS_CMD_ATTR_TIMEOUT_TCP_FIN of
                      Some a \<Rightarrow> u\<lparr>tcp_fin_timeout := nla_get_u32 L a\<rparr> | None \<Rightarrow> u);
               u = (case attrs IPVS_CMD_ATTR_TIMEOUT_UDP of
                      Some a \<Rightarrow> u\<lparr>udp_timeout := nla_get_u32 L a\<rparr> | None \<Rightarrow> u)
           in (NL_OK, u, s)))"

text \<open>One daemon from its attributes; an optional attribute that is missing changes nothing.\<close>

definition daemon_from ::
  "('w, 'm, 'a) sys \<Rightarrow> (nat \<Rightarrow> 'a option) \<Rightarrow> ip_vs_daemon_user \<Rightarrow> ip_vs_daemon_user" where
  "daemon_from L at d =
     (let d = d\<lparr>dm_state := nla_get_u32 L (the (at IPVS_DAEMON_ATTR_STATE)),
                dm_mcast_ifn := strncpy (nla_get_string L (the (at IPVS_DAEMON_ATTR_MCAST_IFN))) IP_VS_IFNAME_MAXLEN,
                dm_syncid := nla_get_u32 L (the (at IPVS_DAEMON_ATTR_SYNC_ID))\<rparr>;
          d = (case at IPVS_DAEMON_ATTR_SYNC_MAXLEN of
                 Some a \<Rightarrow> d\<lparr>dm_sync_maxlen := ucast (nla_get_u16 L a)\<rparr> | None \<Rightarrow> d);
          d = (case at IPVS_DAEMON_ATTR_MCAST_PORT of
                 Some a \<Rightarrow> d\<lparr>dm_mcast_port := nla_get_u16 L a\<rparr> | None \<Rightarrow> d);
          d = (case at IPVS_DAEMON_ATTR_MCAST_TTL of
                 Some a \<Rightarrow> d\<lparr>dm_mcast_ttl := ucast (nla_get_u8 L a)\<rparr> | None \<Rightarrow> d)
      in case at IPVS_DAEMON_ATTR_MCAST_GROUP of
           Some a \<Rightarrow> d\<lparr>dm_mcast_af := AF_INET,
                       dm_mcast_group := set_addr_ip (nla_get_u32 L a) (dm_mcast_group d)\<rparr>
         | None \<Rightarrow> (case at IPVS_DAEMON_ATTR_MCAST_GROUP6 of
                      Some a \<Rightarrow> d\<lparr>dm_mcast_af := AF_INET6, dm_mcast_group := nla_addr L a\<rparr>
                    | None \<Rightarrow> d))"

definition daemon_complete :: "(nat \<Rightarrow> 'a option) \<Rightarrow> bool" where
  "daemon_complete at \<longleftrightarrow> at IPVS_DAEMON_ATTR_STATE \<noteq> None \<and> at IPVS_DAEMON_ATTR_MCAST_IFN \<noteq> None
     \<and> at IPVS_DAEMON_ATTR_SYNC_ID \<noteq> None"

definition daemon_addr_attr :: "(nat \<Rightarrow> 'a option) \<Rightarrow> 'a option" where
  "daemon_addr_attr at =
     (if at IPVS_DAEMON_ATTR_MCAST_GROUP = None then at IPVS_DAEMON_ATTR_MCAST_GROUP6 else None)"

text \<open>
  The table of two daemons is a pair; an answer goes to the second slot once the first one
  has a state. The nest is parsed without a test that it is there: a message without it is
  undefined behaviour.
\<close>

type_synonym daemons = "ip_vs_daemon_user \<times> ip_vs_daemon_user"

definition ipvs_daemon_parse_cb ::
  "('w, 'm, 'a) sys \<Rightarrow> 'm \<Rightarrow> daemons \<Rightarrow> 'w lib \<Rightarrow> int \<times> daemons \<times> 'w lib" where
  "ipvs_daemon_parse_cb L msg u s =
     (let second = (dm_state (fst u) \<noteq> 0)
      in case genlmsg_parse L msg IPVS_CMD_ATTR_MAX ipvs_cmd_policy of
           None \<Rightarrow> (-1, u, s)
         | Some attrs \<Rightarrow>
      (case attrs IPVS_CMD_ATTR_DAEMON of None \<Rightarrow> (-1, u, undefined_behaviour s) | Some nest \<Rightarrow>
      (case nla_parse_nested L nest IPVS_DAEMON_ATTR_MAX ipvs_daemon_policy of
           None \<Rightarrow> (-1, u, s)
         | Some at \<Rightarrow>
      if \<not> daemon_complete at then (-1, u, s)
      else let s = read_payload L (daemon_addr_attr at) s
           in (NL_OK, (if second then (fst u, daemon_from L at (snd u))
                       else (daemon_from L at (fst u), snd u)), s))))"

definition daemons_wf :: "('w, 'm, 'a) sys \<Rightarrow> 'm \<Rightarrow> bool" where
  "daemons_wf L m \<longleftrightarrow>
     (case genlmsg_parse L m IPVS_CMD_ATTR_MAX ipvs_cmd_policy of None \<Rightarrow> True | Some attrs \<Rightarrow>
      (case attrs IPVS_CMD_ATTR_DAEMON of None \<Rightarrow> False | Some nest \<Rightarrow>
      (case nla_parse_nested L nest IPVS_DAEMON_ATTR_MAX ipvs_daemon_policy of None \<Rightarrow> True | Some at \<Rightarrow>
       daemon_complete at \<longrightarrow> \<not> overread L (daemon_addr_attr at))))"

interpretation timeout: nl_callback "ipvs_timeout_parse_cb L" "\<lambda>_ _. True" "\<lambda>_. True" for L
  by unfold_locales (auto simp: ipvs_timeout_parse_cb_def Let_def NL_OK_def split: option.splits)

interpretation daemon: nl_callback "ipvs_daemon_parse_cb L" "\<lambda>_ _. True" "daemons_wf L" for L
  by unfold_locales
    (auto simp: ipvs_daemon_parse_cb_def daemons_wf_def Let_def NL_OK_def read_payload_def
      split: option.splits if_splits)

section \<open>Copies between the kernel's entries and the user's\<close>

definition service_entry_prefix :: "ip_vs_service_entry \<Rightarrow> ip_vs_service_entry_kern" where
  "service_entry_prefix e = \<lparr>sek_protocol = se_protocol e, sek_addr = se_addr_v4 e, sek_port = se_port e,
     sek_fwmark = se_fwmark e, sek_sched_name = se_sched_name e, sek_flags = se_flags e,
     sek_timeout = se_timeout e, sek_netmask = se_netmask e, sek_num_dests = se_num_dests e,
     sek_stats = se_stats e\<rparr>"

definition with_service_prefix :: "ip_vs_service_entry_kern \<Rightarrow> ip_vs_service_entry \<Rightarrow> ip_vs_service_entry" where
  "with_service_prefix k e = e\<lparr>se_protocol := sek_protocol k, se_addr_v4 := sek_addr k,
     se_port := sek_port k, se_fwmark := sek_fwmark k, se_sched_name := sek_sched_name k,
     se_flags := sek_flags k, se_timeout := sek_timeout k, se_netmask := sek_netmask k,
     se_num_dests := sek_num_dests k, se_stats := sek_stats k\<rparr>"

definition service_from_kern :: "ip_vs_service_entry \<Rightarrow> ip_vs_service_entry_kern \<Rightarrow> ip_vs_service_entry" where
  "service_from_kern e k =
     (let e = with_service_prefix k e
      in e\<lparr>se_af := AF_INET, se_addr := set_addr_ip (se_addr_v4 e) (se_addr e),
           se_stats64 := copy_stats_from_kern (se_stats e)\<rparr>)"

definition dest_from_kern :: "ip_vs_dest_entry \<Rightarrow> ip_vs_dest_entry_kern \<Rightarrow> ip_vs_dest_entry" where
  "dest_from_kern e k =
     (let e = e\<lparr>de_addr_v4 := dek_addr k, de_port := dek_port k, de_conn_flags := dek_conn_flags k,
                de_weight := dek_weight k, de_u_threshold := dek_u_threshold k,
                de_l_threshold := dek_l_threshold k, de_activeconns := dek_activeconns k,
                de_inactconns := dek_inactconns k, de_persistconns := dek_persistconns k,
                de_stats := dek_stats k\<rparr>
      in e\<lparr>de_af := AF_INET, de_addr := set_addr_ip (de_addr_v4 e) (de_addr e),
           de_stats64 := copy_stats_from_kern (de_stats e)\<rparr>)"

text \<open>
  The loop that copies the kernel's \<open>n\<close> entries from index \<open>i\<close> on: reading an entry the
  kernel did not write, or writing one that does not fit, is undefined behaviour.
\<close>

fun copy_entries ::
  "(nat \<Rightarrow> 'e) \<Rightarrow> ('e \<Rightarrow> 'k \<Rightarrow> 'e) \<Rightarrow> 'k list \<Rightarrow> nat \<Rightarrow> nat \<Rightarrow> 'e option list \<Rightarrow> 'w lib
     \<Rightarrow> 'e option list \<times> 'w lib" where
  "copy_entries heap conv ks i 0 xs s = (xs, s)"
| "copy_entries heap conv ks i (Suc n) xs s =
     (let (e, s) = (if i < length ks then (conv (heap i) (ks ! i), s) else (heap i, undefined_behaviour s));
          (xs, s) = table_put (of_nat i) e xs s
      in copy_entries heap conv ks (Suc i) n xs s)"

text \<open>
  A \<^verbatim>\<open>socklen_t\<close> is 32 bits wide: the size of a block of \<open>n\<close> entries is computed modulo
  \<open>2 ^ 32\<close>, and the block has room for the entries that size gives. A header that does not
  fit is undefined behaviour.
\<close>

definition block_len :: "nat \<Rightarrow> nat \<Rightarrow> u32 \<Rightarrow> nat" where
  "block_len hdr sz n = unat (of_nat (hdr + sz * unat n) :: u32)"

definition block_room :: "nat \<Rightarrow> nat \<Rightarrow> u32 \<Rightarrow> nat" where
  "block_room hdr sz n = (block_len hdr sz n - hdr) div sz"

definition write_header :: "nat \<Rightarrow> nat \<Rightarrow> 'w lib \<Rightarrow> 'w lib" where
  "write_header hdr len s = (if len < hdr then undefined_behaviour s else s)"

section \<open>The services\<close>

definition free_opt :: "nat option \<Rightarrow> 'w lib \<Rightarrow> 'w lib" where
  "free_opt b s = (case b of None \<Rightarrow> s | Some b \<Rightarrow> free_block b s)"

definition get_services_nl ::
  "('w, 'm, 'a) sys \<Rightarrow> 'w lib \<Rightarrow> ip_vs_get_services option \<times> 'w lib" where
  "get_services_nl L s =
     (case malloc_block L (sizeof_get_services + sizeof_service_entry) s of
        (None, s) \<Rightarrow> (None, s)
      | (Some b, s) \<Rightarrow>
          (let get = Some \<lparr>gs_block = b, gs_num_services = 0, gs_entrytable = [None]\<rparr>
           in case ipvs_nl_message L IPVS_CMD_GET_SERVICE True s of
                (None, s) \<Rightarrow> (None, free_block b s)
              | (Some msg, s) \<Rightarrow>
                  (let (r, get, s) = ipvs_nl_send_message L (Some msg) (ipvs_services_parse_cb L) get s
                   in if r = 0 then (get, s) else (None, free_opt (map_option gs_block get) s))))"

definition get_services_so ::
  "('w, 'm, 'a) sys \<Rightarrow> 'w lib \<Rightarrow> ip_vs_get_services option \<times> 'w lib" where
  "get_services_so L s =
     (let num = info_num_services (ipvs_info s);
          len = block_len sizeof_get_services sizeof_service_entry num;
          klen = block_len sizeof_get_services sizeof_service_entry_kern num
      in case malloc_block L len s of
           (None, s) \<Rightarrow> (None, s)
         | (Some b, s) \<Rightarrow>
      (case malloc_block L klen s of
           (None, s) \<Rightarrow> (None, free_block b s)
         | (Some bk, s) \<Rightarrow>
      (let s = write_header sizeof_get_services klen (s\<lparr>ipvs_func := Some F_get_services\<rparr>);
           (r, w) = getsockopt_services L (sockfd s) num (world s); s = s\<lparr>world := w\<rparr>
       in case r of
            Inl e \<Rightarrow> (None, free_block bk (free_block b (set_errno e s)))
          | Inr getk \<Rightarrow>
              (let s = write_header sizeof_get_services len s;
                   (xs, s) = copy_entries (heap_service L) service_from_kern (gsk_entrytable getk) 0
                               (unat (gsk_num_services getk))
                               (replicate (block_room sizeof_get_services sizeof_service_entry num) None) s
               in (Some \<lparr>gs_block = b, gs_num_services = gsk_num_services getk, gs_entrytable = xs\<rparr>,
                   free_block bk s)))))"

definition ipvs_get_services ::
  "('w, 'm, 'a) sys \<Rightarrow> 'w lib \<Rightarrow> ip_vs_get_services option \<times> 'w lib" where
  "ipvs_get_services L s = (if nl_mode L s then get_services_nl L s else get_services_so L s)"

section \<open>The destinations of a service\<close>

definition dest_query_items :: "ip_vs_service_entry \<Rightarrow> nl_item list" where
  "dest_query_items svc =
     [NestStart IPVS_CMD_ATTR_SERVICE,
      PutU16 IPVS_SVC_ATTR_AF (se_af svc)] @
     (if se_fwmark svc \<noteq> 0 then [PutU32 IPVS_SVC_ATTR_FWMARK (se_fwmark svc)]
      else [PutU16 IPVS_SVC_ATTR_PROTOCOL (se_protocol svc),
            PutAddr IPVS_SVC_ATTR_ADDR (se_addr svc),
            PutU16 IPVS_SVC_ATTR_PORT (se_port svc)]) @
     [NestEnd]"

text \<open>
  The table is allocated for the number of destinations the caller's entry states, and the
  header of the answer starts with that number too: the callback writes after it.
\<close>

definition dests_header :: "ip_vs_service_entry \<Rightarrow> ip_vs_get_dests \<Rightarrow> ip_vs_get_dests" where
  "dests_header svc d = d\<lparr>gd_fwmark := se_fwmark svc, gd_protocol := se_protocol svc,
     gd_addr := se_addr svc, gd_port := se_port svc, gd_num_dests := se_num_dests svc, gd_af := se_af svc\<rparr>"

definition get_dests_nl ::
  "('w, 'm, 'a) sys \<Rightarrow> ip_vs_service_entry \<Rightarrow> ip_vs_get_dests \<Rightarrow> 'w lib \<Rightarrow> ip_vs_get_dests option \<times> 'w lib" where
  "get_dests_nl L svc d s =
     (let (xs, s) = (if se_num_dests svc = 0
                     then realloc_table L sizeof_get_dests sizeof_dest_entry 1 (gd_entrytable d) s
                     else (Some (gd_entrytable d), s))
      in case xs of None \<Rightarrow> (None, undefined_behaviour s)
         | Some xs \<Rightarrow>
      (let d = dests_header svc (d\<lparr>gd_entrytable := xs\<rparr>)
       in case ipvs_nl_message L IPVS_CMD_GET_DEST True s of
            (None, s) \<Rightarrow> (None, free_block (gd_block d) s)
          | (Some msg, s) \<Rightarrow>
       (let (ok, msg, s) = nla_put_all L (dest_query_items svc) msg s
        in if \<not> ok then (None, free_block (gd_block d) (nlmsg_free (Some msg) s))
        else let (r, d, s) = ipvs_nl_send_message L (Some msg) (ipvs_dests_parse_cb L) (Some d) s
             in if r \<noteq> 0 then (None, free_opt (map_option gd_block d) s) else (d, s))))"

definition get_dests_so ::
  "('w, 'm, 'a) sys \<Rightarrow> ip_vs_service_entry \<Rightarrow> ip_vs_get_dests \<Rightarrow> 'w lib \<Rightarrow> ip_vs_get_dests option \<times> 'w lib" where
  "get_dests_so L svc d s =
     (if se_af svc \<noteq> AF_INET then (None, free_block (gd_block d) (set_errno EAFNOSUPPORT s))
      else let klen = block_len sizeof_get_dests_kern sizeof_dest_entry_kern (se_num_dests svc)
      in case malloc_block L klen s of
           (None, s) \<Rightarrow> (None, free_block (gd_block d) s)
         | (Some bk, s) \<Rightarrow>
      (let s = write_header sizeof_get_dests_kern klen s;
           dk = \<lparr>gdk_protocol = se_protocol svc, gdk_addr = addr_ip (se_addr svc), gdk_port = se_port svc,
                 gdk_fwmark = se_fwmark svc, gdk_num_dests = se_num_dests svc, gdk_entrytable = []\<rparr>;
           (r, w) = getsockopt_dests L (sockfd s) dk (world s); s = s\<lparr>world := w\<rparr>
       in case r of
            Inl e \<Rightarrow> (None, free_block bk (free_block (gd_block d) (set_errno e s)))
          | Inr dk \<Rightarrow>
              (let d = d\<lparr>gd_protocol := gdk_protocol dk, gd_addr_v4 := gdk_addr dk, gd_port := gdk_port dk,
                         gd_fwmark := gdk_fwmark dk, gd_num_dests := gdk_num_dests dk, gd_af := AF_INET\<rparr>;
                   d = d\<lparr>gd_addr := set_addr_ip (gd_addr_v4 d) (gd_addr d)\<rparr>;
                   (xs, s) = copy_entries (heap_dest L) dest_from_kern (gdk_entrytable dk) 0
                               (unat (gdk_num_dests dk)) (gd_entrytable d) s
               in (Some (d\<lparr>gd_entrytable := xs\<rparr>), free_block bk s))))"

definition ipvs_get_dests ::
  "('w, 'm, 'a) sys \<Rightarrow> ip_vs_service_entry \<Rightarrow> 'w lib \<Rightarrow> ip_vs_get_dests option \<times> 'w lib" where
  "ipvs_get_dests L svc s =
     (let len = block_len sizeof_get_dests sizeof_dest_entry (se_num_dests svc)
      in case malloc_block L len s of
           (None, s) \<Rightarrow> (None, s)
         | (Some b, s) \<Rightarrow>
      (let s = write_header sizeof_get_dests len (s\<lparr>ipvs_func := Some F_get_dests\<rparr>);
           d = (heap_dests L)\<lparr>gd_block := b,
                 gd_entrytable := replicate (block_room sizeof_get_dests sizeof_dest_entry (se_num_dests svc)) None\<rparr>
       in if nl_mode L s then get_dests_nl L svc d s else get_dests_so L svc d s))"

section \<open>One service\<close>

definition slot :: "'e \<Rightarrow> 'e option list \<Rightarrow> 'e" where
  "slot heap xs = (case xs of Some e # _ \<Rightarrow> e | _ \<Rightarrow> heap)"

definition get_service_nl ::
  "('w, 'm, 'a) sys \<Rightarrow> u32 \<Rightarrow> u16 \<Rightarrow> u16 \<Rightarrow> nf_inet_addr \<Rightarrow> u16 \<Rightarrow> 'w lib
     \<Rightarrow> (nat \<times> ip_vs_service_entry) option \<times> 'w lib" where
  "get_service_nl L fwmark af protocol addr port s =
     (case malloc_block L sizeof_service_entry s of
        (None, s) \<Rightarrow> (None, s)
      | (Some b, s) \<Rightarrow>
      (let tsvc = service_zero\<lparr>svc_fwmark := fwmark, svc_af := af, svc_protocol := protocol,
                               svc_addr := addr, svc_port := port\<rparr>
       in case malloc_block L (sizeof_get_services + sizeof_service_entry) s of
            (None, s) \<Rightarrow> (None, free_block b s)
          | (Some g, s) \<Rightarrow>
      (case ipvs_nl_message L IPVS_CMD_GET_SERVICE False s of
         (None, s) \<Rightarrow> (None, free_block b (free_block g s))
       | (Some msg, s) \<Rightarrow>
      (let (c, msg, s) = ipvs_nl_fill_service_attr L msg tsvc s
       in if c \<noteq> 0 then (None, free_block b (free_block g (nlmsg_free (Some msg) s)))
       else let get = Some \<lparr>gs_block = g, gs_num_services = 0, gs_entrytable = [None]\<rparr>;
                (r, get, s) = ipvs_nl_send_message L (Some msg) (ipvs_services_parse_cb L) get s
       in if r \<noteq> 0 then (None, free_block b (free_opt (map_option gs_block get) s))
       else (case get of
               None \<Rightarrow> (Some (b, heap_service L 0), undefined_behaviour s)
             | Some get \<Rightarrow> (Some (b, slot (heap_service L 0) (gs_entrytable get)),
                            free_block (gs_block get) s))))))"

definition check_compat_entry :: "ip_vs_service_entry \<Rightarrow> 'w lib \<Rightarrow> bool \<times> ip_vs_service_entry \<times> 'w lib" where
  "check_compat_entry svc s =
     (if se_af svc \<noteq> 0 \<and> se_af svc \<noteq> AF_INET then (False, svc, set_errno EAFNOSUPPORT s)
      else let svc = svc\<lparr>se_addr_v4 := addr_ip (se_addr svc)\<rparr>
           in if se_pe_name svc \<noteq> [] then (False, svc, set_errno EAFNOSUPPORT s) else (True, svc, s))"

definition get_service_so ::
  "('w, 'm, 'a) sys \<Rightarrow> u32 \<Rightarrow> u16 \<Rightarrow> u16 \<Rightarrow> nf_inet_addr \<Rightarrow> u16 \<Rightarrow> 'w lib
     \<Rightarrow> (nat \<times> ip_vs_service_entry) option \<times> 'w lib" where
  "get_service_so L fwmark af protocol addr port s =
     (case malloc_block L sizeof_service_entry s of
        (None, s) \<Rightarrow> (None, s)
      | (Some b, s) \<Rightarrow>
      (let svc = service_entry_zero\<lparr>se_fwmark := fwmark, se_af := af, se_protocol := protocol,
                                    se_addr := addr, se_port := port\<rparr>;
           (ok, svc, s) = check_compat_entry svc s
       in if \<not> ok then (None, free_block b s)
       else let (r, w) = getsockopt_service L (sockfd s) (service_entry_prefix svc) (world s); s = s\<lparr>world := w\<rparr>
       in case r of
            Inl e \<Rightarrow> (None, free_block b (set_errno e s))
          | Inr k \<Rightarrow> (Some (b, (service_from_kern svc k)\<lparr>se_pe_name := []\<rparr>), s)))"

definition ipvs_get_service ::
  "('w, 'm, 'a) sys \<Rightarrow> u32 \<Rightarrow> u16 \<Rightarrow> u16 \<Rightarrow> nf_inet_addr \<Rightarrow> u16 \<Rightarrow> 'w lib
     \<Rightarrow> (nat \<times> ip_vs_service_entry) option \<times> 'w lib" where
  "ipvs_get_service L fwmark af protocol addr port s =
     (let s = s\<lparr>ipvs_func := Some F_get_service\<rparr>
      in if nl_mode L s then get_service_nl L fwmark af protocol addr port s
         else get_service_so L fwmark af protocol addr port s)"

section \<open>Timeouts and daemons\<close>

abbreviation (input) sizeof_timeout :: nat where "sizeof_timeout \<equiv> 12"

abbreviation (input) sizeof_daemon :: nat where "sizeof_daemon \<equiv> 52"

definition ipvs_get_timeout ::
  "('w, 'm, 'a) sys \<Rightarrow> 'w lib \<Rightarrow> (nat \<times> ip_vs_timeout_user) option \<times> 'w lib" where
  "ipvs_get_timeout L s =
     (case malloc_block L sizeof_timeout s of
        (None, s) \<Rightarrow> (None, s)
      | (Some b, s) \<Rightarrow>
      (let s = s\<lparr>ipvs_func := Some F_get_timeout\<rparr>
       in if nl_mode L s
          then (case ipvs_nl_message L IPVS_CMD_GET_TIMEOUT False s of
                  (None, s) \<Rightarrow> (None, free_block b s)
                | (Some msg, s) \<Rightarrow>
                    (let (r, u, s) = ipvs_nl_send_message L (Some msg) (ipvs_timeout_parse_cb L)
                           \<lparr>tcp_timeout = 0, tcp_fin_timeout = 0, udp_timeout = 0\<rparr> s
                     in if r = 0 then (Some (b, u), s) else (None, free_block b s)))
          else (let (r, w) = getsockopt_timeout L (sockfd s) (world s); s = s\<lparr>world := w\<rparr>
                in case r of
                     Inl e \<Rightarrow> (None, free_block b (set_errno e s))
                   | Inr u \<Rightarrow> (Some (b, u), s))))"

definition daemon_from_kern :: "ip_vs_daemon_kern \<Rightarrow> ip_vs_daemon_user" where
  "daemon_from_kern k = daemon_zero\<lparr>dm_state := dmk_state k,
     dm_mcast_ifn := strncpy (dmk_mcast_ifn k) IP_VS_IFNAME_MAXLEN, dm_syncid := dmk_syncid k\<rparr>"

text \<open>
  The socket form hands the kernel a buffer of two \<^verbatim>\<open>ip_vs_daemon_kern\<close> (48 bytes) but announces
  the length of two \<^verbatim>\<open>ipvs_daemon_t\<close> (104 bytes). The parameter \<open>getsockopt_daemon\<close> returns the two
  entries the buffer has room for, as the kernel does; one that used the whole announced length
  would write beyond the buffer.
\<close>

definition ipvs_get_daemon ::
  "('w, 'm, 'a) sys \<Rightarrow> 'w lib \<Rightarrow> (nat \<times> daemons) option \<times> 'w lib" where
  "ipvs_get_daemon L s =
     (case malloc_block L (2 * sizeof_daemon) s of
        (None, s) \<Rightarrow> (None, s)
      | (Some b, s) \<Rightarrow>
      (let s = s\<lparr>ipvs_func := Some F_get_daemon\<rparr>
       in if nl_mode L s
          then (case ipvs_nl_message L IPVS_CMD_GET_DAEMON True s of
                  (None, s) \<Rightarrow> (None, free_block b s)
                | (Some msg, s) \<Rightarrow>
                    (let (r, u, s) = ipvs_nl_send_message L (Some msg) (ipvs_daemon_parse_cb L)
                           (daemon_zero, daemon_zero) s
                     in if r = 0 then (Some (b, u), s) else (None, free_block b s)))
          else (let (r, w) = getsockopt_daemon L (sockfd s) (world s); s = s\<lparr>world := w\<rparr>
                in case r of
                     Inl e \<Rightarrow> (None, free_block b (set_errno e s))
                   | Inr (k0, k1) \<Rightarrow> (Some (b, (daemon_from_kern k0, daemon_from_kern k1)), s))))"

end
