(* ===== verification/LibQueryContract.thy ===== *)
theory LibQueryContract
  imports LibQueries
begin

text \<open>
  The contract of the queries: the caller gets the null pointer with everything freed, or
  exactly one new block; nothing is freed twice and no memory outside a block is touched. The
  services and destinations are the decoded answers of the kernel, in their order.
\<close>

section \<open>Blocks\<close>

text \<open>A step that keeps the allocations, the modes and the trace up to growth.\<close>

definition fetched :: "'w lib \<Rightarrow> nat option \<Rightarrow> 'w lib \<Rightarrow> bool" where
  "fetched s b t \<longleftrightarrow>
     live t = (case b of None \<Rightarrow> live s | Some b \<Rightarrow> Blk b # live s) \<and> next_id s \<le> next_id t \<and>
     sockfd t = sockfd s \<and> try_nl t = try_nl s \<and> prefix (sent s) (sent t) \<and> ub t = ub s"

lemma fetched_None: "fetched s None t \<longleftrightarrow> safe s t"
  by (auto simp: fetched_def safe_def balanced_def)

lemma fetched_free: "fetched s (Some b) t \<Longrightarrow> safe s (free_block b t)"
  by (auto simp: fetched_def safe_def balanced_def free_block_def release_def)

lemma safe_fetched: "safe s t \<Longrightarrow> fetched t b u \<Longrightarrow> fetched s b u"
  by (auto simp: fetched_def safe_def balanced_def split: option.splits)

lemma fetched_safe: "fetched s b t \<Longrightarrow> safe t u \<Longrightarrow> fetched s b u"
  by (auto simp: fetched_def safe_def balanced_def split: option.splits)

lemma fetched_nested:
  "fetched s (Some b) t \<Longrightarrow> fetched t (Some k) u \<Longrightarrow> fetched s (Some b) (free_block k u)"
  by (auto simp: fetched_def free_block_def release_def)

lemma malloc_block_fetched: "malloc_block L n s = (b, t) \<Longrightarrow> fetched s b t"
  by (auto simp: malloc_block_def acquire_def set_errno_def fetched_def Let_def split: prod.splits if_splits)

lemma fetched_updates [simp]:
  "fetched s b (t\<lparr>ipvs_func := f\<rparr>) = fetched s b t" "fetched s b (t\<lparr>world := w\<rparr>) = fetched s b t"
  "fetched s b (t\<lparr>errno := e\<rparr>) = fetched s b t" "fetched s b (set_errno e t) = fetched s b t"
  "fetched (s\<lparr>ipvs_func := f\<rparr>) b t = fetched s b t"
  by (cases b; simp add: fetched_def set_errno_def)+

section \<open>What the outside has to do\<close>

text \<open>
  The kernel answers a netlink query with well-formed messages, fewer than an \<^verbatim>\<open>int\<close> counts;
  the older interface returns as many entries as it says, and no more than it was asked for.
\<close>

definition answers_ok :: "('w, 'm, 'a) sys \<Rightarrow> ('m \<Rightarrow> bool) \<Rightarrow> bool" where
  "answers_ok L P \<longleftrightarrow>
     (\<forall>w. length (fst (nl_recvmsgs L w)) < 2 ^ 31 - 1 \<and> list_all P (fst (nl_recvmsgs L w)))"

definition so_services_ok :: "('w, 'm, 'a) sys \<Rightarrow> u32 \<Rightarrow> bool" where
  "so_services_ok L num \<longleftrightarrow> unat num < 2 ^ 24 \<and>
     (\<forall>fd w. case fst (getsockopt_services L fd num w) of Inl e \<Rightarrow> True | Inr k \<Rightarrow>
        unat (gsk_num_services k) \<le> unat num \<and> unat (gsk_num_services k) \<le> length (gsk_entrytable k))"

definition so_dests_ok :: "('w, 'm, 'a) sys \<Rightarrow> u32 \<Rightarrow> bool" where
  "so_dests_ok L num \<longleftrightarrow> unat num < 2 ^ 24 \<and>
     (\<forall>fd dk w. gdk_num_dests dk = num \<longrightarrow>
        (case fst (getsockopt_dests L fd dk w) of Inl e \<Rightarrow> True | Inr k \<Rightarrow>
           unat (gdk_num_dests k) \<le> unat num \<and> unat (gdk_num_dests k) \<le> length (gdk_entrytable k)))"

definition services_ok :: "('w, 'm, 'a) sys \<Rightarrow> 'w lib \<Rightarrow> bool" where
  "services_ok L s \<longleftrightarrow>
     (if nl_mode L s then answers_ok L (services_wf L) else so_services_ok L (info_num_services (ipvs_info s)))"

definition dests_ok :: "('w, 'm, 'a) sys \<Rightarrow> ip_vs_service_entry \<Rightarrow> 'w lib \<Rightarrow> bool" where
  "dests_ok L svc s \<longleftrightarrow>
     (if nl_mode L s then se_num_dests svc = 0 \<and> realloc_total L \<and> answers_ok L (dests_wf L)
      else so_dests_ok L (se_num_dests svc))"

section \<open>Exchanges\<close>

text \<open>Building a message, filling it and sending it, inside a query that holds blocks.\<close>

definition nl_exchange ::
  "('w, 'm, 'a) sys \<Rightarrow> ipvs_cmd \<Rightarrow> bool \<Rightarrow> nl_item list \<Rightarrow> ('m \<Rightarrow> 'r \<Rightarrow> 'w lib \<Rightarrow> int \<times> 'r \<times> 'w lib)
     \<Rightarrow> 'r \<Rightarrow> 'w lib \<Rightarrow> int \<times> 'r \<times> 'w lib" where
  "nl_exchange L cmd dump xs cb r s =
     (case ipvs_nl_message L cmd dump s of
        (None, s) \<Rightarrow> (-1, r, s)
      | (Some msg, s) \<Rightarrow>
          (let (ok, msg, s) = nla_put_all L xs msg s
           in if \<not> ok then (-1, r, nlmsg_free (Some msg) s)
              else ipvs_nl_send_message L (Some msg) cb r s))"

context nl_callback
begin

lemma exchange_safe_if:
  assumes ex: "nl_exchange L cmd dump xs cb r s = (c, r', t)"
    and I: "\<And>w. I (length (fst (nl_recvmsgs L w))) r \<and> list_all wf (fst (nl_recvmsgs L w))"
    and str: "list_all (\<lambda>x. \<not> unterminated x) xs"
  shows "safe s t \<and> (\<exists>n. I n r') \<and> (c = 0 \<or> c = -1)"
proof -
  have start: "\<exists>n. I n r" using I by blast
  obtain m s1 where msg: "ipvs_nl_message L cmd dump s = (m, s1)" by fastforce
  show ?thesis
  proof (cases m)
    case None
    with ipvs_nl_message_None msg have q: "quiet s s1" by blast
    have "ub s1 = ub s" using msg None
      by (auto simp: ipvs_nl_message_def acquire_def Let_def split: prod.splits if_splits)
    with q msg None ex start show ?thesis
      by (auto simp: nl_exchange_def safe_def quiet_balanced)
  next
    case (Some m0)
    from ipvs_nl_message_Some [OF msg [unfolded Some]]
    have q: "quiet (s\<lparr>next_id := Suc (next_id s), live := Msg (msg_id m0) # live s\<rparr>) s1 \<and> ub s1 = ub s"
      by simp
    obtain ok1 m1 s2 where put: "nla_put_all L xs m0 s1 = (ok1, m1, s2)" by (metis prod_cases3)
    from nla_put_all_quiet [OF put] nla_put_all_ub [OF put str]
    have m1: "msg_id m1 = msg_id m0" "s2 = s1" by simp_all
    from q have live: "live s1 = Msg (msg_id m1) # live s" by (simp add: quiet_def m1)
    show ?thesis
    proof (cases ok1)
      case False
      with ex msg Some put m1 q live start show ?thesis
        by (auto simp: nl_exchange_def nlmsg_free_def release_def safe_def balanced_def quiet_def)
    next
      case True
      with ex msg Some put m1 have snd: "ipvs_nl_send_message L (Some m1) cb r s1 = (c, r', t)"
        by (simp add: nl_exchange_def)
      from send_effect [OF snd live] send_safe [OF snd live I] q show ?thesis
        by (auto simp: safe_def balanced_def quiet_def)
    qed
  qed
qed

lemma exchange_safe:
  assumes ex: "nl_exchange L cmd dump xs cb r s = (c, r', t)"
    and ok: "answers_ok L wf" "\<And>n. n < 2 ^ 31 - 1 \<Longrightarrow> I n r"
    and str: "list_all (\<lambda>x. \<not> unterminated x) xs"
  shows "safe s t \<and> (\<exists>n. I n r') \<and> (c = 0 \<or> c = -1)"
  using ok by (intro exchange_safe_if [OF ex _ str]) (auto simp: answers_ok_def)

end

context nl_collector
begin

lemma exchange_collects:
  assumes ex: "nl_exchange L cmd dump xs cb r s = (0, r', t)"
    and ok: "answers_ok L wf" "\<And>n. n < 2 ^ 31 - 1 \<Longrightarrow> I n r"
  shows "\<exists>w ms. fst (nl_recvmsgs L w) = ms \<and> list_all (\<lambda>m. decode m \<noteq> None) ms
    \<and> view r' = view r @ map (\<lambda>m. the (decode m)) ms"
proof -
  have I: "I (length (fst (nl_recvmsgs L w))) r \<and> list_all wf (fst (nl_recvmsgs L w))" for w
    using ok by (auto simp: answers_ok_def)
  from ex obtain m1 s1 where "ipvs_nl_send_message L (Some m1) cb r s1 = (0, r', t)"
    by (auto simp: nl_exchange_def split: prod.splits option.splits if_splits)
  from send_collects [OF this I] show ?thesis .
qed

end

section \<open>Queries\<close>

text \<open>
  A query as its client sees it: a value that owns one block, or the null pointer. \<open>ok\<close> is
  what the outside has to do.
\<close>

locale ipvs_query =
  fixes q :: "'w lib \<Rightarrow> 'x option \<times> 'w lib"
    and blk :: "'x \<Rightarrow> nat"
    and ok :: "'w lib \<Rightarrow> bool"
  assumes q_fetched: "q s = (x, t) \<Longrightarrow> ok s \<Longrightarrow> fetched s (map_option blk x) t"
begin

text \<open>Asking, using the answer in a way that keeps the contract, and freeing it leaks nothing.\<close>

definition with_answer :: "('x \<Rightarrow> 'w lib \<Rightarrow> 'w lib) \<Rightarrow> 'w lib \<Rightarrow> 'w lib" where
  "with_answer f s = (case q s of (None, t) \<Rightarrow> t | (Some x, t) \<Rightarrow> free_block (blk x) (f x t))"

lemma with_answer_safe:
  assumes "ok s" and "\<And>x t. q s = (Some x, t) \<Longrightarrow> safe t (f x t)"
  shows "safe s (with_answer f s)"
proof -
  obtain x t where qs: "q s = (x, t)" by fastforce
  from q_fetched [OF qs assms(1)] assms(2) qs show ?thesis
    by (cases x) (auto simp: with_answer_def fetched_None intro: fetched_free fetched_safe)
qed

end

lemma get_services_nl_exchange:
  "get_services_nl L s =
     (case malloc_block L (sizeof_get_services + sizeof_service_entry) s of
        (None, s) \<Rightarrow> (None, s)
      | (Some b, s) \<Rightarrow>
          (let (r, get, s) = nl_exchange L IPVS_CMD_GET_SERVICE True [] (ipvs_services_parse_cb L)
                 (Some \<lparr>gs_block = b, gs_num_services = 0, gs_entrytable = [None]\<rparr>) s
           in if r = 0 then (get, s) else (None, free_opt (map_option gs_block get) s)))"
  by (simp add: get_services_nl_def nl_exchange_def free_opt_def Let_def split: option.split prod.split)

lemma services_room_start:
  "n < 2 ^ 31 - 1 \<Longrightarrow>
   services_room b n (Some \<lparr>gs_block = b, gs_num_services = 0, gs_entrytable = [None]\<rparr>)"
  by (simp add: services_room_def table_room_def)

lemma services_room_block: "services_room b n g \<Longrightarrow> map_option gs_block g = Some b"
  by (auto simp: services_room_def split: option.splits)

lemma get_services_nl_ok:
  assumes "answers_ok L (services_wf L)" and "get_services_nl L s = (g, t)"
  shows "fetched s (map_option gs_block g) t"
proof -
  obtain b s1 where m: "malloc_block L (sizeof_get_services + sizeof_service_entry) s = (b, s1)" by fastforce
  note f = malloc_block_fetched [OF m]
  show ?thesis
  proof (cases b)
    case None
    with assms m f show ?thesis by (simp add: get_services_nl_def)
  next
    case (Some b0)
    obtain r get s2 where ex: "nl_exchange L IPVS_CMD_GET_SERVICE True [] (ipvs_services_parse_cb L)
        (Some \<lparr>gs_block = b0, gs_num_services = 0, gs_entrytable = [None]\<rparr>) s1 = (r, get, s2)"
      by (metis prod_cases3)
    from services.exchange_safe [OF ex assms(1) services_room_start]
    have "safe s1 s2" and "map_option gs_block get = Some b0"
      by (auto dest: services_room_block)
    with assms(2) m Some ex f show ?thesis
      by (auto simp: get_services_nl_exchange free_opt_def fetched_None split: if_splits
          intro: fetched_safe fetched_free)
  qed
qed

text \<open>What a netlink query lists is what the kernel answered.\<close>

lemma get_services_nl_lists:
  assumes "answers_ok L (services_wf L)" and "get_services_nl L s = (Some g, t)"
  shows "\<exists>w ms. fst (nl_recvmsgs L w) = ms \<and> list_all (\<lambda>m. decode_service L m \<noteq> None) ms
    \<and> services_view g = map (\<lambda>m. the (decode_service L m)) ms"
proof -
  from assms(2) obtain b s1 s2 where "nl_exchange L IPVS_CMD_GET_SERVICE True [] (ipvs_services_parse_cb L)
      (Some \<lparr>gs_block = b, gs_num_services = 0, gs_entrytable = [None]\<rparr>) s1 = (0, Some g, s2)"
    by (auto simp: get_services_nl_exchange split: prod.splits option.splits if_splits)
  from services.exchange_collects [OF this assms(1) services_room_start] show ?thesis
    by (simp add: services_listed_def services_view_def)
qed

section \<open>The socket-option forms\<close>

lemma table_put_nat:
  assumes "i < length xs" and "length xs < 2 ^ 31"
  shows "table_put (of_nat i) e xs s = (xs[i := Some e], s)"
proof -
  have u: "unat (of_nat i :: u32) = i" using assms by (simp add: unat_of_nat)
  with assms show ?thesis by (simp add: table_put_def sint_small)
qed

lemma copy_entries_ok:
  "i + n \<le> length xs \<Longrightarrow> i + n \<le> length ks \<Longrightarrow> length xs < 2 ^ 31 \<Longrightarrow>
   copy_entries heap conv ks i n xs s =
     (take i xs @ map (\<lambda>j. Some (conv (heap j) (ks ! j))) [i..<i + n] @ drop (i + n) xs, s)"
proof (induction n arbitrary: i xs)
  case (Suc n)
  let ?xs = "xs[i := Some (conv (heap i) (ks ! i))]"
  have "copy_entries heap conv ks i (Suc n) xs s = copy_entries heap conv ks (Suc i) n ?xs s"
    using Suc.prems by (simp add: table_put_nat)
  also have "\<dots> = (take (Suc i) ?xs @ map (\<lambda>j. Some (conv (heap j) (ks ! j))) [Suc i..<Suc i + n]
      @ drop (Suc i + n) ?xs, s)"
    by (rule Suc.IH) (use Suc.prems in simp_all)
  also have "take (Suc i) ?xs = take i xs @ [Some (conv (heap i) (ks ! i))]"
    using Suc.prems by (simp add: take_Suc_conv_app_nth)
  finally have run: "copy_entries heap conv ks i (Suc n) xs s =
      ((take i xs @ [Some (conv (heap i) (ks ! i))]) @
        map (\<lambda>j. Some (conv (heap j) (ks ! j))) [Suc i..<Suc i + n] @ drop (Suc i + n) ?xs, s)" .
  have "[i..<i + Suc n] = i # [Suc i..<Suc i + n]"
    by (simp add: upt_conv_Cons del: upt_Suc)
  with run show ?case using Suc.prems by (simp del: upt_Suc)
qed simp

lemma block_len_small:
  "unat n < 2 ^ 24 \<Longrightarrow> sz \<le> 224 \<Longrightarrow> hdr \<le> 40 \<Longrightarrow> block_len hdr sz n = hdr + sz * unat n"
proof -
  assume "unat n < 2 ^ 24" "sz \<le> 224" "hdr \<le> 40"
  then have "sz * unat n \<le> 224 * 2 ^ 24" by (intro mult_mono) simp_all
  then have "hdr + sz * unat n < 2 ^ 32" using \<open>hdr \<le> 40\<close> by simp
  then show ?thesis by (simp add: block_len_def unat_of_nat del: of_nat_add of_nat_mult)
qed

lemma block_room_small:
  "unat n < 2 ^ 24 \<Longrightarrow> 0 < sz \<Longrightarrow> sz \<le> 224 \<Longrightarrow> hdr \<le> 40 \<Longrightarrow> block_room hdr sz n = unat n"
  by (simp add: block_room_def block_len_small)

lemma write_header_small:
  "unat n < 2 ^ 24 \<Longrightarrow> sz \<le> 224 \<Longrightarrow> hdr \<le> 40 \<Longrightarrow> write_header hdr (block_len hdr sz n) s = s"
  by (simp add: write_header_def block_len_small)

definition from_kern_entries :: "(nat \<Rightarrow> 'e) \<Rightarrow> ('e \<Rightarrow> 'k \<Rightarrow> 'e) \<Rightarrow> 'k list \<Rightarrow> nat \<Rightarrow> 'e list" where
  "from_kern_entries heap conv ks n = map (\<lambda>j. conv (heap j) (ks ! j)) [0..<n]"

lemma copy_entries_fresh:
  assumes "n \<le> room" "n \<le> length ks" "room < 2 ^ 31"
  shows "copy_entries heap conv ks 0 n (replicate room None) s =
    (map Some (from_kern_entries heap conv ks n) @ replicate (room - n) None, s)"
  using copy_entries_ok [of 0 n "replicate room None" ks heap conv s] assms
  by (simp add: from_kern_entries_def comp_def)

text \<open>The outcome of the older interface's list of services, when the kernel keeps its word.\<close>

lemma get_services_so_outcome:
  assumes ok: "so_services_ok L (info_num_services (ipvs_info s))" and q: "get_services_so L s = (g, t)"
  shows "fetched s (map_option gs_block g) t \<and>
    (\<forall>x. g = Some x \<longrightarrow> (\<exists>w k. fst (getsockopt_services L (sockfd s) (info_num_services (ipvs_info s)) w) = Inr k
       \<and> services_view x =
         from_kern_entries (heap_service L) service_from_kern (gsk_entrytable k) (unat (gsk_num_services k))))"
proof -
  let ?num = "info_num_services (ipvs_info s)"
  from ok have num: "unat ?num < 2 ^ 24" by (simp add: so_services_ok_def)
  note small = block_len_small [OF num, of 224 8] block_len_small [OF num, of 104 8]
    block_room_small [OF num, of 224 8]
  obtain b s1 where m1: "malloc_block L (8 + 224 * unat ?num) s = (b, s1)" by fastforce
  note f1 = malloc_block_fetched [OF m1]
  show ?thesis
  proof (cases b)
    case None
    with q m1 f1 small show ?thesis by (auto simp: get_services_so_def Let_def)
  next
    case (Some b0)
    obtain k s2 where m2: "malloc_block L (8 + 104 * unat ?num) s1 = (k, s2)" by fastforce
    note f2 = malloc_block_fetched [OF m2]
    show ?thesis
    proof (cases k)
      case None
      with q m1 m2 Some small have "g = None" "t = free_block b0 s2"
        by (auto simp: get_services_so_def Let_def)
      moreover have "fetched s (Some b0) s2" using f1 f2 Some None by (auto simp: fetched_None intro: fetched_safe)
      ultimately show ?thesis by (simp add: fetched_None fetched_free)
    next
      case (Some bk)
      have fd: "sockfd s2 = sockfd s" using f1 f2 by (simp add: fetched_def)
      obtain r w where so: "getsockopt_services L (sockfd s) ?num (world s2) = (r, w)" by fastforce
      let ?s = "s2\<lparr>ipvs_func := Some F_get_services, world := w\<rparr>"
      have fs: "fetched s1 (Some bk) ?s" using f2 Some by simp
      have fb: "fetched s (Some b0) (free_block bk ?s)"
        using f1 \<open>b = Some b0\<close> fs by (auto intro: fetched_nested)
      show ?thesis
      proof (cases r)
        case (Inl e)
        with q m1 m2 \<open>b = Some b0\<close> Some small fd so have
          "g = None" "t = free_block bk (free_block b0 (set_errno e ?s))"
          by (auto simp: get_services_so_def Let_def write_header_def)
        moreover have "safe s (free_block bk (free_block b0 (set_errno e ?s)))"
          using f1 fs \<open>b = Some b0\<close>
          by (auto simp: fetched_def safe_def balanced_def free_block_def release_def set_errno_def)
        ultimately show ?thesis by (simp add: fetched_None)
      next
        case (Inr getk)
        from ok so Inr have le: "unat (gsk_num_services getk) \<le> unat ?num"
          "unat (gsk_num_services getk) \<le> length (gsk_entrytable getk)"
          by (auto simp: so_services_ok_def dest: spec [of _ "sockfd s"] spec [of _ "world s2"]
              split: sum.splits) (metis fst_conv sum.case(2))+
        note copy = copy_entries_fresh [OF le, of "heap_service L" service_from_kern ?s]
        from q m1 m2 \<open>b = Some b0\<close> Some small fd so Inr copy num
        have "g = Some \<lparr>gs_block = b0, gs_num_services = gsk_num_services getk,
              gs_entrytable = map Some (from_kern_entries (heap_service L) service_from_kern
                (gsk_entrytable getk) (unat (gsk_num_services getk)))
                @ replicate (unat ?num - unat (gsk_num_services getk)) None\<rparr>"
          and "t = free_block bk ?s"
          by (auto simp: get_services_so_def Let_def write_header_def)
        with fb so Inr show ?thesis
          by (auto simp: services_view_def from_kern_entries_def comp_def
              intro!: exI [of _ "world s2"] exI [of _ getk])
      qed
    qed
  qed
qed

section \<open>Destinations\<close>

lemma get_dests_nl_exchange:
  "get_dests_nl L svc d s =
     (let (xs, s) = (if se_num_dests svc = 0
                     then realloc_table L sizeof_get_dests sizeof_dest_entry 1 (gd_entrytable d) s
                     else (Some (gd_entrytable d), s))
      in case xs of None \<Rightarrow> (None, undefined_behaviour s)
         | Some xs \<Rightarrow>
      (let d = dests_header svc (d\<lparr>gd_entrytable := xs\<rparr>);
           (r, d, s) = nl_exchange L IPVS_CMD_GET_DEST True (dest_query_items svc) (ipvs_dests_parse_cb L) (Some d) s
       in if r \<noteq> 0 then (None, free_opt (map_option gd_block d) s) else (d, s)))"
  by (simp add: get_dests_nl_def nl_exchange_def free_opt_def dests_header_def Let_def
      split: option.split prod.split)

lemma dests_room_start:
  "n < 2 ^ 31 - 1 \<Longrightarrow> gd_num_dests d = 0 \<Longrightarrow> length (gd_entrytable d) = 1 \<Longrightarrow>
   dests_room (gd_block d) (gd_af d) n (Some d)"
  by (simp add: dests_room_def table_room_def)

lemma dest_query_terminated: "list_all (\<lambda>x. \<not> unterminated x) (dest_query_items svc)"
  by (simp add: dest_query_items_def)

text \<open>With no destinations claimed by the caller's entry, the netlink query is the exchange on a table of one slot.\<close>

lemma get_dests_nl_outcome:
  assumes num: "se_num_dests svc = 0" and re: "realloc_total L" and ok: "answers_ok L (dests_wf L)"
    and room: "gd_entrytable d = []" and q: "get_dests_nl L svc d s = (g, t)"
  shows "(\<forall>d'. g = Some d' \<longrightarrow> gd_block d' = gd_block d) \<and>
    (\<exists>u. safe s u \<and> t = (if g = None then free_block (gd_block d) u else u)) \<and>
    (\<forall>d'. g = Some d' \<longrightarrow> (\<exists>w ms. fst (nl_recvmsgs L w) = ms
       \<and> list_all (\<lambda>m. decode_dest L (se_af svc) m \<noteq> None) ms
       \<and> dests_view d' = map (\<lambda>m. the (decode_dest L (se_af svc) m)) ms))"
proof -
  obtain w where "realloc_table L 40 200 1 (gd_entrytable d) s = (Some (resize 1 []), s\<lparr>world := w\<rparr>)"
    using realloc_table_total [OF re, of 40 200 1 "gd_entrytable d" s] room by auto
  then have rt: "realloc_table L 40 200 1 (gd_entrytable d) s = (Some [None], s\<lparr>world := w\<rparr>)"
    by (simp add: resize_def)
  let ?d = "dests_header svc (d\<lparr>gd_entrytable := [None]\<rparr>)"
  have start: "dests_room (gd_block d) (se_af svc) n (Some ?d)" if "n < 2 ^ 31 - 1" for n
    using dests_room_start [OF that, of ?d] num by (simp add: dests_header_def)
  obtain r dp u where ex: "nl_exchange L IPVS_CMD_GET_DEST True (dest_query_items svc)
      (ipvs_dests_parse_cb L) (Some ?d) (s\<lparr>world := w\<rparr>) = (r, dp, u)" by (metis prod_cases3)
  from dests.exchange_safe [OF ex ok start dest_query_terminated]
  have su: "safe s u" and blk: "map_option gd_block dp = Some (gd_block d)"
    by (auto simp: safe_def balanced_def dests_room_def split: option.splits)
  have run: "get_dests_nl L svc d s = (if r \<noteq> 0 then (None, free_block (gd_block d) u) else (dp, u))"
    using num rt ex blk by (auto simp: get_dests_nl_exchange free_opt_def)
  show ?thesis
  proof (cases "r = 0")
    case False
    with run q su show ?thesis by auto
  next
    case True
    from dests.exchange_collects [OF ex [unfolded True] ok start] have
      "\<exists>w ms. fst (nl_recvmsgs L w) = ms \<and> list_all (\<lambda>m. decode_dest L (se_af svc) m \<noteq> None) ms
        \<and> dests_listed dp = map (\<lambda>m. the (decode_dest L (se_af svc) m)) ms"
      using num by (simp add: dests_listed_def dests_view_def dests_header_def)
    with run q su blk True show ?thesis by (auto simp: dests_listed_def)
  qed
qed

lemma get_dests_so_outcome:
  assumes ok: "so_dests_ok L (se_num_dests svc)"
    and room: "gd_entrytable d = replicate (unat (se_num_dests svc)) None"
    and q: "get_dests_so L svc d s = (g, t)"
  shows "(\<forall>d'. g = Some d' \<longrightarrow> gd_block d' = gd_block d) \<and>
    (\<exists>u. safe s u \<and> t = (if g = None then free_block (gd_block d) u else u)) \<and>
    (\<forall>d'. g = Some d' \<longrightarrow> (\<exists>w dk k. gdk_num_dests dk = se_num_dests svc
       \<and> fst (getsockopt_dests L (sockfd s) dk w) = Inr k
       \<and> dests_view d' = from_kern_entries (heap_dest L) dest_from_kern (gdk_entrytable k) (unat (gdk_num_dests k))))"
proof (cases "se_af svc = AF_INET")
  case False
  with q have "g = None" "t = free_block (gd_block d) (set_errno EAFNOSUPPORT s)"
    by (auto simp: get_dests_so_def)
  then show ?thesis by (auto intro!: exI [of _ "set_errno EAFNOSUPPORT s"])
next
  case True
  let ?num = "se_num_dests svc"
  from ok have num: "unat ?num < 2 ^ 24" by (simp add: so_dests_ok_def)
  obtain b s1 where m: "malloc_block L (block_len 24 96 ?num) s = (b, s1)" by fastforce
  note f = malloc_block_fetched [OF m]
  show ?thesis
  proof (cases b)
    case None
    with q m True have "g = None" "t = free_block (gd_block d) s1" by (auto simp: get_dests_so_def Let_def)
    with f None show ?thesis by (auto simp: fetched_None)
  next
    case (Some bk)
    let ?dk = "\<lparr>gdk_protocol = se_protocol svc, gdk_addr = addr_ip (se_addr svc), gdk_port = se_port svc,
      gdk_fwmark = se_fwmark svc, gdk_num_dests = ?num, gdk_entrytable = []\<rparr>"
    have fd: "sockfd s1 = sockfd s" using f by (simp add: fetched_def)
    obtain r w where so: "getsockopt_dests L (sockfd s) ?dk (world s1) = (r, w)" by fastforce
    have fs: "safe s (free_block bk (s1\<lparr>world := w\<rparr>))"
      using f Some by (intro fetched_free) simp
    note [simp] = write_header_small [OF num, of 96 24, simplified]
    show ?thesis
    proof (cases r)
      case (Inl e)
      with q m True Some so fd have
        "g = None" "t = free_block bk (free_block (gd_block d) (set_errno e (s1\<lparr>world := w\<rparr>)))"
        by (auto simp: get_dests_so_def Let_def)
      moreover have "free_block bk (free_block b' s') = free_block b' (free_block bk s')"
        if "live s' = Blk bk # rs" "bk \<noteq> b'" for b' rs and s' :: "'a lib"
        using that by (simp add: free_block_def release_def)
      moreover have "free_block bk (free_block bk s') = free_block bk (free_block bk s')" for s' :: "'a lib"
        by simp
      moreover have "live (set_errno e (s1\<lparr>world := w\<rparr>)) = Blk bk # live s"
        using f Some by (simp add: fetched_def set_errno_def)
      ultimately have "t = free_block (gd_block d) (free_block bk (set_errno e (s1\<lparr>world := w\<rparr>)))"
        by (cases "bk = gd_block d") auto
      moreover have "safe s (free_block bk (set_errno e (s1\<lparr>world := w\<rparr>)))"
        using f Some by (intro fetched_free) simp
      ultimately show ?thesis using \<open>g = None\<close> by auto
    next
      case (Inr k)
      from ok so Inr have "unat (gdk_num_dests k) \<le> unat ?num \<and> unat (gdk_num_dests k) \<le> length (gdk_entrytable k)"
        unfolding so_dests_ok_def
        by (auto dest!: spec [of _ "sockfd s"] spec [of _ ?dk] spec [of _ "world s1"])
      then have le: "unat (gdk_num_dests k) \<le> unat ?num" "unat (gdk_num_dests k) \<le> length (gdk_entrytable k)"
        by simp_all
      note copy = copy_entries_fresh [OF le, of "heap_dest L" dest_from_kern "s1\<lparr>world := w\<rparr>"]
      let ?xs = "map Some (from_kern_entries (heap_dest L) dest_from_kern (gdk_entrytable k) (unat (gdk_num_dests k)))
        @ replicate (unat ?num - unat (gdk_num_dests k)) None"
      from q m True Some so fd Inr copy room num obtain d' where
        g: "g = Some d'" "gd_entrytable d' = ?xs" "gd_num_dests d' = gdk_num_dests k" "gd_block d' = gd_block d"
        and "t = free_block bk (s1\<lparr>world := w\<rparr>)"
        by (auto simp: get_dests_so_def Let_def)
      then have "safe s t" using fs by simp
      moreover have "dests_view d' = from_kern_entries (heap_dest L) dest_from_kern (gdk_entrytable k) (unat (gdk_num_dests k))"
        using g by (simp add: dests_view_def from_kern_entries_def comp_def)
      moreover have "fst (getsockopt_dests L (sockfd s) ?dk (world s1)) = Inr k" using so Inr by simp
      moreover have "gdk_num_dests ?dk = ?num" by simp
      ultimately show ?thesis using g by (metis option.distinct(1) option.inject)
    qed
  qed
qed

lemma get_dests_ok:
  assumes ok: "dests_ok L svc s" and q: "ipvs_get_dests L svc s = (g, t)"
  shows "fetched s (map_option gd_block g) t"
proof -
  have num: "unat (se_num_dests svc) < 2 ^ 24" using ok by (auto simp: dests_ok_def so_dests_ok_def split: if_splits)
  note [simp] = block_len_small [OF num, of 200 40, simplified] block_room_small [OF num, of 200 40, simplified]
  obtain b s1 where m: "malloc_block L (40 + 200 * unat (se_num_dests svc)) s = (b, s1)" by fastforce
  note f = malloc_block_fetched [OF m]
  show ?thesis
  proof (cases b)
    case None
    with q m f show ?thesis by (auto simp: ipvs_get_dests_def Let_def)
  next
    case (Some b0)
    let ?d = "(heap_dests L)\<lparr>gd_block := b0, gd_entrytable := replicate (unat (se_num_dests svc)) None\<rparr>"
    let ?s = "s1\<lparr>ipvs_func := Some F_get_dests\<rparr>"
    have mode: "nl_mode L s1 = nl_mode L s" using f by (simp add: fetched_def nl_mode_def)
    have run: "(if nl_mode L s1 then get_dests_nl L svc ?d ?s else get_dests_so L svc ?d ?s) = (g, t)"
      using q m Some by (simp add: ipvs_get_dests_def write_header_def Let_def)
    have "(\<forall>d'. g = Some d' \<longrightarrow> gd_block d' = gd_block ?d) \<and>
        (\<exists>u. safe ?s u \<and> t = (if g = None then free_block (gd_block ?d) u else u))"
    proof (cases "nl_mode L s")
      case True
      with ok have "se_num_dests svc = 0" "realloc_total L" "answers_ok L (dests_wf L)"
        by (simp_all add: dests_ok_def)
      from get_dests_nl_outcome [OF this, of ?d ?s g t] run True mode \<open>se_num_dests svc = 0\<close>
      show ?thesis by simp
    next
      case False
      with ok have "so_dests_ok L (se_num_dests svc)" by (simp add: dests_ok_def)
      from get_dests_so_outcome [OF this, of ?d ?s g t] run False mode show ?thesis by simp
    qed
    then obtain u where ub: "safe ?s u" "t = (if g = None then free_block (gd_block ?d) u else u)"
      and blkd: "\<forall>d'. g = Some d' \<longrightarrow> gd_block d' = gd_block ?d" by (elim exE conjE) (rule that)
    from ub have u: "safe s1 u" "t = (if g = None then free_block b0 u else u)" by simp_all
    from blkd have blk: "\<forall>d'. g = Some d' \<longrightarrow> gd_block d' = b0" by simp
    have "fetched s (Some b0) u" using f Some u(1) by (auto intro: fetched_safe)
    with u(2) blk show ?thesis by (cases g) (simp_all add: fetched_None fetched_free)
  qed
qed

section \<open>One service, timeouts, daemons\<close>

lemma get_service_nl_exchange:
  "get_service_nl L fwmark af protocol addr port s =
     (case malloc_block L sizeof_service_entry s of
        (None, s) \<Rightarrow> (None, s)
      | (Some b, s) \<Rightarrow>
      (case malloc_block L (sizeof_get_services + sizeof_service_entry) s of
            (None, s) \<Rightarrow> (None, free_block b s)
          | (Some g, s) \<Rightarrow>
      (let tsvc = service_zero\<lparr>svc_fwmark := fwmark, svc_af := af, svc_protocol := protocol,
                               svc_addr := addr, svc_port := port\<rparr>;
           (r, get, s) = nl_exchange L IPVS_CMD_GET_SERVICE False (service_items tsvc) (ipvs_services_parse_cb L)
              (Some \<lparr>gs_block = g, gs_num_services = 0, gs_entrytable = [None]\<rparr>) s
       in if r \<noteq> 0 then (None, free_block b (free_opt (map_option gs_block get) s))
       else (case get of
               None \<Rightarrow> (Some (b, heap_service L 0), undefined_behaviour s)
             | Some get \<Rightarrow> (Some (b, slot (heap_service L 0) (gs_entrytable get)),
                            free_block (gs_block get) s)))))"
  by (simp add: get_service_nl_def nl_exchange_def ipvs_nl_fill_service_attr_def free_opt_def Let_def
      split: option.split prod.split)

lemma service_query_terminated:
  "svc_sched_name svc = [] \<Longrightarrow> svc_pe_name svc = [] \<Longrightarrow> list_all (\<lambda>x. \<not> unterminated x) (service_items svc)"
  by (simp add: service_items_def)

lemma get_service_nl_ok:
  assumes ok: "answers_ok L (services_wf L)"
    and q: "get_service_nl L fwmark af protocol addr port s = (x, t)"
  shows "fetched s (map_option fst x) t"
proof -
  obtain b s1 where m1: "malloc_block L 224 s = (b, s1)" by fastforce
  note f1 = malloc_block_fetched [OF m1]
  show ?thesis
  proof (cases b)
    case None
    with q m1 f1 show ?thesis by (auto simp: get_service_nl_exchange)
  next
    case (Some b0)
    obtain g s2 where m2: "malloc_block L 232 s1 = (g, s2)" by fastforce
    note f2 = malloc_block_fetched [OF m2]
    show ?thesis
    proof (cases g)
      case None
      with f1 f2 Some have "safe s (free_block b0 s2)"
        by (auto simp: fetched_None intro: fetched_free fetched_safe)
      with q m1 m2 Some None show ?thesis by (auto simp: get_service_nl_exchange fetched_None)
    next
      case (Some g0)
      let ?tsvc = "service_zero\<lparr>svc_fwmark := fwmark, svc_af := af, svc_protocol := protocol,
                                 svc_addr := addr, svc_port := port\<rparr>"
      obtain r get s3 where ex: "nl_exchange L IPVS_CMD_GET_SERVICE False (service_items ?tsvc)
          (ipvs_services_parse_cb L) (Some \<lparr>gs_block = g0, gs_num_services = 0, gs_entrytable = [None]\<rparr>) s2
          = (r, get, s3)" by (metis prod_cases3)
      have "list_all (\<lambda>x. \<not> unterminated x) (service_items ?tsvc)"
        by (rule service_query_terminated) (simp_all add: service_zero_def)
      from services.exchange_safe [OF ex ok services_room_start this]
      have s3: "safe s2 s3" and blk: "map_option gs_block get = Some g0"
        by (auto dest: services_room_block)
      have fb: "fetched s (Some b0) (free_block g0 s3)"
        using f1 f2 s3 Some \<open>b = Some b0\<close> by (auto intro: fetched_nested fetched_safe)
      from blk obtain get0 where get0: "get = Some get0" "gs_block get0 = g0" by auto
      with q m1 m2 Some \<open>b = Some b0\<close> ex fb show ?thesis
        by (auto simp: get_service_nl_exchange free_opt_def fetched_None fetched_free Let_def split: if_splits)
    qed
  qed
qed

lemma get_service_so_ok:
  assumes q: "get_service_so L fwmark af protocol addr port s = (x, t)"
  shows "fetched s (map_option fst x) t"
proof -
  obtain b s1 where m: "malloc_block L 224 s = (b, s1)" by fastforce
  note f = malloc_block_fetched [OF m]
  have free: "safe s (free_block b0 u)" if "b = Some b0" "u = set_errno e s1 \<or> u = set_errno e (s1\<lparr>world := w\<rparr>)" for b0 u e w
    using f that by (intro fetched_free) auto
  from q m f free show ?thesis
    by (cases b) (auto simp: get_service_so_def check_compat_entry_def fetched_None Let_def
        split: prod.splits sum.splits if_splits)
qed

text \<open>A query of fixed size: a block, an exchange or a socket option, the block freed on failure.\<close>

lemma fixed_query_nl:
  assumes m: "malloc_block L n s = (Some b, s1)" and ex: "safe s1 s2"
  shows "fetched s (Some b) s2" and "safe s (free_block b s2)"
  using malloc_block_fetched [OF m] ex by (auto intro: fetched_safe fetched_free)

lemma get_timeout_ok:
  assumes q: "ipvs_get_timeout L s = (x, t)"
  shows "fetched s (map_option fst x) t"
proof -
  obtain b s1 where m: "malloc_block L 12 s = (b, s1)" by fastforce
  show ?thesis
  proof (cases b)
    case None
    with q m malloc_block_fetched [OF m] show ?thesis by (auto simp: ipvs_get_timeout_def)
  next
    case (Some b0)
    let ?s = "s1\<lparr>ipvs_func := Some F_get_timeout\<rparr>"
    have s1: "safe s1 ?s" by simp
    show ?thesis
    proof (cases "nl_mode L ?s")
      case True
      obtain r u s2 where ex: "nl_exchange L IPVS_CMD_GET_TIMEOUT False [] (ipvs_timeout_parse_cb L)
          \<lparr>tcp_timeout = 0, tcp_fin_timeout = 0, udp_timeout = 0\<rparr> ?s = (r, u, s2)" by (metis prod_cases3)
      from timeout.exchange_safe_if [OF ex] have "safe s1 s2" by (simp add: list_all_iff)
      note fixed_query_nl [OF m [unfolded Some] this]
      with q m Some True ex show ?thesis
        by (auto simp: ipvs_get_timeout_def nl_exchange_def fetched_None Let_def
            split: if_splits option.splits prod.splits)
    next
      case False
      with q m Some fixed_query_nl [OF m [unfolded Some], of "?s\<lparr>world := w\<rparr>" for w]
        fixed_query_nl [OF m [unfolded Some], of "set_errno e (?s\<lparr>world := w\<rparr>)" for e w]
      show ?thesis
        by (auto simp: ipvs_get_timeout_def fetched_None Let_def split: prod.splits sum.splits)
    qed
  qed
qed

definition daemons_ok :: "('w, 'm, 'a) sys \<Rightarrow> 'w lib \<Rightarrow> bool" where
  "daemons_ok L s \<longleftrightarrow> (nl_mode L s \<longrightarrow> answers_ok L (daemons_wf L))"

lemma get_daemon_ok:
  assumes ok: "daemons_ok L s" and q: "ipvs_get_daemon L s = (x, t)"
  shows "fetched s (map_option fst x) t"
proof -
  obtain b s1 where m: "malloc_block L (2 * 52) s = (b, s1)" by fastforce
  show ?thesis
  proof (cases b)
    case None
    with q m malloc_block_fetched [OF m] show ?thesis by (auto simp: ipvs_get_daemon_def)
  next
    case (Some b0)
    let ?s = "s1\<lparr>ipvs_func := Some F_get_daemon\<rparr>"
    have mode: "nl_mode L ?s = nl_mode L s"
      using malloc_block_fetched [OF m] by (simp add: fetched_def nl_mode_def)
    show ?thesis
    proof (cases "nl_mode L ?s")
      case True
      obtain r u s2 where ex: "nl_exchange L IPVS_CMD_GET_DAEMON True [] (ipvs_daemon_parse_cb L)
          (daemon_zero, daemon_zero) ?s = (r, u, s2)" by (metis prod_cases3)
      from True ok mode have "answers_ok L (daemons_wf L)" by (simp add: daemons_ok_def)
      from daemon.exchange_safe [OF ex this] have "safe s1 s2" by simp
      note fixed_query_nl [OF m [unfolded Some] this]
      with q m Some True ex show ?thesis
        by (auto simp: ipvs_get_daemon_def nl_exchange_def fetched_None Let_def
            split: if_splits option.splits prod.splits)
    next
      case False
      with q m Some fixed_query_nl [OF m [unfolded Some], of "?s\<lparr>world := w\<rparr>" for w]
        fixed_query_nl [OF m [unfolded Some], of "set_errno e (?s\<lparr>world := w\<rparr>)" for e w]
      show ?thesis
        by (auto simp: ipvs_get_daemon_def fetched_None Let_def split: prod.splits sum.splits)
    qed
  qed
qed

section \<open>Every query keeps the contract\<close>

definition service_ok :: "('w, 'm, 'a) sys \<Rightarrow> 'w lib \<Rightarrow> bool" where
  "service_ok L s \<longleftrightarrow> (nl_mode L s \<longrightarrow> answers_ok L (services_wf L))"

interpretation services_query: ipvs_query "ipvs_get_services L" gs_block "services_ok L" for L
  by unfold_locales
    (auto simp: ipvs_get_services_def services_ok_def dest: get_services_nl_ok get_services_so_outcome
      split: if_splits)

interpretation dests_query: ipvs_query "ipvs_get_dests L svc" gd_block "dests_ok L svc" for L svc
  by unfold_locales (rule get_dests_ok)

interpretation service_query: ipvs_query "ipvs_get_service L fwmark af protocol addr port" fst "service_ok L"
  for L fwmark af protocol addr port
  by unfold_locales
    (auto simp: ipvs_get_service_def service_ok_def Let_def dest: get_service_nl_ok get_service_so_ok
      split: if_splits)

interpretation timeout_query: ipvs_query "ipvs_get_timeout L" fst "\<lambda>_. True" for L
  by unfold_locales (rule get_timeout_ok)

interpretation daemon_query: ipvs_query "ipvs_get_daemon L" fst "daemons_ok L" for L
  by unfold_locales (rule get_daemon_ok)

end
