(* ===== verification/LibCompare.thy ===== *)
theory LibCompare
  imports LibParse "HOL-Library.List_Lexorder" "HOL-Library.Multiset"
begin

text \<open>
  The comparison functions of \<^verbatim>\<open>depend/libipvs/libipvs.c\<close> and the sorting of tables with
  them: the differences they return wrap around in 32 bits, so they order entries whose
  marks and addresses are less than \<open>2 ^ 31\<close> apart, and not all entries: which IPv4 services they
  order in a cycle is characterised at the end.
\<close>

section \<open>The comparators\<close>

text \<open>The difference of two \<^verbatim>\<open>__u32\<close>s stored into an \<^verbatim>\<open>int\<close>.\<close>

definition sub32 :: "u32 \<Rightarrow> u32 \<Rightarrow> int" where
  "sub32 a b = sint (a - b)"

text \<open>The difference of two \<^verbatim>\<open>__u16\<close>s, which C computes as \<^verbatim>\<open>int\<close>s.\<close>

definition sub16 :: "u16 \<Rightarrow> u16 \<Rightarrow> int" where
  "sub16 a b = uint a - uint b"

text \<open>The loop over the four words of an IPv6 address: the first difference.\<close>

fun cmp_words :: "u32 list \<Rightarrow> u32 list \<Rightarrow> int" where
  "cmp_words (a # as) (b # bs) =
     (let r = sub32 (ntohl a) (ntohl b) in if r \<noteq> 0 then r else cmp_words as bs)"
| "cmp_words _ _ = 0"

definition cmp_addr :: "u16 \<Rightarrow> nf_inet_addr \<Rightarrow> nf_inet_addr \<Rightarrow> int" where
  "cmp_addr af a b =
     (if af = AF_INET6 then cmp_words (s6_addr32 a) (s6_addr32 b)
      else sub32 (ntohl (addr_ip a)) (ntohl (addr_ip b)))"

definition ipvs_cmp_services :: "ip_vs_service_entry \<Rightarrow> ip_vs_service_entry \<Rightarrow> int" where
  "ipvs_cmp_services s1 s2 =
     (let r = sub32 (se_fwmark s1) (se_fwmark s2) in
      if r \<noteq> 0 then r
      else let r = sub16 (se_af s1) (se_af s2) in
      if r \<noteq> 0 then r
      else let r = sub16 (se_protocol s1) (se_protocol s2) in
      if r \<noteq> 0 then r
      else let r = cmp_addr (se_af s1) (se_addr s1) (se_addr s2) in
      if r \<noteq> 0 then r
      else sub16 (ntohs (se_port s1)) (ntohs (se_port s2)))"

definition ipvs_cmp_dests :: "ip_vs_dest_entry \<Rightarrow> ip_vs_dest_entry \<Rightarrow> int" where
  "ipvs_cmp_dests d1 d2 =
     (let r = cmp_addr (de_af d1) (de_addr d1) (de_addr d2) in
      if r \<noteq> 0 then r else sub16 (ntohs (de_port d1)) (ntohs (de_port d2)))"

text \<open>
  \<^verbatim>\<open>qsort\<close> over the counted entries of a table. The C library leaves the order of equal
  entries open, and everything when the comparator is inconsistent: it is a parameter.
\<close>

definition ipvs_sort_services ::
  "((ip_vs_service_entry \<Rightarrow> ip_vs_service_entry \<Rightarrow> int) \<Rightarrow> ip_vs_service_entry list \<Rightarrow> ip_vs_service_entry list)
     \<Rightarrow> ip_vs_get_services \<Rightarrow> (ip_vs_service_entry \<Rightarrow> ip_vs_service_entry \<Rightarrow> int) \<Rightarrow> ip_vs_get_services" where
  "ipvs_sort_services qsort s f =
     s\<lparr>gs_entrytable := map Some (qsort f (services_view s)) @ drop (unat (gs_num_services s)) (gs_entrytable s)\<rparr>"

definition ipvs_sort_dests ::
  "((ip_vs_dest_entry \<Rightarrow> ip_vs_dest_entry \<Rightarrow> int) \<Rightarrow> ip_vs_dest_entry list \<Rightarrow> ip_vs_dest_entry list)
     \<Rightarrow> ip_vs_get_dests \<Rightarrow> (ip_vs_dest_entry \<Rightarrow> ip_vs_dest_entry \<Rightarrow> int) \<Rightarrow> ip_vs_get_dests" where
  "ipvs_sort_dests qsort d f =
     d\<lparr>gd_entrytable := map Some (qsort f (dests_view d)) @ drop (unat (gd_num_dests d)) (gd_entrytable d)\<rparr>"

section \<open>What the comparators compare\<close>

text \<open>The key of an entry: the numbers compared, in the order of comparison.\<close>

definition addr_key :: "u16 \<Rightarrow> nf_inet_addr \<Rightarrow> int list" where
  "addr_key af a =
     (if af = AF_INET6 then map (\<lambda>w. uint (ntohl w)) (s6_addr32 a) else [uint (ntohl (addr_ip a))])"

definition service_key :: "ip_vs_service_entry \<Rightarrow> int list" where
  "service_key e = [uint (se_fwmark e), uint (se_af e), uint (se_protocol e)]
     @ addr_key (se_af e) (se_addr e) @ [uint (ntohs (se_port e))]"

definition dest_key :: "ip_vs_dest_entry \<Rightarrow> int list" where
  "dest_key e = addr_key (de_af e) (de_addr e) @ [uint (ntohs (de_port e))]"

text \<open>Two keys are near when their numbers are less than \<open>2 ^ 31\<close> apart, position by position.\<close>

definition near :: "int list \<Rightarrow> int list \<Rightarrow> bool" where
  "near xs ys \<longleftrightarrow> list_all2 (\<lambda>x y. \<bar>x - y\<bar> < 2 ^ 31) xs ys"

text \<open>A comparator over a lexicographic key is a chain of differences.\<close>

lemma sub32_eq: "sub32 a b = signed_take_bit 31 (uint a - uint b)"
proof -
  have "uint (a - b) = take_bit 32 (uint a - uint b)"
    by (simp add: uint_word_ariths take_bit_eq_mod)
  then have "sint (a - b) = signed_take_bit 31 (take_bit 32 (uint a - uint b))"
    by (simp add: sint_uint)
  also have "\<dots> = signed_take_bit 31 (uint a - uint b)"
    by (simp add: signed_take_bit_take_bit del: take_bit_diff)
  finally show ?thesis by (simp add: sub32_def)
qed

lemma sub32_near:
  assumes "\<bar>uint a - uint b\<bar> < 2 ^ 31"
  shows "sub32 a b = uint a - uint b"
  unfolding sub32_eq by (rule signed_take_bit_int_eq_self) (use assms in linarith)+

lemma signed_take_bit_wrap: "signed_take_bit 31 (k + 2 ^ 32) = signed_take_bit 31 (k :: int)"
proof -
  have "take_bit 32 (k + 2 ^ 32) = take_bit 32 k" by (simp add: take_bit_eq_mod)
  then have "signed_take_bit 31 (take_bit 32 (k + 2 ^ 32)) = signed_take_bit 31 (take_bit 32 k)" by (rule arg_cong)
  then show ?thesis by (simp only: signed_take_bit_take_bit) simp
qed

text \<open>The difference of two numbers, the first the smaller one, in both directions: it wraps from \<open>2 ^ 31\<close> on.\<close>

lemma signed_difference:
  fixes x y :: int
  assumes "0 \<le> x" and "x < y" and "y < 2 ^ 32"
  shows "signed_take_bit 31 (x - y) = (if y - x \<le> 2 ^ 31 then x - y else x - y + 2 ^ 32)"
    and "signed_take_bit 31 (y - x) = (if y - x < 2 ^ 31 then y - x else y - x - 2 ^ 32)"
proof -
  have self: "signed_take_bit 31 k = k" if "- (2 ^ 31) \<le> k" "k < 2 ^ 31" for k :: int
    by (rule signed_take_bit_int_eq_self [OF that])
  note wrap = signed_take_bit_wrap [of "x - y"] signed_take_bit_wrap [of "y - x - 2 ^ 32"]
  show "signed_take_bit 31 (x - y) = (if y - x \<le> 2 ^ 31 then x - y else x - y + 2 ^ 32)"
    using self [of "x - y"] self [of "x - y + 2 ^ 32"] wrap(1) assms by simp
  show "signed_take_bit 31 (y - x) = (if y - x < 2 ^ 31 then y - x else y - x - 2 ^ 32)"
    using self [of "y - x"] self [of "y - x - 2 ^ 32"] wrap(2) assms by simp
qed

lemma u32_range: "0 \<le> uint (a :: u32)" "uint (a :: u32) < 2 ^ 32"
  using uint_bounded [of a] by simp_all

lemma sub32_far:
  assumes "uint a < uint b"
  shows "sub32 a b < 0 \<longleftrightarrow> uint b - uint a \<le> 2 ^ 31" and "sub32 b a < 0 \<longleftrightarrow> 2 ^ 31 \<le> uint b - uint a"
    and "sub32 a b \<noteq> 0" and "sub32 b a \<noteq> 0"
proof -
  have less: "y < 2 ^ 32 \<Longrightarrow> 0 \<le> x \<Longrightarrow> x - y + 2 ^ 32 > 0 \<and> y - x - 2 ^ 32 < 0" for x y :: int by simp
  note range = less [OF u32_range(2) [of b] u32_range(1) [of a]]
  note far = signed_difference [OF u32_range(1) assms u32_range(2)]
  show "sub32 a b < 0 \<longleftrightarrow> uint b - uint a \<le> 2 ^ 31" "sub32 a b \<noteq> 0"
    using range assms unfolding sub32_eq far(1) by (simp_all split: if_split)
  show "sub32 b a < 0 \<longleftrightarrow> 2 ^ 31 \<le> uint b - uint a" "sub32 b a \<noteq> 0"
    using range assms unfolding sub32_eq far(2) by (simp_all split: if_split)
qed

definition agrees :: "int \<Rightarrow> int list \<Rightarrow> int list \<Rightarrow> bool" where
  "agrees c xs ys \<longleftrightarrow> (c < 0 \<longleftrightarrow> xs < ys) \<and> (c = 0 \<longleftrightarrow> xs = ys)"

lemma agrees_Nil: "agrees 0 [] []"
  by (simp add: agrees_def)

lemma agrees_Cons:
  assumes "r = x - y" and "x = y \<Longrightarrow> agrees c xs ys"
  shows "agrees (if r \<noteq> 0 then r else c) (x # xs) (y # ys)"
  using assms by (auto simp: agrees_def)

lemma agrees_last: "r = x - y \<Longrightarrow> agrees r [x] [y]"
  using agrees_Cons [of r x y 0 "[]" "[]"] agrees_Nil by (auto split: if_splits)

lemma agrees_append:
  "agrees c xs ys \<Longrightarrow> (xs = ys \<Longrightarrow> agrees d us vs) \<Longrightarrow> length xs = length ys \<Longrightarrow>
   agrees (if c \<noteq> 0 then c else d) (xs @ us) (ys @ vs)"
proof (induction xs ys arbitrary: c rule: list_induct2')
  case (4 x xs y ys)
  show ?case
  proof (cases "x = y")
    case True
    with 4 show ?thesis by (auto simp: agrees_def)
  next
    case False
    with 4 show ?thesis by (auto simp: agrees_def)
  qed
qed (auto simp: agrees_def)

section \<open>On near entries the comparators are lexicographic\<close>

lemma near_Cons [simp]: "near (x # xs) (y # ys) \<longleftrightarrow> \<bar>x - y\<bar> < 2 ^ 31 \<and> near xs ys"
  by (simp add: near_def)

lemma near_Nil [simp]: "near [] []"
  by (simp add: near_def)

lemma near_append: "length xs = length ys \<Longrightarrow> near (xs @ us) (ys @ vs) \<longleftrightarrow> near xs ys \<and> near us vs"
  by (simp add: near_def list_all2_append)

lemma cmp_words_agrees:
  "length as = length bs \<Longrightarrow> near (map (\<lambda>w. uint (ntohl w)) as) (map (\<lambda>w. uint (ntohl w)) bs) \<Longrightarrow>
   agrees (cmp_words as bs) (map (\<lambda>w. uint (ntohl w)) as) (map (\<lambda>w. uint (ntohl w)) bs)"
proof (induction as bs rule: list_induct2)
  case (Cons a as b bs)
  then have "agrees (if sub32 (ntohl a) (ntohl b) \<noteq> 0 then sub32 (ntohl a) (ntohl b) else cmp_words as bs)
      (map (\<lambda>w. uint (ntohl w)) (a # as)) (map (\<lambda>w. uint (ntohl w)) (b # bs))"
    unfolding list.map by (intro agrees_Cons) (simp_all add: sub32_near)
  then show ?case by (simp add: Let_def)
qed (simp add: agrees_Nil)

lemma cmp_addr_agrees:
  assumes "near (addr_key af a) (addr_key af b)"
  shows "agrees (cmp_addr af a b) (addr_key af a) (addr_key af b)"
proof (cases "af = AF_INET6")
  case True
  with assms cmp_words_agrees [of "s6_addr32 a" "s6_addr32 b"] show ?thesis
    by (simp add: cmp_addr_def addr_key_def s6_addr32_def)
next
  case False
  with assms show ?thesis
    by (auto simp: cmp_addr_def addr_key_def sub32_near intro!: agrees_last)
qed

lemma addr_key_length: "af = af' \<Longrightarrow> length (addr_key af a) = length (addr_key af' b)"
  by (simp add: addr_key_def s6_addr32_def)

lemma cmp_services_agrees:
  assumes "near (service_key x) (service_key y)"
  shows "agrees (ipvs_cmp_services x y) (service_key x) (service_key y)"
proof -
  have last: "agrees (sub16 (ntohs (se_port x)) (ntohs (se_port y)))
      [uint (ntohs (se_port x))] [uint (ntohs (se_port y))]"
    by (rule agrees_last) (simp add: sub16_def)
  have rest: "agrees (if cmp_addr (se_af x) (se_addr x) (se_addr y) \<noteq> 0
        then cmp_addr (se_af x) (se_addr x) (se_addr y) else sub16 (ntohs (se_port x)) (ntohs (se_port y)))
      (addr_key (se_af x) (se_addr x) @ [uint (ntohs (se_port x))])
      (addr_key (se_af y) (se_addr y) @ [uint (ntohs (se_port y))])" if af: "se_af x = se_af y"
  proof -
    have "near (addr_key (se_af x) (se_addr x)) (addr_key (se_af x) (se_addr y))"
      using assms af near_append [OF addr_key_length [OF refl]]
      by (simp add: service_key_def)
    from agrees_append [OF cmp_addr_agrees [OF this] last addr_key_length [OF refl]] af
    show ?thesis by simp
  qed
  have d: "sub32 (se_fwmark x) (se_fwmark y) = uint (se_fwmark x) - uint (se_fwmark y)"
    by (rule sub32_near) (use assms in \<open>simp add: service_key_def\<close>)
  show ?thesis
    unfolding service_key_def ipvs_cmp_services_def Let_def append_Cons append_Nil
    by (intro agrees_Cons rest) (simp_all add: d sub16_def word_uint_eq_iff)
qed

lemma cmp_dests_agrees:
  assumes "near (dest_key x) (dest_key y)" and af: "de_af x = de_af y"
  shows "agrees (ipvs_cmp_dests x y) (dest_key x) (dest_key y)"
proof -
  have last: "agrees (sub16 (ntohs (de_port x)) (ntohs (de_port y)))
      [uint (ntohs (de_port x))] [uint (ntohs (de_port y))]"
    by (rule agrees_last) (simp add: sub16_def)
  have "near (addr_key (de_af x) (de_addr x)) (addr_key (de_af x) (de_addr y))"
    using assms near_append [OF addr_key_length [OF refl]]
    by (simp add: dest_key_def)
  from agrees_append [OF cmp_addr_agrees [OF this] last addr_key_length [OF refl]] af
  show ?thesis by (auto simp: dest_key_def ipvs_cmp_dests_def Let_def split: if_splits)
qed

section \<open>Sorting\<close>

text \<open>What C asks of a comparator: one consistent order on the elements it is used on.\<close>

definition consistent :: "('e \<Rightarrow> 'e \<Rightarrow> int) \<Rightarrow> 'e set \<Rightarrow> bool" where
  "consistent cmp A \<longleftrightarrow>
     (\<forall>x\<in>A. \<forall>y\<in>A. (cmp x y < 0 \<longleftrightarrow> 0 < cmp y x)) \<and>
     (\<forall>x\<in>A. \<forall>y\<in>A. \<forall>z\<in>A. cmp x y \<le> 0 \<longrightarrow> cmp y z \<le> 0 \<longrightarrow> cmp x z \<le> 0)"

text \<open>What C promises of \<^verbatim>\<open>qsort\<close> then: a permutation in the order of the comparator.\<close>

definition qsort_ok :: "(('e \<Rightarrow> 'e \<Rightarrow> int) \<Rightarrow> 'e list \<Rightarrow> 'e list) \<Rightarrow> bool" where
  "qsort_ok qsort \<longleftrightarrow> (\<forall>cmp xs. consistent cmp (set xs) \<longrightarrow>
     mset (qsort cmp xs) = mset xs \<and> sorted_wrt (\<lambda>x y. cmp x y \<le> 0) (qsort cmp xs))"

text \<open>A comparator that agrees with a key on a set of elements.\<close>

locale key_comparator =
  fixes cmp :: "'e \<Rightarrow> 'e \<Rightarrow> int" and key :: "'e \<Rightarrow> int list" and ok :: "'e set \<Rightarrow> bool"
  assumes cmp_agrees: "ok A \<Longrightarrow> x \<in> A \<Longrightarrow> y \<in> A \<Longrightarrow> agrees (cmp x y) (key x) (key y)"
begin

lemma cmp_le: "ok A \<Longrightarrow> x \<in> A \<Longrightarrow> y \<in> A \<Longrightarrow> cmp x y \<le> 0 \<longleftrightarrow> key x \<le> key y"
  using cmp_agrees [of A x y] by (auto simp: agrees_def order.order_iff_strict)

lemma cmp_consistent:
  assumes "ok A"
  shows "consistent cmp A"
proof -
  have "cmp x y < 0 \<longleftrightarrow> 0 < cmp y x" if "x \<in> A" "y \<in> A" for x y
    using cmp_agrees [OF assms that] cmp_agrees [OF assms that(2,1)]
    unfolding agrees_def by (metis linorder_neqE less_asym)
  moreover have "cmp x z \<le> 0" if "x \<in> A" "y \<in> A" "z \<in> A" "cmp x y \<le> 0" "cmp y z \<le> 0" for x y z
    using that cmp_le [OF assms] by (meson order_trans)
  ultimately show ?thesis unfolding consistent_def by blast
qed

lemma sorts:
  assumes "qsort_ok qsort" and "ok (set xs)"
  shows "mset (qsort cmp xs) = mset xs" and "sorted (map key (qsort cmp xs))"
proof -
  from assms cmp_consistent have r: "mset (qsort cmp xs) = mset xs"
    "sorted_wrt (\<lambda>x y. cmp x y \<le> 0) (qsort cmp xs)" by (auto simp: qsort_ok_def)
  then show "mset (qsort cmp xs) = mset xs" by simp
  have "set (qsort cmp xs) = set xs" using r(1) by (metis set_mset_mset)
  with r(2) cmp_le [OF assms(2)] have "sorted_wrt (\<lambda>x y. key x \<le> key y) (qsort cmp xs)"
    by (auto elim: sorted_wrt_mono_rel [rotated])
  then show "sorted (map key (qsort cmp xs))" by (simp add: sorted_map)
qed

end

definition near_services :: "ip_vs_service_entry set \<Rightarrow> bool" where
  "near_services A \<longleftrightarrow> (\<forall>x\<in>A. \<forall>y\<in>A. near (service_key x) (service_key y))"

definition near_dests :: "ip_vs_dest_entry set \<Rightarrow> bool" where
  "near_dests A \<longleftrightarrow> (\<forall>x\<in>A. \<forall>y\<in>A. de_af x = de_af y \<and> near (dest_key x) (dest_key y))"

interpretation services_cmp: key_comparator ipvs_cmp_services service_key near_services
  by unfold_locales (unfold near_services_def, blast intro: cmp_services_agrees)

interpretation dests_cmp: key_comparator ipvs_cmp_dests dest_key near_dests
  by unfold_locales (unfold near_dests_def, blast intro: cmp_dests_agrees)

text \<open>An insertion sort by a comparator, an instance of what C promises.\<close>

fun insert_by :: "('e \<Rightarrow> 'e \<Rightarrow> int) \<Rightarrow> 'e \<Rightarrow> 'e list \<Rightarrow> 'e list" where
  "insert_by cmp x [] = [x]"
| "insert_by cmp x (y # ys) = (if cmp x y \<le> 0 then x # y # ys else y # insert_by cmp x ys)"

definition sort_by :: "('e \<Rightarrow> 'e \<Rightarrow> int) \<Rightarrow> 'e list \<Rightarrow> 'e list" where
  "sort_by cmp xs = foldr (insert_by cmp) xs []"

lemma mset_insert_by [simp]: "mset (insert_by cmp x xs) = add_mset x (mset xs)"
  by (induction xs) auto

lemma set_insert_by [simp]: "set (insert_by cmp x xs) = insert x (set xs)"
  by (induction xs) auto

lemma sorted_insert_by:
  "consistent cmp A \<Longrightarrow> insert x (set xs) \<subseteq> A \<Longrightarrow> sorted_wrt (\<lambda>x y. cmp x y \<le> 0) xs \<Longrightarrow>
   sorted_wrt (\<lambda>x y. cmp x y \<le> 0) (insert_by cmp x xs)"
proof (induction xs)
  case (Cons y ys)
  from Cons.prems have A: "x \<in> A" "y \<in> A" "set ys \<subseteq> A" by auto
  have tr: "cmp x z \<le> 0" if "cmp x y \<le> 0" "cmp y z \<le> 0" "z \<in> A" for z
    using Cons.prems(1) A that unfolding consistent_def by blast
  have "cmp y x \<le> 0" if "\<not> cmp x y \<le> 0"
    using Cons.prems(1) A that unfolding consistent_def by (meson less_imp_le not_le)
  with Cons A tr show ?case by auto
qed simp

lemma qsort_ok_sort_by: "qsort_ok sort_by"
proof -
  have "mset (sort_by cmp xs) = mset xs \<and> set (sort_by cmp xs) = set xs \<and>
      (consistent cmp A \<longrightarrow> set xs \<subseteq> A \<longrightarrow> sorted_wrt (\<lambda>x y. cmp x y \<le> 0) (sort_by cmp xs))"
    for cmp :: "'e \<Rightarrow> 'e \<Rightarrow> int" and xs A
    by (induction xs) (auto simp: sort_by_def intro!: sorted_insert_by)
  then show ?thesis unfolding qsort_ok_def by blast
qed

section \<open>Sorted tables\<close>

text \<open>C25. Sorting a listing whose marks and addresses are less than two to the 31 apart gives the same
  services in the lexicographic order of mark, family, protocol, address and port (in host byte
  order), whatever sorting function keeps the promise of qsort.\<close>

theorem sort_services_sorted:
  assumes "qsort_ok qsort" and "near_services (set (services_view g))"
    and "unat (gs_num_services g) \<le> length (gs_entrytable g)"
  shows "mset (services_view (ipvs_sort_services qsort g ipvs_cmp_services)) = mset (services_view g)
    \<and> sorted (map service_key (services_view (ipvs_sort_services qsort g ipvs_cmp_services)))"
proof -
  have "mset (qsort ipvs_cmp_services (services_view g)) = mset (services_view g)"
    by (rule services_cmp.sorts(1) [OF assms(1,2)])
  then have "length (qsort ipvs_cmp_services (services_view g)) = length (services_view g)"
    by (metis size_mset)
  with assms(3) have view: "services_view (ipvs_sort_services qsort g ipvs_cmp_services) =
      qsort ipvs_cmp_services (services_view g)"
    by (simp add: ipvs_sort_services_def services_view_def)
  show ?thesis unfolding view using services_cmp.sorts [OF assms(1,2)] by simp
qed

definition sample_ports :: "u16 list \<Rightarrow> ip_vs_get_services" where
  "sample_ports ps = \<lparr>gs_block = 0, gs_num_services = of_nat (length ps),
     gs_entrytable = map (\<lambda>p. Some (service_entry_zero\<lparr>se_port := htons p\<rparr>)) ps @ [None]\<rparr>"

lemma sort_services_sorted_witness:
  "map (\<lambda>e. ntohs (se_port e)) (services_view (ipvs_sort_services sort_by (sample_ports [443, 80]) ipvs_cmp_services))
     = [80, 443]
   \<and> sorted (map service_key (services_view (ipvs_sort_services sort_by (sample_ports [443, 80]) ipvs_cmp_services)))"
proof -
  let ?g = "sample_ports [443, 80]"
  have v: "services_view ?g = [service_entry_zero\<lparr>se_port := htons 443\<rparr>, service_entry_zero\<lparr>se_port := htons 80\<rparr>]"
    by (simp add: services_view_def sample_ports_def)
  have "near_services (set (services_view ?g))"
    unfolding v by (simp add: near_services_def service_key_def service_entry_zero_def addr_key_def)
  moreover have "unat (gs_num_services ?g) \<le> length (gs_entrytable ?g)" by (simp add: sample_ports_def)
  ultimately have "sorted (map service_key (services_view (ipvs_sort_services sort_by ?g ipvs_cmp_services)))"
    using sort_services_sorted [OF qsort_ok_sort_by] by blast
  moreover have "map (\<lambda>e. ntohs (se_port e)) (services_view (ipvs_sort_services sort_by ?g ipvs_cmp_services))
     = [80, 443]" by code_simp
  ultimately show ?thesis by simp
qed

text \<open>An IPv4 service of an address given in host byte order.\<close>

definition service_at :: "u32 \<Rightarrow> ip_vs_service_entry" where
  "service_at a = service_entry_zero\<lparr>se_af := AF_INET, se_addr := addr_zero\<lparr>all_0 := htonl a\<rparr>\<rparr>"

text \<open>IPv4 services that differ in address and port only, and the address as a number in host byte order.\<close>

definition same_kind :: "ip_vs_service_entry \<Rightarrow> ip_vs_service_entry \<Rightarrow> bool" where
  "same_kind x y \<longleftrightarrow> se_fwmark x = se_fwmark y \<and> se_af x = se_af y \<and> se_protocol x = se_protocol y
     \<and> se_af x \<noteq> AF_INET6"

definition host_address :: "ip_vs_service_entry \<Rightarrow> int" where
  "host_address e = uint (ntohl (addr_ip (se_addr e)))"

lemma cmp_services_ipv4:
  assumes "same_kind x y" and "host_address x < host_address y"
  shows "ipvs_cmp_services x y < 0 \<longleftrightarrow> host_address y - host_address x \<le> 2 ^ 31"
    and "ipvs_cmp_services y x < 0 \<longleftrightarrow> 2 ^ 31 \<le> host_address y - host_address x"
    and "ipvs_cmp_services x y \<noteq> 0"
proof -
  let ?a = "ntohl (addr_ip (se_addr x))" and ?b = "ntohl (addr_ip (se_addr y))"
  have "uint ?a < uint ?b" using assms(2) by (simp add: host_address_def)
  note far = sub32_far [OF this]
  have same: "sub32 u u = 0" "sub16 v v = 0" for u v by (simp_all add: sub32_def sub16_def)
  have "ipvs_cmp_services x y = sub32 ?a ?b" "ipvs_cmp_services y x = sub32 ?b ?a"
    using assms(1) far(3,4) by (auto simp: ipvs_cmp_services_def cmp_addr_def same_kind_def same)
  with far show "ipvs_cmp_services x y < 0 \<longleftrightarrow> host_address y - host_address x \<le> 2 ^ 31"
    "ipvs_cmp_services y x < 0 \<longleftrightarrow> 2 ^ 31 \<le> host_address y - host_address x" "ipvs_cmp_services x y \<noteq> 0"
    by (simp_all add: host_address_def)
qed

text \<open>C26. The comparator orders two IPv4 services with different addresses (in host byte order, at any
  ports) as their addresses only while these are at most two to the 31 apart: its difference wraps
  around. So it is no order: three services with increasing addresses come each before the next and
  the last before the first exactly when neighbours are at most two to the 31 apart and the outer
  ones at least that, and on such services qsort is given a comparator it makes no promise for.\<close>

theorem cmp_services_cyclic:
  assumes "same_kind x y" and "same_kind y z"
    and "host_address x < host_address y" and "host_address y < host_address z"
  shows "(ipvs_cmp_services x y < 0 \<longleftrightarrow> host_address y - host_address x \<le> 2 ^ 31)
    \<and> (ipvs_cmp_services x y < 0 \<and> ipvs_cmp_services y z < 0 \<and> ipvs_cmp_services z x < 0 \<longleftrightarrow>
        host_address y - host_address x \<le> 2 ^ 31 \<and> host_address z - host_address y \<le> 2 ^ 31
        \<and> 2 ^ 31 \<le> host_address z - host_address x)
    \<and> (host_address y - host_address x \<le> 2 ^ 31 \<and> host_address z - host_address y \<le> 2 ^ 31
        \<and> 2 ^ 31 \<le> host_address z - host_address x \<longrightarrow> \<not> consistent ipvs_cmp_services {x, y, z})"
proof -
  have xz: "same_kind x z" "host_address x < host_address z" using assms by (auto simp: same_kind_def)
  note pairs = cmp_services_ipv4 [OF assms(1,3)] cmp_services_ipv4 [OF assms(2,4)] cmp_services_ipv4 [OF xz]
  have "\<not> consistent ipvs_cmp_services {x, y, z}"
    if "ipvs_cmp_services x y < 0" "ipvs_cmp_services y z < 0" "ipvs_cmp_services z x < 0"
  proof
    assume cons: "consistent ipvs_cmp_services {x, y, z}"
    then have "0 < ipvs_cmp_services x z" using that(3) unfolding consistent_def by blast
    moreover have "ipvs_cmp_services x z \<le> 0"
      using cons that(1,2) unfolding consistent_def by (meson insertI1 insertI2 less_imp_le)
    ultimately show False by simp
  qed
  with pairs show ?thesis by blast
qed

text \<open>10.0.0.1 comes before 110.0.0.1, that before 210.0.0.1, and that before 10.0.0.1 again.\<close>

lemma cmp_services_cyclic_witness:
  "ipvs_cmp_services (service_at 0xD2000001) (service_at 0x0A000001) < 0
   \<and> \<not> consistent ipvs_cmp_services {service_at 0x0A000001, service_at 0x6E000001, service_at 0xD2000001}"
proof -
  let ?x = "service_at 0x0A000001" and ?y = "service_at 0x6E000001" and ?z = "service_at 0xD2000001"
  have host: "host_address ?x = 0x0A000001" "host_address ?y = 0x6E000001" "host_address ?z = 0xD2000001" by code_simp+
  have "same_kind ?x ?y" "same_kind ?y ?z" by code_simp+
  from cmp_services_cyclic [OF this] host show ?thesis by simp
qed

end
