(* ===== verification/LibStrerror.thy ===== *)
theory LibStrerror
  imports LibCommands
begin

text \<open>
  \<^verbatim>\<open>ipvs_strerror\<close> of \<^verbatim>\<open>depend/libipvs/libipvs.c\<close>: the message of an error number, which
  depends on the library function that was called last.
\<close>

text \<open>The table, in its order; None is the null function pointer, which matches every call.\<close>

definition strerror_table :: "(ipvs_fn option \<times> int \<times> string) list" where
  "strerror_table =
     [(Some F_add_service, EEXIST, ''Service already exists''),
      (Some F_add_service, ENOENT, ''Scheduler or persistence engine not found''),
      (Some F_update_service, ESRCH, ''No such service''),
      (Some F_update_service, ENOENT, ''Scheduler or persistence engine not found''),
      (Some F_del_service, ESRCH, ''No such service''),
      (Some F_zero_service, ESRCH, ''No such service''),
      (Some F_add_dest, ESRCH, ''Service not defined''),
      (Some F_add_dest, EEXIST, ''Destination already exists''),
      (Some F_update_dest, ESRCH, ''Service not defined''),
      (Some F_update_dest, ENOENT, ''No such destination''),
      (Some F_del_dest, ESRCH, ''Service not defined''),
      (Some F_del_dest, ENOENT, ''No such destination''),
      (Some F_start_daemon, EEXIST, ''Daemon has already run''),
      (Some F_stop_daemon, ESRCH, ''No daemon is running''),
      (Some F_get_services, ESRCH, ''No such service''),
      (Some F_get_dests, ESRCH, ''No such service''),
      (Some F_get_service, ESRCH, ''No such service''),
      (None, EPERM, ''Permission denied (you must be root)''),
      (None, EINVAL, ''Invalid operation.  Possibly wrong module version, address not unicast, ...''),
      (None, ENOPROTOOPT, ''Protocol not available''),
      (None, ENOMEM, ''Memory allocation problem''),
      (None, EOPNOTSUPP, ''Operation not supported with IPv6''),
      (None, EAFNOSUPPORT, ''Operation not supported with specified address family''),
      (None, EMSGSIZE, ''Module is wrong version'')]"

definition strerror_match :: "ipvs_fn option \<Rightarrow> int \<Rightarrow> ipvs_fn option \<times> int \<times> string \<Rightarrow> bool" where
  "strerror_match func err row \<longleftrightarrow> (fst row = None \<or> fst row = func) \<and> fst (snd row) = err"

definition ipvs_strerror :: "('w, 'm, 'a) sys \<Rightarrow> int \<Rightarrow> 'w lib \<Rightarrow> string" where
  "ipvs_strerror L err s =
     (case find (strerror_match (ipvs_func s) err) strerror_table of
        Some (f, e, message) \<Rightarrow> message
      | None \<Rightarrow> strerror L err)"

text \<open>
  No two rows of the table match the same call and error, so the order of the rows does not
  matter: the message is that of any matching row.
\<close>

definition rows_apart :: "(ipvs_fn option \<times> int \<times> string) \<Rightarrow> (ipvs_fn option \<times> int \<times> string) \<Rightarrow> bool" where
  "rows_apart a b \<longleftrightarrow> fst (snd a) \<noteq> fst (snd b) \<or> (fst a \<noteq> None \<and> fst b \<noteq> None \<and> fst a \<noteq> fst b)"

lemma table_apart: "sorted_wrt rows_apart strerror_table"
  by code_simp

lemma apart_unique:
  "sorted_wrt rows_apart rows \<Longrightarrow> row \<in> set rows \<Longrightarrow> strerror_match func err row \<Longrightarrow>
   find (strerror_match func err) rows = Some row"
proof (induction rows)
  case (Cons r rows)
  show ?case
  proof (cases "strerror_match func err r")
    case True
    with Cons.prems have "r = row"
      by (auto simp: strerror_match_def rows_apart_def)
    with True show ?thesis by simp
  next
    case False
    with Cons.prems have "row \<in> set rows" by auto
    with False Cons show ?thesis by simp
  qed
qed simp

text \<open>C27. The message of an error is that of any row of the table for the function called last, or
  for every function, and the error: no two rows compete. An error without a row gets the
  system's message.\<close>

theorem strerror_lookup:
  "((f, err, m) \<in> set strerror_table \<longrightarrow> f = None \<or> f = ipvs_func s \<longrightarrow> ipvs_strerror L err s = m)
   \<and> ((\<forall>row\<in>set strerror_table. \<not> strerror_match (ipvs_func s) err row) \<longrightarrow>
      ipvs_strerror L err s = strerror L err)"
proof (intro conjI impI)
  assume row: "(f, err, m) \<in> set strerror_table" "f = None \<or> f = ipvs_func s"
  then have "strerror_match (ipvs_func s) err (f, err, m)" by (simp add: strerror_match_def)
  from apart_unique [OF table_apart row(1) this] show "ipvs_strerror L err s = m"
    by (simp add: ipvs_strerror_def)
next
  assume "\<forall>row\<in>set strerror_table. \<not> strerror_match (ipvs_func s) err row"
  then have "find (strerror_match (ipvs_func s) err) strerror_table = None" by (simp add: find_None_iff)
  then show "ipvs_strerror L err s = strerror L err" by (simp add: ipvs_strerror_def)
qed

lemma strerror_lookup_witness:
  "ipvs_strerror (sample_sys True) ENOENT ((lib_start [])\<lparr>ipvs_func := Some F_update_dest\<rparr>) = ''No such destination''
   \<and> ipvs_strerror (sample_sys True) EEXIST ((lib_start [])\<lparr>ipvs_func := Some F_update_dest\<rparr>) = ''Unknown error''"
proof
  let ?s = "(lib_start ([] :: kernel))\<lparr>ipvs_func := Some F_update_dest\<rparr>"
  have "(Some F_update_dest, ENOENT, ''No such destination'') \<in> set strerror_table"
    by (simp add: strerror_table_def)
  moreover have "Some F_update_dest = ipvs_func ?s" by simp
  ultimately show "ipvs_strerror (sample_sys True) ENOENT ?s = ''No such destination''"
    using strerror_lookup [THEN conjunct1, rule_format] by blast
  have "\<forall>row\<in>set strerror_table. \<not> strerror_match (ipvs_func ?s) EEXIST row"
    by (simp add: strerror_table_def strerror_match_def)
  then have "ipvs_strerror (sample_sys True) EEXIST ?s = strerror (sample_sys True) EEXIST"
    using strerror_lookup [THEN conjunct2, rule_format] by blast
  then show "ipvs_strerror (sample_sys True) EEXIST ?s = ''Unknown error''" by (simp add: sample_sys_def)
qed

end
