(* ===== verification/LibProperties.thy ===== *)
theory LibProperties
  imports LibQueryContract LibCompare LibStrerror
begin

text \<open>
  The properties of the library that combine its parts: what a query lists, where a query
  leaves its table, what a service reads back as, what an error is reported as, and what
  start-up leaves behind.
\<close>

section \<open>Starting\<close>

interpretation getinfo: nl_callback "ipvs_getinfo_parse_cb L" "\<lambda>_ _. True" "\<lambda>_. True" for L
  by unfold_locales (auto simp: ipvs_getinfo_parse_cb_def NL_OK_def quiet_def split: option.splits)

context nl_callback
begin

lemma send_family:
  assumes "ipvs_nl_send_message L (Some m) cb r s = (0, r', t)"
  shows "0 \<le> family t"
  using assms
  by (auto simp: ipvs_nl_send_message_def Let_def release_def nlmsg_free_def quiet_def
      split: prod.splits if_splits dest!: deliver_quiet)

end

lemma getinfo_nl:
  assumes "nl_mode L s" and "ipvs_getinfo L s = (r, t)"
  shows "(r = 0 \<or> r = -1) \<and> live t = live s \<and> ub t = ub s \<and> try_nl t = try_nl s \<and> sockfd t = sockfd s
    \<and> (r = 0 \<longrightarrow> 0 \<le> family t)"
proof -
  obtain m s1 where msg: "ipvs_nl_message L IPVS_CMD_GET_INFO False s = (m, s1)" by fastforce
  show ?thesis
  proof (cases m)
    case None
    have "ub s1 = ub s" using msg None
      by (auto simp: ipvs_nl_message_def acquire_def Let_def split: prod.splits if_splits)
    with ipvs_nl_message_None [OF msg [unfolded None]] msg None assms show ?thesis
      by (auto simp: ipvs_getinfo_def quiet_def)
  next
    case (Some m0)
    from ipvs_nl_message_Some [OF msg [unfolded Some]]
    have s1: "quiet (s\<lparr>next_id := Suc (next_id s), live := Msg (msg_id m0) # live s\<rparr>) s1" "ub s1 = ub s"
      by simp_all
    then have live: "live s1 = Msg (msg_id m0) # live s" by (simp add: quiet_def)
    obtain c u s2 where snd: "ipvs_nl_send_message L (Some m0) (ipvs_getinfo_parse_cb L) () s1 = (c, u, s2)"
      by (metis prod_cases3)
    have "r = c" "t = s2" using assms msg Some snd by (simp_all add: ipvs_getinfo_def)
    moreover have "c = 0 \<Longrightarrow> 0 \<le> family s2" using snd getinfo.send_family by blast
    ultimately show ?thesis
      using getinfo.send_effect [OF snd live] getinfo.send_safe [OF snd live] s1
      by (auto simp: quiet_def list_all_iff)
  qed
qed

lemma raw_socket_outcome:
  assumes "open_raw_socket L s = (r, t)"
  shows "(r = 0 \<or> r = -1) \<and> (live t = live s \<or> live t = Fd (sockfd t) # live s) \<and> ub t = ub s \<and> try_nl t = try_nl s
    \<and> (r = 0 \<longrightarrow> live t = Fd (sockfd t) # live s)"
  using assms
  by (auto simp: open_raw_socket_def call_getsockopt_info_def set_errno_def Let_def
      split: prod.splits sum.splits)

text \<open>The library can talk to the kernel: the family is known, or a raw socket is open.\<close>

definition transport_ready :: "('w, 'm, 'a) sys \<Rightarrow> 'w lib \<Rightarrow> bool" where
  "transport_ready L s \<longleftrightarrow> (if nl_mode L s then 0 \<le> family s else Fd (sockfd s) \<in> set (live s))"

lemma init_outcome:
  assumes "ipvs_init L s = (r, t)"
  shows "(r = 0 \<or> r = -1) \<and> ub t = ub s
    \<and> (r = 0 \<longrightarrow> transport_ready L t \<and> live (ipvs_close L t) = live s)
    \<and> (live t = live s \<or> live t = Fd (sockfd t) # live s)"
proof (cases "libipvs_use_nl L")
  case False
  with assms have "open_raw_socket L (s\<lparr>ipvs_func := Some F_init\<rparr>) = (r, t)"
    by (simp add: ipvs_init_def)
  from raw_socket_outcome [OF this] False show ?thesis
    by (auto simp: transport_ready_def nl_mode_def ipvs_close_def)
next
  case True
  let ?s = "s\<lparr>ipvs_func := Some F_init, try_nl := True\<rparr>"
  obtain c u s1 where probe: "ipvs_nl_send_message L None ipvs_nl_noop_cb () ?s = (c, u, s1)"
    by (metis prod_cases3)
  note p = send_probe [OF probe]
  show ?thesis
  proof (cases "c = 0")
    case c: True
    with True assms probe have "ipvs_getinfo L (s1\<lparr>try_nl := True\<rparr>) = (r, t)"
      by (simp add: ipvs_init_def)
    from getinfo_nl [OF _ this] True p show ?thesis
      by (auto simp: nl_mode_def transport_ready_def ipvs_close_def)
  next
    case c: False
    with True assms probe have "open_raw_socket L (s1\<lparr>try_nl := False\<rparr>) = (r, t)"
      by (simp add: ipvs_init_def)
    from raw_socket_outcome [OF this] p show ?thesis
      by (auto simp: nl_mode_def transport_ready_def ipvs_close_def)
  qed
qed


text \<open>C17. Starting the library returns 0 or -1 without undefined behaviour. When it returns 0 the
  library has a transport (netlink with the family resolved, or else an open raw socket), and closing
  it gives back everything the start acquired; a start that fails acquired nothing but, possibly,
  the raw socket.\<close>

theorem init_transport:
  assumes "ipvs_init L s = (r, t)"
  shows "(r = 0 \<or> r = -1) \<and> ub t = ub s
    \<and> (r = 0 \<longrightarrow> transport_ready L t \<and> live (ipvs_close L t) = live s)
    \<and> (live t = live s \<or> live t = Fd (sockfd t) # live s)"
  by (rule init_outcome [OF assms])

lemma init_transport_witness:
  "\<exists>t. ipvs_init (sample_sys False) (lib_start []) = (0, t) \<and> transport_ready (sample_sys False) t
     \<and> live (ipvs_close (sample_sys False) t) = []"
proof -
  let ?r = "ipvs_init (sample_sys False) (lib_start [])"
  have "fst ?r = 0" by code_simp
  then have run: "?r = (0, snd ?r)" by (metis prod.collapse)
  from init_transport [OF run] have "transport_ready (sample_sys False) (snd ?r)
      \<and> live (ipvs_close (sample_sys False) (snd ?r)) = live (lib_start ([] :: kernel))" by simp
  with run show ?thesis by (auto simp: lib_start_def)
qed

section \<open>Commands and requests\<close>

text \<open>C13. A command that returns 0 has made exactly one request of the kernel, the one it stands for,
  with all of its arguments; a command that fails has made that request or none.\<close>

theorem exec_command_request:
  assumes "exec_command L c s = (r, t)"
  shows "(r = 0 \<longrightarrow> sent t = sent s @ [request_of L c s])
    \<and> (sent t = sent s \<or> sent t = sent s @ [request_of L c s])"
  using cmd.op_done [of L c s t] cmd.op_sent [OF assms] assms by blast

lemma exec_command_request_witness:
  "sent (snd (exec_command (sample_sys False) (UpdateDest sample_service sample_dest) (lib_start []))) =
     [SoRequest IP_VS_SO_SET_EDITDEST (SoServiceDest
        \<lparr>svck_protocol = 6, svck_addr = 0x0100000A, svck_port = 0x5000, svck_fwmark = 0,
         svck_sched_name = ''wlc'', svck_flags = 0, svck_timeout = 0, svck_netmask = 0\<rparr>
        \<lparr>dstk_addr = 0x0200000A, dstk_port = 0x5000, dstk_conn_flags = 0, dstk_weight = 5,
         dstk_u_threshold = 0, dstk_l_threshold = 0\<rparr>)]"
proof -
  let ?L = "sample_sys False" and ?c = "UpdateDest sample_service sample_dest"
  let ?r = "exec_command ?L ?c (lib_start [])"
  have "fst ?r = 0" by code_simp
  then have run: "?r = (0, snd ?r)" by (metis prod.collapse)
  have "sent (snd ?r) = [request_of ?L ?c (lib_start [])]"
    using exec_command_request [OF run] by (simp add: lib_start_def)
  also have "\<dots> = [SoRequest IP_VS_SO_SET_EDITDEST (SoServiceDest
        \<lparr>svck_protocol = 6, svck_addr = 0x0100000A, svck_port = 0x5000, svck_fwmark = 0,
         svck_sched_name = ''wlc'', svck_flags = 0, svck_timeout = 0, svck_netmask = 0\<rparr>
        \<lparr>dstk_addr = 0x0200000A, dstk_port = 0x5000, dstk_conn_flags = 0, dstk_weight = 5,
         dstk_u_threshold = 0, dstk_l_threshold = 0\<rparr>)]" by code_simp
  finally show ?thesis .
qed

text \<open>The address families of a command's arguments.\<close>

fun command_families :: "command \<Rightarrow> u16 list" where
  "command_families (AddService svc) = [svc_af svc]"
| "command_families (UpdateService svc) = [svc_af svc]"
| "command_families (DelService svc) = [svc_af svc]"
| "command_families (ZeroService svc) = [svc_af svc]"
| "command_families (AddDest svc dst) = [svc_af svc, dst_af dst]"
| "command_families (UpdateDest svc dst) = [svc_af svc, dst_af dst]"
| "command_families (DelDest svc dst) = [svc_af svc, dst_af dst]"
| "command_families _ = []"

lemma service_command_ipv6:
  "\<not> nl_mode L s \<Longrightarrow> svc_af svc = AF_INET6 \<Longrightarrow>
   service_command L fn cmd opt svc s = (-1, svc, set_errno EAFNOSUPPORT (s\<lparr>ipvs_func := Some fn\<rparr>))"
  by (simp add: service_command_def check_compat_svc_def)

lemma dest_command_ipv6:
  assumes "\<not> nl_mode L s" and "svc_af svc = AF_INET6 \<or> dst_af dst = AF_INET6"
  shows "\<exists>svc'. dest_command L cmd opt svc dst s = (-1, svc', dst, set_errno EAFNOSUPPORT s)"
proof (cases rule: check_compat_svc_cases [of svc s])
  case 1
  with assms show ?thesis by (auto simp: dest_command_def check_compat_svc_def check_compat_dest_def)
next
  case (2 svc')
  with assms show ?thesis by (simp add: dest_command_def)
qed

lemma zero_service_ipv6:
  "\<not> nl_mode L s \<Longrightarrow> svc_af svc = AF_INET6 \<Longrightarrow>
   ipvs_zero_service L svc s = (-1, svc, set_errno EAFNOSUPPORT (s\<lparr>ipvs_func := Some F_zero_service\<rparr>))"
  by (simp add: ipvs_zero_service_def check_compat_svc_def)

lemma dest_exec_ipv6:
  assumes "\<not> nl_mode L s" and "svc_af svc = AF_INET6 \<or> dst_af dst = AF_INET6"
    and "dest_command L cmd opt svc dst (s\<lparr>ipvs_func := f\<rparr>) = (r, svc', dst', t)"
  shows "r = -1 \<and> errno t = EAFNOSUPPORT \<and> sent t = sent s"
  using dest_command_ipv6 [of L "s\<lparr>ipvs_func := f\<rparr>" svc dst cmd opt] assms
  by (auto simp: set_errno_def)

text \<open>C22. Without netlink a command on an IPv6 service or destination is refused with
  EAFNOSUPPORT before the kernel is asked.\<close>

theorem ipv6_needs_netlink:
  assumes "\<not> nl_mode L s" and "AF_INET6 \<in> set (command_families c)"
    and "exec_command L c s = (r, t)"
  shows "r = -1 \<and> errno t = EAFNOSUPPORT \<and> sent t = sent s"
proof (cases c)
  case (AddDest svc dst)
  with assms obtain f svc' dst' where
    "dest_command L IPVS_CMD_NEW_DEST IP_VS_SO_SET_ADDDEST svc dst (s\<lparr>ipvs_func := f\<rparr>) = (r, svc', dst', t)"
    using that [of "if libipvs_use_nl L then Some F_add_dest else ipvs_func s"]
    by (cases "libipvs_use_nl L") (simp_all add: ipvs_add_dest_def split: prod.splits)
  from dest_exec_ipv6 [OF assms(1) _ this] AddDest assms(2) show ?thesis by auto
next
  case (UpdateDest svc dst)
  with assms(3) obtain svc' dst' where
    "dest_command L IPVS_CMD_SET_DEST IP_VS_SO_SET_EDITDEST svc dst (s\<lparr>ipvs_func := Some F_update_dest\<rparr>) = (r, svc', dst', t)"
    by (simp add: ipvs_update_dest_def split: prod.splits)
  from dest_exec_ipv6 [OF assms(1) _ this] UpdateDest assms(2) show ?thesis by auto
next
  case (DelDest svc dst)
  with assms(3) obtain svc' dst' where
    "dest_command L IPVS_CMD_DEL_DEST IP_VS_SO_SET_DELDEST svc dst (s\<lparr>ipvs_func := Some F_del_dest\<rparr>) = (r, svc', dst', t)"
    by (simp add: ipvs_del_dest_def split: prod.splits)
  from dest_exec_ipv6 [OF assms(1) _ this] DelDest assms(2) show ?thesis by auto
qed (use assms in \<open>auto simp: ipvs_add_service_def ipvs_update_service_def ipvs_del_service_def
      service_command_ipv6 zero_service_ipv6 set_errno_def\<close>)

lemma ipv6_needs_netlink_witness:
  "fst (exec_command (sample_sys False) (AddService (sample_service\<lparr>svc_af := AF_INET6\<rparr>)) (lib_start [])) = -1"
proof -
  let ?c = "AddService (sample_service\<lparr>svc_af := AF_INET6\<rparr>)"
  have "\<not> nl_mode (sample_sys False) (lib_start [])" by code_simp
  moreover have "AF_INET6 \<in> set (command_families ?c)" by simp
  ultimately show ?thesis
    using ipv6_needs_netlink [of "sample_sys False" "lib_start []" ?c,
        OF _ _ prod.collapse [symmetric]] by blast
qed


section \<open>Listing\<close>

lemma decode_service_num_dests: "decode_service L m = Some e \<Longrightarrow> se_num_dests e = 0"
  by (auto simp: decode_service_def Let_def split: option.splits if_splits prod.splits)

text \<open>C15. A netlink listing of the services holds exactly the services of the kernel's messages, in the
  order of the messages and none refused, in one new block, and no undefined behaviour happened
  (no write outside the table as it grew).\<close>

theorem get_services_lists_answers:
  assumes "nl_mode L s" and "answers_ok L (services_wf L)" and "ipvs_get_services L s = (Some g, t)"
  shows "(\<exists>w ms. fst (nl_recvmsgs L w) = ms \<and> map Some (services_view g) = map (decode_service L) ms)
    \<and> list_all (\<lambda>e. se_num_dests e = 0) (services_view g)
    \<and> live t = Blk (gs_block g) # live s \<and> ub t = ub s"
proof -
  from assms(1,3) have nl: "get_services_nl L s = (Some g, t)" by (simp add: ipvs_get_services_def)
  from get_services_nl_lists [OF assms(2) nl] obtain w ms where ms: "fst (nl_recvmsgs L w) = ms"
    "list_all (\<lambda>m. decode_service L m \<noteq> None) ms" "services_view g = map (\<lambda>m. the (decode_service L m)) ms"
    by auto
  then have "map Some (services_view g) = map (decode_service L) ms" by (auto simp: list_all_iff)
  moreover have "list_all (\<lambda>e. se_num_dests e = 0) (services_view g)"
    using ms by (auto simp: list_all_iff intro: decode_service_num_dests)
  ultimately show ?thesis
    using get_services_nl_ok [OF assms(2) nl] ms(1) by (auto simp: fetched_def)
qed

text \<open>A kernel with two services, one by address and one by firewall mark.\<close>

definition sample_services :: kernel where
  "sample_services =
     [[[(1, ANest [(1, A16 2), (2, A16 6), (3, AAddr (addr_zero\<lparr>all_0 := 0x0100000A\<rparr>)), (4, A16 0x5000),
                   (6, AStr ''wlc''), (9, A32 0xFFFFFFFF), (8, A32 0), (7, AFlags \<lparr>fl_flags = 0, fl_mask = 0\<rparr>)])],
       [(1, ANest [(1, A16 2), (5, A32 7), (6, AStr ''rr''), (9, A32 0xFFFFFFFF), (8, A32 300),
                   (7, AFlags \<lparr>fl_flags = 1, fl_mask = 1\<rparr>)])]]]"

lemma sample_recvmsgs_short: "length (fst (sample_recvmsgs w)) \<le> 4096"
  by (cases w rule: sample_recvmsgs.cases) simp_all

lemma sample_answers_ok:
  "answers_ok (sample_sys nl) (services_wf (sample_sys nl))" "answers_ok (sample_sys nl) (dests_wf (sample_sys nl))"
  "realloc_total (sample_sys nl)"
proof -
  show re: "realloc_total (sample_sys nl)" by (simp add: realloc_total_def sample_sys_def)
  have "\<not> overread (sample_sys nl) a" for a by (simp add: overread_def sample_sys_def split: option.split)
  with re have wf: "services_wf (sample_sys nl) m" "dests_wf (sample_sys nl) m" for m
    by (simp_all add: services_wf_def dests_wf_def split: option.split)
  have "nl_recvmsgs (sample_sys nl) = sample_recvmsgs" by (simp add: sample_sys_def)
  with wf sample_recvmsgs_short show "answers_ok (sample_sys nl) (services_wf (sample_sys nl))"
    "answers_ok (sample_sys nl) (dests_wf (sample_sys nl))"
    by (simp_all add: answers_ok_def list_all_iff le_less_trans [of _ 4096])
qed

lemma get_services_lists_answers_witness:
  "\<exists>g t. ipvs_get_services (sample_sys True) (lib_start sample_services) = (Some g, t)
     \<and> map (\<lambda>e. (se_port e, se_fwmark e, se_sched_name e)) (services_view g) = [(0x5000, 0, ''wlc''), (0, 7, ''rr'')]
     \<and> live t = [Blk (gs_block g)]"
proof -
  let ?L = "sample_sys True" and ?s = "lib_start sample_services"
  let ?r = "ipvs_get_services ?L ?s"
  have mode: "nl_mode ?L ?s" by code_simp
  have v: "map_option (\<lambda>g. map (\<lambda>e. (se_port e, se_fwmark e, se_sched_name e)) (services_view g)) (fst ?r) =
      Some [(0x5000, 0, ''wlc''), (0, 7, ''rr'')]" by code_simp
  then obtain g where g: "fst ?r = Some g" by (cases "fst ?r") simp_all
  then have run: "?r = (Some g, snd ?r)" by (metis prod.collapse)
  from get_services_lists_answers [OF mode sample_answers_ok(1) run] have "live (snd ?r) = [Blk (gs_block g)]"
    by (simp add: lib_start_def)
  with run v g show ?thesis by (intro exI [of _ g] exI [of _ "snd ?r"]) simp
qed

text \<open>C23. Over netlink, asking for the destinations of a service that a listing of the services gave
  is safe and lists exactly the destinations of the kernel's answer, read with the family of the
  service where a message has none; the answer is in one new block.\<close>

theorem listed_service_dests:
  assumes "nl_mode L s" and "realloc_total L"
    and "answers_ok L (services_wf L)" and "answers_ok L (dests_wf L)"
    and "ipvs_get_services L s = (Some g, t)" and "svc \<in> set (services_view g)"
    and "ipvs_get_dests L svc t = (Some d, u)"
  shows "(\<exists>w ms. fst (nl_recvmsgs L w) = ms \<and> map Some (dests_view d) = map (decode_dest L (se_af svc)) ms)
    \<and> live u = Blk (gd_block d) # Blk (gs_block g) # live s \<and> ub u = ub s"
proof -
  from assms(1,5) have nl: "get_services_nl L s = (Some g, t)" by (simp add: ipvs_get_services_def)
  from get_services_nl_ok [OF assms(3) nl] have st: "fetched s (Some (gs_block g)) t" by simp
  then have mode: "nl_mode L t" using assms(1) by (simp add: fetched_def nl_mode_def)
  from get_services_nl_lists [OF assms(3) nl] assms(6) obtain m where "decode_service L m = Some svc"
    by (auto simp: list_all_iff)
  then have num: "se_num_dests svc = 0" by (rule decode_service_num_dests)
  have "dests_ok L svc t" using mode num assms(2,4) by (simp add: dests_ok_def)
  from get_dests_ok [OF this assms(7)] have tu: "fetched t (Some (gd_block d)) u" by simp
  obtain b s1 where m: "malloc_block L 40 t = (b, s1)" by fastforce
  have mode1: "nl_mode L s1" using malloc_block_fetched [OF m] mode by (simp add: fetched_def nl_mode_def)
  have sizes: "block_len 40 200 0 = 40" "block_room 40 200 0 = 0" by code_simp+
  obtain b0 where "get_dests_nl L svc ((heap_dests L)\<lparr>gd_block := b0, gd_entrytable := []\<rparr>)
      (s1\<lparr>ipvs_func := Some F_get_dests\<rparr>) = (Some d, u)"
    using assms(7) m mode1 num sizes
    by (cases b) (auto simp: ipvs_get_dests_def write_header_def Let_def)
  from get_dests_nl_outcome [OF num assms(2,4) _ this] obtain w ms where ms: "fst (nl_recvmsgs L w) = ms"
    "list_all (\<lambda>m. decode_dest L (se_af svc) m \<noteq> None) ms"
    "dests_view d = map (\<lambda>m. the (decode_dest L (se_af svc) m)) ms" by auto
  then have "map Some (dests_view d) = map (decode_dest L (se_af svc)) ms" by (auto simp: list_all_iff)
  with ms(1) st tu show ?thesis by (auto simp: fetched_def)
qed

definition sample_dests :: "message list" where
  "sample_dests =
     [[(2, ANest [(1, AAddr (addr_zero\<lparr>all_0 := 0x0200000A\<rparr>)), (2, A16 0x5000), (3, A32 0), (4, A32 5),
                  (5, A32 0), (6, A32 0), (7, A32 12), (8, A32 3), (9, A32 0)])]]"

lemma listed_service_dests_witness:
  "\<exists>g t svc d u. ipvs_get_services (sample_sys True) (lib_start (sample_services @ [sample_dests])) = (Some g, t)
     \<and> svc \<in> set (services_view g) \<and> ipvs_get_dests (sample_sys True) svc t = (Some d, u)
     \<and> map (\<lambda>e. (de_weight e, de_af e)) (dests_view d) = [(5, AF_INET)] \<and> length (live u) = 2"
proof -
  let ?L = "sample_sys True" and ?s = "lib_start (sample_services @ [sample_dests])"
  let ?r = "ipvs_get_services ?L ?s"
  let ?svc = "hd (services_view (the (fst ?r)))"
  let ?q = "ipvs_get_dests ?L ?svc (snd ?r)"
  have mode: "nl_mode ?L ?s" by code_simp
  have "map_option (\<lambda>g. services_view g \<noteq> []) (fst ?r) = Some True" by code_simp
  then obtain g where g: "fst ?r = Some g" "services_view g \<noteq> []" by (cases "fst ?r") simp_all
  then have run: "?r = (Some g, snd ?r)" by (metis prod.collapse)
  have svc: "?svc \<in> set (services_view g)" using g by simp
  have v: "map_option (\<lambda>d. map (\<lambda>e. (de_weight e, de_af e)) (dests_view d)) (fst ?q) = Some [(5, AF_INET)]"
    by code_simp
  then obtain d where d: "fst ?q = Some d" by (cases "fst ?q") simp_all
  then have run2: "?q = (Some d, snd ?q)" by (metis prod.collapse)
  from listed_service_dests [OF mode sample_answers_ok(3,1,2) run svc run2]
  have "length (live (snd ?q)) = 2" by (simp add: lib_start_def)
  with run svc run2 v d show ?thesis
    by (intro exI [of _ g] exI [of _ "snd ?r"] exI [of _ ?svc] exI [of _ d] exI [of _ "snd ?q"]) simp
qed

section \<open>Where a query goes wrong\<close>

text \<open>C24. The destinations callback writes to the slot its table counts: with a table that has no
  more slots than it counts (as a netlink query makes for a service whose entry states a number
  of destinations other than 0) the first message of a destination is a write outside the block.\<close>

theorem dests_callback_overflow:
  assumes "dest_attrs L m \<noteq> None" and "length (gd_entrytable d) \<le> unat (gd_num_dests d)"
  shows "ub (snd (snd (ipvs_dests_parse_cb L m (Some d) s)))"
proof -
  from assms(1) obtain attrs nest at where msg: "genlmsg_parse L m IPVS_CMD_ATTR_MAX ipvs_cmd_policy = Some attrs"
    "attrs IPVS_CMD_ATTR_DEST = Some nest"
    "nla_parse_nested L nest IPVS_DEST_ATTR_MAX ipvs_dest_policy = Some at"
    by (auto simp: dest_attrs_def split: option.splits)
  obtain d' s' where put: "put_dest (gd_num_dests d) dest_entry_zero d s = (d', s')" by fastforce
  have "nat (sint (gd_num_dests d)) = unat (gd_num_dests d)" if "0 \<le> sint (gd_num_dests d)"
  proof -
    have "take_bit 32 (uint (gd_num_dests d)) = uint (gd_num_dests d)"
      using uint_bounded [of "gd_num_dests d"] by (simp add: take_bit_int_eq_self)
    moreover have "\<not> bit (uint (gd_num_dests d)) 31" using that by (simp add: sint_uint)
    ultimately have "sint (gd_num_dests d) = uint (gd_num_dests d)"
      by (simp add: sint_uint signed_take_bit_eq_take_bit_minus)
    then show ?thesis by (simp only: unat_eq_nat_uint)
  qed
  with put assms(2) have "ub s'"
    by (cases "0 \<le> sint (gd_num_dests d)")
      (auto simp: put_dest_def table_put_def undefined_behaviour_def split: if_splits)
  moreover obtain c r t where cb: "ipvs_dests_parse_cb L m (Some d) s = (c, r, t)" by (metis prod_cases3)
  have "quiet s' t"
    using cb msg put
    by (auto simp: ipvs_dests_parse_cb_def Let_def split: option.splits prod.splits if_splits
        dest!: put_dest_quiet realloc_table_quiet)
      (meson quiet_trans read_payload_quiet)+
  ultimately show ?thesis using cb by (simp add: quiet_def)
qed

text \<open>The library's own query reaches that state for an entry that states one destination.\<close>

lemma dests_callback_overflow_witness:
  "ub (snd (snd (ipvs_dests_parse_cb (sample_sys True) (hd sample_dests)
     (Some (dests_header (service_entry_zero\<lparr>se_num_dests := 1\<rparr>)
        ((heap_dests (sample_sys True))\<lparr>gd_entrytable := [None]\<rparr>))) (lib_start []))))
   \<and> ub (snd (ipvs_get_dests (sample_sys True) (service_entry_zero\<lparr>se_num_dests := 1\<rparr>) (lib_start [sample_dests])))"
proof
  let ?d = "dests_header (service_entry_zero\<lparr>se_num_dests := 1\<rparr>) ((heap_dests (sample_sys True))\<lparr>gd_entrytable := [None]\<rparr>)"
  have "map_option (\<lambda>_. ()) (dest_attrs (sample_sys True) (hd sample_dests)) = Some ()" by code_simp
  then have "dest_attrs (sample_sys True) (hd sample_dests) \<noteq> None" by auto
  moreover have "length (gd_entrytable ?d) \<le> unat (gd_num_dests ?d)" by code_simp
  ultimately show "ub (snd (snd (ipvs_dests_parse_cb (sample_sys True) (hd sample_dests) (Some ?d) (lib_start []))))"
    by (rule dests_callback_overflow)
  show "ub (snd (ipvs_get_dests (sample_sys True) (service_entry_zero\<lparr>se_num_dests := 1\<rparr>) (lib_start [sample_dests])))"
    by code_simp
qed

end
