(* ===== verification/LibRoundTrip.thy ===== *)
theory LibRoundTrip
  imports LibProperties
begin

text \<open>
  What is read back: a service the kernel echoes as it was set, the counters of services and
  of destinations, and the error a refused answer is reported as.
\<close>

section \<open>A service that is echoed\<close>

text \<open>
  The attributes of a message carry what a sequence of puts wrote: libnl's accessors give back
  the value put under each type, and no other type is present. Strings come back up to
  their NUL.
\<close>

fun carries :: "('w, 'm, 'a) sys \<Rightarrow> (nat \<Rightarrow> 'a option) \<Rightarrow> nl_item \<Rightarrow> bool" where
  "carries L at (NestStart t) = True"
| "carries L at NestEnd = True"
| "carries L at (PutU8 t x) = (case at t of Some a \<Rightarrow> nla_get_u8 L a = x | None \<Rightarrow> False)"
| "carries L at (PutU16 t x) = (case at t of Some a \<Rightarrow> nla_get_u16 L a = x | None \<Rightarrow> False)"
| "carries L at (PutU32 t x) = (case at t of Some a \<Rightarrow> nla_get_u32 L a = x | None \<Rightarrow> False)"
| "carries L at (PutString t x) = (case at t of Some a \<Rightarrow> nla_get_string L a = x | None \<Rightarrow> False)"
| "carries L at (PutAddr t x) = (case at t of Some a \<Rightarrow> nla_addr L a = x | None \<Rightarrow> False)"
| "carries L at (PutFlags t x) = (case at t of Some a \<Rightarrow> nla_flags L a = x | None \<Rightarrow> False)"

fun put_type :: "nl_item \<Rightarrow> nat option" where
  "put_type (NestStart t) = None"
| "put_type NestEnd = None"
| "put_type (PutU8 t x) = Some t"
| "put_type (PutU16 t x) = Some t"
| "put_type (PutU32 t x) = Some t"
| "put_type (PutString t x) = Some t"
| "put_type (PutAddr t x) = Some t"
| "put_type (PutFlags t x) = Some t"

definition echoes :: "('w, 'm, 'a) sys \<Rightarrow> nat \<Rightarrow> nl_item list \<Rightarrow> (nat \<Rightarrow> 'a option) \<Rightarrow> bool" where
  "echoes L n items at \<longleftrightarrow> list_all (carries L at) items
     \<and> list_all (\<lambda>t. Some t \<notin> put_type ` set items \<longrightarrow> at t = None) [0..<Suc n]"

text \<open>What is left of a service in the entry of a listing.\<close>

definition entry_of_service :: "ip_vs_service_user \<Rightarrow> ip_vs_service_entry" where
  "entry_of_service svc =
     (let e = service_entry_zero\<lparr>se_af := svc_af svc, se_sched_name := svc_sched_name svc,
                se_pe_name := svc_pe_name svc, se_flags := svc_flags svc, se_timeout := svc_timeout svc,
                se_netmask := svc_netmask svc\<rparr>
      in if svc_fwmark svc \<noteq> 0 then e\<lparr>se_fwmark := svc_fwmark svc\<rparr>
         else e\<lparr>se_protocol := svc_protocol svc, se_addr := svc_addr svc, se_port := svc_port svc\<rparr>)"

definition name_ok :: "string \<Rightarrow> bool" where
  "name_ok s \<longleftrightarrow> NUL \<notin> set s \<and> length s \<le> 16"

lemma name_ok_strncpy: "name_ok s \<Longrightarrow> strncpy s 16 = s"
  by (simp add: name_ok_def strncpy_id)

lemma echoed_service:
  assumes e: "echoes L IPVS_SVC_ATTR_MAX (service_items svc) at"
    and n: "name_ok (svc_sched_name svc)" "name_ok (svc_pe_name svc)"
  shows "service_complete at \<and> service_entry L at = entry_of_service svc
    \<and> at IPVS_SVC_ATTR_STATS = None \<and> at IPVS_SVC_ATTR_STATS64 = None"
proof -
  have c: "list_all (carries L at) (service_items svc)" using e by (simp add: echoes_def)
  have absent: "at t = None" if "Some t \<notin> put_type ` set (service_items svc)" "t \<le> 12" for t
    using e that by (auto simp: echoes_def list_all_iff less_Suc_eq_le)
  have stats: "at 10 = None" "at 12 = None"
    by (rule absent; auto simp: service_items_def split: if_splits)+
  have pe: "at 11 = None" if "svc_pe_name svc = []"
    by (rule absent) (auto simp: service_items_def that split: if_splits)
  have fw: "at 5 = None" if "svc_fwmark svc = 0"
    by (rule absent) (auto simp: service_items_def that split: if_splits)
  note defs = service_items_def service_complete_def service_entry_def entry_of_service_def flags_of_def
  show ?thesis
  proof (cases "svc_fwmark svc = 0"; cases "svc_pe_name svc = []")
    assume "svc_fwmark svc = 0" "svc_pe_name svc = []"
    with c stats pe fw n show ?thesis
      by (auto simp: defs Let_def name_ok_strncpy service_entry_zero_def split: option.splits)
  next
    assume "svc_fwmark svc = 0" "svc_pe_name svc \<noteq> []"
    with c stats fw n show ?thesis
      by (auto simp: defs Let_def name_ok_strncpy service_entry_zero_def split: option.splits)
  next
    assume "svc_fwmark svc \<noteq> 0" "svc_pe_name svc = []"
    with c stats pe n show ?thesis
      by (auto simp: defs Let_def name_ok_strncpy service_entry_zero_def split: option.splits)
  next
    assume "svc_fwmark svc \<noteq> 0" "svc_pe_name svc \<noteq> []"
    with c stats n show ?thesis
      by (auto simp: defs Let_def name_ok_strncpy service_entry_zero_def split: option.splits)
  qed
qed

text \<open>C28. A service that the kernel answers with the attributes the library puts into its own messages
  is listed as it was set: mark or protocol, address and port, family, scheduler, persistence
  engine, flags, timeout and netmask.\<close>

theorem service_echo_roundtrip:
  assumes "service_attrs L m = Some at" and "echoes L IPVS_SVC_ATTR_MAX (service_items svc) at"
    and "name_ok (svc_sched_name svc)" and "name_ok (svc_pe_name svc)"
  shows "decode_service L m = Some (entry_of_service svc)"
proof -
  have "entry_of_service svc = (entry_of_service svc)\<lparr>se_stats64 := se_stats64 (entry_of_service svc), se_num_dests := 0\<rparr>"
    by (simp add: entry_of_service_def service_entry_zero_def Let_def)
  with echoed_service [OF assms(2-4)] assms(1) show ?thesis
    by (simp add: decode_service_def service_counters_def Let_def)
qed

text \<open>The message of a put sequence in the concrete libnl.\<close>

fun echo_attr :: "nl_item \<Rightarrow> (nat \<times> attr) list" where
  "echo_attr (PutU8 t x) = [(t, A8 x)]"
| "echo_attr (PutU16 t x) = [(t, A16 x)]"
| "echo_attr (PutU32 t x) = [(t, A32 x)]"
| "echo_attr (PutString t x) = [(t, AStr x)]"
| "echo_attr (PutAddr t x) = [(t, AAddr x)]"
| "echo_attr (PutFlags t x) = [(t, AFlags x)]"
| "echo_attr _ = []"

lemma service_echo_roundtrip_witness:
  "decode_service (sample_sys True) [(IPVS_CMD_ATTR_SERVICE, ANest (concat (map echo_attr (service_items sample_service))))]
     = Some (entry_of_service sample_service)
   \<and> se_port (entry_of_service sample_service) = 0x5000"
proof
  let ?L = "sample_sys True" and ?attrs = "concat (map echo_attr (service_items sample_service))"
  have "service_attrs ?L [(IPVS_CMD_ATTR_SERVICE, ANest ?attrs)] = Some (map_of ?attrs)"
    by (simp add: service_attrs_def sample_sys_def)
  moreover have "echoes ?L IPVS_SVC_ATTR_MAX (service_items sample_service) (map_of ?attrs)" by code_simp
  moreover have "name_ok (svc_sched_name sample_service)" "name_ok (svc_pe_name sample_service)"
    by code_simp+
  ultimately show "decode_service ?L [(IPVS_CMD_ATTR_SERVICE, ANest ?attrs)] = Some (entry_of_service sample_service)"
    by (rule service_echo_roundtrip)
  show "se_port (entry_of_service sample_service) = 0x5000" by code_simp
qed

section \<open>Counters\<close>

lemma ucast_u32_u64: "ucast (ucast (x :: u64) :: u32) = take_bit 32 x"
  by (rule bit_word_eqI) (auto simp: bit_simps)

text \<open>The attributes of the ten counters, each with its value.\<close>

definition counter_values :: "('w, 'm, 'a) sys \<Rightarrow> 'a \<Rightarrow> (nat \<Rightarrow> u64) \<Rightarrow> bool" where
  "counter_values L a v \<longleftrightarrow> (\<exists>attrs. nla_parse_nested L a IPVS_STATS_ATTR_MAX ipvs_stats_policy = Some attrs \<and>
     (\<forall>k \<in> {1..IPVS_STATS_ATTR_MAX}. \<exists>x. attrs k = Some x \<and> nla_get_u64 L x = v k \<and> nla_get_u32 L x = ucast (v k)))"

lemma counter_valuesE:
  assumes "counter_values L a v"
  obtains attrs where "nla_parse_nested L a IPVS_STATS_ATTR_MAX ipvs_stats_policy = Some attrs"
    and "\<And>k. 1 \<le> k \<Longrightarrow> k \<le> 10 \<Longrightarrow> \<exists>x. attrs k = Some x \<and> nla_get_u64 L x = v k \<and> nla_get_u32 L x = ucast (v k)"
  using assms unfolding counter_values_def by auto

lemma parse_counters_values:
  assumes "counter_values L a v"
  shows "ipvs_parse_stats64 L st a = (0, \<lparr>st_conns = v IPVS_STATS_ATTR_CONNS, st_inpkts = v IPVS_STATS_ATTR_INPKTS,
      st_outpkts = v IPVS_STATS_ATTR_OUTPKTS, st_inbytes = v IPVS_STATS_ATTR_INBYTES,
      st_outbytes = v IPVS_STATS_ATTR_OUTBYTES, st_cps = v IPVS_STATS_ATTR_CPS, st_inpps = v IPVS_STATS_ATTR_INPPS,
      st_outpps = v IPVS_STATS_ATTR_OUTPPS, st_inbps = v IPVS_STATS_ATTR_INBPS, st_outbps = v IPVS_STATS_ATTR_OUTBPS\<rparr>)"
    and "ipvs_parse_stats L st a = (0, \<lparr>st_conns = take_bit 32 (v IPVS_STATS_ATTR_CONNS),
      st_inpkts = take_bit 32 (v IPVS_STATS_ATTR_INPKTS), st_outpkts = take_bit 32 (v IPVS_STATS_ATTR_OUTPKTS),
      st_inbytes = v IPVS_STATS_ATTR_INBYTES, st_outbytes = v IPVS_STATS_ATTR_OUTBYTES,
      st_cps = take_bit 32 (v IPVS_STATS_ATTR_CPS), st_inpps = take_bit 32 (v IPVS_STATS_ATTR_INPPS),
      st_outpps = take_bit 32 (v IPVS_STATS_ATTR_OUTPPS), st_inbps = take_bit 32 (v IPVS_STATS_ATTR_INBPS),
      st_outbps = take_bit 32 (v IPVS_STATS_ATTR_OUTBPS)\<rparr>)"
proof -
  from assms obtain attrs where attrs: "nla_parse_nested L a IPVS_STATS_ATTR_MAX ipvs_stats_policy = Some attrs"
    and v: "\<And>k. 1 \<le> k \<Longrightarrow> k \<le> 10 \<Longrightarrow> \<exists>x. attrs k = Some x \<and> nla_get_u64 L x = v k \<and> nla_get_u32 L x = ucast (v k)"
    by (erule counter_valuesE)
  note each = v [of 1, simplified] v [of 2, simplified] v [of 3, simplified] v [of 4, simplified] v [of 5, simplified]
    v [of 6, simplified] v [of 7, simplified] v [of 8, simplified] v [of 9, simplified] v [of 10, simplified]
  show "ipvs_parse_stats64 L st a = (0, \<lparr>st_conns = v IPVS_STATS_ATTR_CONNS, st_inpkts = v IPVS_STATS_ATTR_INPKTS,
      st_outpkts = v IPVS_STATS_ATTR_OUTPKTS, st_inbytes = v IPVS_STATS_ATTR_INBYTES,
      st_outbytes = v IPVS_STATS_ATTR_OUTBYTES, st_cps = v IPVS_STATS_ATTR_CPS, st_inpps = v IPVS_STATS_ATTR_INPPS,
      st_outpps = v IPVS_STATS_ATTR_OUTPPS, st_inbps = v IPVS_STATS_ATTR_INBPS, st_outbps = v IPVS_STATS_ATTR_OUTBPS\<rparr>)"
    using attrs each by (auto simp: ipvs_parse_stats64_def parse_counters_def)
  show "ipvs_parse_stats L st a = (0, \<lparr>st_conns = take_bit 32 (v IPVS_STATS_ATTR_CONNS),
      st_inpkts = take_bit 32 (v IPVS_STATS_ATTR_INPKTS), st_outpkts = take_bit 32 (v IPVS_STATS_ATTR_OUTPKTS),
      st_inbytes = v IPVS_STATS_ATTR_INBYTES, st_outbytes = v IPVS_STATS_ATTR_OUTBYTES,
      st_cps = take_bit 32 (v IPVS_STATS_ATTR_CPS), st_inpps = take_bit 32 (v IPVS_STATS_ATTR_INPPS),
      st_outpps = take_bit 32 (v IPVS_STATS_ATTR_OUTPPS), st_inbps = take_bit 32 (v IPVS_STATS_ATTR_INBPS),
      st_outbps = take_bit 32 (v IPVS_STATS_ATTR_OUTBPS)\<rparr>)"
    using attrs each by (auto simp: ipvs_parse_stats_def parse_counters_def ucast_u32_u64)
qed

text \<open>C29. The 64-bit counters the kernel sends of a destination are read with the 32-bit accessor: where
  that yields the lower half of a value, as on a little-endian machine, the destination gets its
  connections, packets and rates modulo two to the 32, and only its byte counters in full, while the
  same attribute read as a service's counters gives all ten in full. Each counter goes to its own field.\<close>

theorem dest_counters_narrow:
  assumes "at IPVS_DEST_ATTR_STATS64 = Some a" and "counter_values L a v"
  shows "dest_counters L at st = (0, \<lparr>st_conns = take_bit 32 (v IPVS_STATS_ATTR_CONNS),
      st_inpkts = take_bit 32 (v IPVS_STATS_ATTR_INPKTS), st_outpkts = take_bit 32 (v IPVS_STATS_ATTR_OUTPKTS),
      st_inbytes = v IPVS_STATS_ATTR_INBYTES, st_outbytes = v IPVS_STATS_ATTR_OUTBYTES,
      st_cps = take_bit 32 (v IPVS_STATS_ATTR_CPS), st_inpps = take_bit 32 (v IPVS_STATS_ATTR_INPPS),
      st_outpps = take_bit 32 (v IPVS_STATS_ATTR_OUTPPS), st_inbps = take_bit 32 (v IPVS_STATS_ATTR_INBPS),
      st_outbps = take_bit 32 (v IPVS_STATS_ATTR_OUTBPS)\<rparr>)
    \<and> ipvs_parse_stats64 L st a = (0, \<lparr>st_conns = v IPVS_STATS_ATTR_CONNS, st_inpkts = v IPVS_STATS_ATTR_INPKTS,
      st_outpkts = v IPVS_STATS_ATTR_OUTPKTS, st_inbytes = v IPVS_STATS_ATTR_INBYTES,
      st_outbytes = v IPVS_STATS_ATTR_OUTBYTES, st_cps = v IPVS_STATS_ATTR_CPS, st_inpps = v IPVS_STATS_ATTR_INPPS,
      st_outpps = v IPVS_STATS_ATTR_OUTPPS, st_inbps = v IPVS_STATS_ATTR_INBPS, st_outbps = v IPVS_STATS_ATTR_OUTBPS\<rparr>)"
  using assms(1) parse_counters_values [OF assms(2)] by (simp add: dest_counters_def)

definition sample_counters :: attr where
  "sample_counters = ANest (map (\<lambda>k. (k, A64 (0x500000000 + of_nat k))) [1..<11])"

lemma dest_counters_narrow_witness:
  "dest_counters (sample_sys True) (map_of [(IPVS_DEST_ATTR_STATS64, sample_counters)]) stats64_zero =
     (0, \<lparr>st_conns = 1, st_inpkts = 2, st_outpkts = 3, st_inbytes = 0x500000004, st_outbytes = 0x500000005,
        st_cps = 6, st_inpps = 7, st_outpps = 8, st_inbps = 9, st_outbps = 10\<rparr>)"
proof -
  let ?v = "\<lambda>k. 0x500000000 + of_nat k :: u64"
  let ?attrs = "map_of (map (\<lambda>k. (k, A64 (?v k))) [1..<11])"
  have "?attrs k = Some (A64 (?v k))" if "k \<in> {1..IPVS_STATS_ATTR_MAX}" for k
    using that by (simp add: map_of_map_restrict del: upt.simps)
  moreover have "nla_get_u64 (sample_sys True) (A64 x) = x \<and> nla_get_u32 (sample_sys True) (A64 x) = ucast x" for x
    by (simp add: sample_sys_def)
  moreover have "nla_parse_nested (sample_sys True) sample_counters IPVS_STATS_ATTR_MAX ipvs_stats_policy = Some ?attrs"
    by (simp add: sample_sys_def sample_counters_def)
  ultimately have "counter_values (sample_sys True) sample_counters ?v"
    unfolding counter_values_def by blast
  from dest_counters_narrow [OF _ this, of "map_of [(IPVS_DEST_ATTR_STATS64, sample_counters)]" stats64_zero]
  show ?thesis by simp
qed

section \<open>Errors\<close>

text \<open>Everything up to the receiving works.\<close>

definition transport_up :: "('w, 'm, 'a) sys \<Rightarrow> bool" where
  "transport_up L \<longleftrightarrow>
     (\<forall>n w. fst (malloc L n w)) \<and> (\<forall>w. fst (nlmsg_alloc L w)) \<and> (\<forall>w. fst (nl_socket_alloc L w)) \<and>
     (\<forall>w. 0 \<le> fst (genl_connect L w)) \<and> (\<forall>n w. 0 \<le> fst (genl_ctrl_resolve L n w)) \<and>
     (\<forall>w. fst (nl_socket_modify_cb L w) = 0) \<and> (\<forall>m w. 0 \<le> fst (nl_send_auto_complete L m w))"

text \<open>An exchange whose first answer the callback refuses fails with \<^verbatim>\<open>errno\<close> 1.\<close>

lemma send_refused:
  assumes up: "transport_up L" and ans: "\<And>w. \<exists>m1 ms. fst (nl_recvmsgs L w) = m1 # ms \<and> (\<forall>s. fst (cb m1 r s) = -1)"
  shows "\<exists>r' t. ipvs_nl_send_message L (Some m) cb r s = (-1, r', t) \<and> errno t = 1"
proof -
  obtain c r' t where snd: "ipvs_nl_send_message L (Some m) cb r s = (c, r', t)" by (metis prod_cases3)
  have up': "\<And>w ok w'. nl_socket_alloc L w = (ok, w') \<Longrightarrow> ok"
    "\<And>w c w'. genl_connect L w = (c, w') \<Longrightarrow> \<not> c < 0"
    "\<And>n w c w'. genl_ctrl_resolve L n w = (c, w') \<Longrightarrow> \<not> c < 0"
    "\<And>w c w'. nl_socket_modify_cb L w = (c, w') \<Longrightarrow> c = 0"
    "\<And>m w c w'. nl_send_auto_complete L m w = (c, w') \<Longrightarrow> \<not> c < 0"
    using up unfolding transport_up_def by (metis fst_conv not_le)+
  have rcv: "c' = -1" if "nl_recvmsgs L w = (ms, fin, w')" "nl_deliver cb ms fin r s' = (c', r'', t')"
    for w ms fin w' s' c' r'' t'
  proof -
    from ans [of w] that(1) obtain m1 ms' where "ms = m1 # ms'" "\<forall>s. fst (cb m1 r s) = -1" by auto
    moreover obtain c1 r1 s1 where "cb m1 r s' = (c1, r1, s1)" by (metis prod_cases3)
    ultimately show ?thesis using that(2) by (auto dest: spec [of _ s'])
  qed
  from snd have "c = -1 \<and> errno t = 1"
    by (auto simp: ipvs_nl_send_message_def Let_def fail_genl_def set_errno_def
        split: prod.splits if_splits dest: up' dest!: rcv)
  with snd show ?thesis by blast
qed

lemma eperm_message: "ipvs_strerror L EPERM s = ''Permission denied (you must be root)''"
  by (simp add: ipvs_strerror_def strerror_table_def strerror_match_def)

text \<open>C30. When the transport works but the kernel's first answer to a listing is one the library
  refuses (an attribute is missing or malformed), the listing fails with errno EPERM, and the
  library reports that the caller must be root.\<close>

theorem refused_answer_is_eperm:
  assumes "nl_mode L s" and "transport_up L" and "answers_ok L (services_wf L)"
    and "\<And>w. \<exists>m ms. fst (nl_recvmsgs L w) = m # ms \<and> decode_service L m = None"
    and "ipvs_get_services L s = (g, t)"
  shows "g = None \<and> errno t = EPERM \<and> ipvs_strerror L (errno t) t = ''Permission denied (you must be root)''"
proof -
  have al: "\<And>n w ok w'. malloc L n w = (ok, w') \<Longrightarrow> ok" "\<And>w ok w'. nlmsg_alloc L w = (ok, w') \<Longrightarrow> ok"
    using assms(2) unfolding transport_up_def by (metis fst_conv)+
  obtain ok w where "malloc L 232 (world s) = (ok, w)" by fastforce
  with al(1) [OF this] obtain b s1 where m: "malloc_block L 232 s = (Some b, s1)"
    by (simp add: malloc_block_def acquire_def)
  let ?get = "Some \<lparr>gs_block = b, gs_num_services = 0, gs_entrytable = [None]\<rparr>"
  obtain ok w where "nlmsg_alloc L (world s1) = (ok, w)" by fastforce
  with al(2) [OF this] obtain m0 s2 where msg: "ipvs_nl_message L IPVS_CMD_GET_SERVICE True s1 = (Some m0, s2)"
    by (simp add: ipvs_nl_message_def acquire_def)
  have refuse: "\<exists>m1 ms. fst (nl_recvmsgs L w) = m1 # ms \<and> (\<forall>s. fst (ipvs_services_parse_cb L m1 ?get s) = -1)" for w
  proof -
    from assms(4) [of w] obtain m1 ms where m1: "fst (nl_recvmsgs L w) = m1 # ms" "decode_service L m1 = None" by blast
    from assms(3) have "list_all (services_wf L) (fst (nl_recvmsgs L w))" by (simp add: answers_ok_def)
    with m1(1) have wf: "services_wf L m1" by simp
    have "fst (ipvs_services_parse_cb L m1 ?get s') = -1" for s'
    proof -
      obtain c r' t' where cb: "ipvs_services_parse_cb L m1 ?get s' = (c, r', t')" by (metis prod_cases3)
      have "services_room b (Suc 0) ?get" by (rule services_room_start) simp
      from services_cb_outcome [OF cb this wf] m1(2) cb show ?thesis by simp
    qed
    with m1(1) show ?thesis by blast
  qed
  from send_refused [where cb = "ipvs_services_parse_cb L" and r = ?get, OF assms(2) refuse] obtain get t0 where
    "ipvs_nl_send_message L (Some m0) (ipvs_services_parse_cb L) ?get s2 = (-1, get, t0)" "errno t0 = 1" by blast
  with assms(1,5) m msg have "g = None" "errno t = 1"
    by (auto simp: ipvs_get_services_def get_services_nl_def free_opt_def free_block_def release_def
        split: option.splits)
  then show ?thesis by (simp add: eperm_message)
qed

lemma refused_answer_is_eperm_witness:
  "ipvs_strerror (sample_sys True) (errno (snd (ipvs_get_services
     ((sample_sys True)\<lparr>nl_recvmsgs := (\<lambda>w. ([[]], 0, w))\<rparr>) (lib_start []))))
     (snd (ipvs_get_services ((sample_sys True)\<lparr>nl_recvmsgs := (\<lambda>w. ([[]], 0, w))\<rparr>) (lib_start []))) =
   ''Permission denied (you must be root)''"
proof -
  let ?L = "(sample_sys True)\<lparr>nl_recvmsgs := (\<lambda>w. ([[]], 0, w))\<rparr>"
  have mode: "nl_mode ?L (lib_start [])" by code_simp
  have up: "transport_up ?L" by (simp add: transport_up_def sample_sys_def)
  have empty: "service_attrs ?L [] = None" by (simp add: service_attrs_def sample_sys_def)
  have "realloc_total ?L" by (simp add: realloc_total_def sample_sys_def)
  with empty have ok: "answers_ok ?L (services_wf ?L)" by (simp add: answers_ok_def services_wf_def)
  have ref: "\<exists>m ms. fst (nl_recvmsgs ?L w) = m # ms \<and> decode_service ?L m = None" for w
    using empty by (simp add: decode_service_def)
  from refused_answer_is_eperm [OF mode up ok ref prod.collapse [symmetric]]
  have "errno (snd (ipvs_get_services ?L (lib_start []))) = 1" by simp
  then show ?thesis by (simp add: eperm_message)
qed

end
