(* ===== verification/NetTools.thy ===== *)
theory NetTools
  imports IpVs
begin

text \<open>
  \<^verbatim>\<open>src/net_tools.cpp\<close>: name lookups. The resolver of the system is a parameter (record
  \<open>resolver\<close>): the answers of \<^verbatim>\<open>gethostbyname\<close>, \<^verbatim>\<open>gethostbyaddr\<close>, \<^verbatim>\<open>getservbyname\<close>,
  \<^verbatim>\<open>inet_pton\<close> for IPv6 and \<^verbatim>\<open>inet_aton\<close>; the answer of \<^verbatim>\<open>gethostbyname\<close> is its family, the
  length of an address and the first four bytes of the first address.
\<close>

record hostent =
  h_addrtype :: u16
  h_length :: nat
  h_addr :: u32

record resolver =
  gethostbyname :: "string \<Rightarrow> hostent option"
  gethostbyaddr :: "u32 \<Rightarrow> u16 \<Rightarrow> string option"
  getservbyname :: "string \<Rightarrow> string \<Rightarrow> u16 option"
  inet_pton6 :: "string \<Rightarrow> nf_inet_addr option"
  inet_aton :: "string \<Rightarrow> u32 option"

abbreviation (input) sizeof_in_addr :: nat where "sizeof_in_addr \<equiv> 4"

text \<open>-1 on failure, 0 and the address on success; the address is the second component.\<close>

definition host_to_addr :: "resolver \<Rightarrow> string \<Rightarrow> u32 \<Rightarrow> int \<times> u32" where
  "host_to_addr R name addr =
     (case gethostbyname R name of
        Some host \<Rightarrow>
          (if h_addrtype host \<noteq> AF_INET \<or> h_length host \<noteq> sizeof_in_addr then (-1, addr)
           else (0, h_addr host))
      | None \<Rightarrow> (-1, addr))"

text \<open>The reverse lookup passes the length of an IPv4 address whatever the family is.\<close>

definition addr_to_host :: "resolver \<Rightarrow> u16 \<Rightarrow> u32 \<Rightarrow> string" where
  "addr_to_host R af addr = (case gethostbyaddr R addr af of Some name \<Rightarrow> name | None \<Rightarrow> [])"

lemma host_to_addr_code: "fst (host_to_addr R name addr) = 0 \<or> fst (host_to_addr R name addr) = -1"
  by (simp add: host_to_addr_def split: option.split)

end
