(* ===== verification/StringTools.thy ===== *)
theory StringTools
  imports Libc
begin

text \<open>
  \<^verbatim>\<open>src/string_tools.cpp\<close>: trimming, splitting, lower-casing, prefix test and number
  output on \<^verbatim>\<open>std::string\<close>s. A \<^verbatim>\<open>std::string\<close> is the list of its bytes. \<^verbatim>\<open>str_split\<close> is
  a loop that does not end for every argument, so its result is an option: None is
  "does not return".
\<close>

section \<open>Operations\<close>

definition str_from_number :: "int \<Rightarrow> string" where
  "str_from_number num = dec_of_int num"

text \<open>The overload for a \<^verbatim>\<open>size_t\<close>, which prints a size like the integer of that value.\<close>

definition str_from_number_size :: "u64 \<Rightarrow> string" where
  "str_from_number_size num = dec_of_nat (unat num)"

lemma str_from_number_size_int: "str_from_number_size num = str_from_number (uint num)"
  by (simp add: str_from_number_size_def str_from_number_def dec_of_int_def)

definition str_ltrim :: "string \<Rightarrow> string" where
  "str_ltrim str = dropWhile isspace str"

text \<open>
  The right trim erases from the base of the first non-space of the reversed string to
  the end.
\<close>

definition str_rtrim :: "string \<Rightarrow> string" where
  "str_rtrim str = take (length str - length (takeWhile isspace (rev str))) str"

definition str_trim :: "string \<Rightarrow> string" where
  "str_trim str = str_ltrim (str_rtrim str)"

text \<open>\<^verbatim>\<open>s.find(delim)\<close>: the first offset at which \<open>delim\<close> occurs (an empty one, at 0).\<close>

fun str_find :: "string \<Rightarrow> string \<Rightarrow> nat option" where
  "str_find [] delim = (if delim = [] then Some 0 else None)"
| "str_find (c # s) delim = (if prefix delim (c # s) then Some 0
                             else map_option Suc (str_find s delim))"

text \<open>
  The loop of \<^verbatim>\<open>str_split\<close>: what it has pushed to \<open>result\<close> and what is left of \<open>s\<close>. The count
  \<open>tokens\<close> is not cut to the 32 bits of the C \<^verbatim>\<open>int\<close>: it would wrap only after \<open>2 ^ 31\<close> pieces, or
  when an empty delimiter makes the loop run on.
\<close>

partial_function (option) str_split_loop ::
  "string \<Rightarrow> int \<Rightarrow> string \<Rightarrow> int \<Rightarrow> string list \<Rightarrow> (string list \<times> string) option" where
  "str_split_loop delim max_elem s tokens result =
     (case str_find s delim of
        None \<Rightarrow> Some (result, s)
      | Some pos \<Rightarrow>
          if max_elem < 0 \<or> tokens \<noteq> max_elem
          then str_split_loop delim max_elem (drop (pos + length delim) s) (tokens + 1)
                 (result @ [take pos s])
          else Some (result, s))"

declare str_split_loop.simps [code]

definition str_split :: "string \<Rightarrow> string \<Rightarrow> int \<Rightarrow> string list option" where
  "str_split str delim max_elem =
     (case str_split_loop delim max_elem str 1 [] of
        None \<Rightarrow> None
      | Some (result, s) \<Rightarrow> Some (if max_elem \<noteq> 0 then result @ [s] else result))"

definition str_to_lower :: "string \<Rightarrow> string" where
  "str_to_lower str = map tolower str"

text \<open>\<^verbatim>\<open>strncmp(haystack.c_str(), needle.c_str(), needle.size()) == 0\<close>.\<close>

definition str_starts_with :: "string \<Rightarrow> string \<Rightarrow> bool" where
  "str_starts_with needle haystack =
     strncmp_eq (c_str haystack) (c_str needle) (length needle)"

section \<open>Trimming\<close>

text \<open>What the three trims share: they keep a contiguous part and are idempotent.\<close>

locale trimming =
  fixes trim :: "string \<Rightarrow> string"
  assumes trim_sublist: "sublist (trim s) s"
    and trim_fixed: "trim (trim s) = trim s"
    and trim_space: "\<forall>c \<in> set s. isspace c \<Longrightarrow> trim s = []"
begin

lemma trim_length: "length (trim s) \<le> length s"
  using trim_sublist by (rule sublist_length_le)

lemma trim_set: "set (trim s) \<subseteq> set s"
  using trim_sublist by (rule set_mono_sublist)

lemma trim_Nil: "trim [] = []"
  by (rule trim_space) simp

end

lemma str_rtrim_rev: "str_rtrim s = rev (dropWhile isspace (rev s))"
proof -
  have "length (takeWhile isspace (rev s)) + length (dropWhile isspace (rev s)) = length s"
    by (metis length_append length_rev takeWhile_dropWhile_id)
  moreover have "rev s = takeWhile isspace (rev s) @ dropWhile isspace (rev s)"
    by simp
  then have "s = rev (dropWhile isspace (rev s)) @ rev (takeWhile isspace (rev s))"
    by (metis rev_append rev_rev_ident)
  ultimately show ?thesis
    unfolding str_rtrim_def
    by (metis add_diff_cancel_left' append_eq_conv_conj length_rev)
qed

lemma str_rtrim_append: "\<exists>w. s = str_rtrim s @ w \<and> (\<forall>c \<in> set w. isspace c)"
  by (rule exI [of _ "rev (takeWhile isspace (rev s))"])
    (auto simp: str_rtrim_rev simp flip: rev_append dest: set_takeWhileD)

lemma str_ltrim_append: "\<exists>w. s = w @ str_ltrim s \<and> (\<forall>c \<in> set w. isspace c)"
  by (rule exI [of _ "takeWhile isspace s"]) (auto simp: str_ltrim_def dest: set_takeWhileD)

lemma str_ltrim_rtrim_commute: "str_ltrim (str_rtrim s) = str_rtrim (str_ltrim s)"
proof (cases "\<forall>c \<in> set s. isspace c")
  case True
  then have l: "dropWhile isspace s = []" and r: "dropWhile isspace (rev s) = []"
    by simp_all
  show ?thesis by (simp only: str_ltrim_def str_rtrim_rev l r rev.simps dropWhile.simps)
next
  case False
  then obtain a c b where s: "s = a @ c # b" and a: "\<forall>x \<in> set a. isspace x" and c: "\<not> isspace c"
    using split_list_first_prop [of s "\<lambda>c. \<not> isspace c"] by auto
  have l: "dropWhile isspace s = c # b" using a c by (simp add: s dropWhile_append)
  have r: "rev (dropWhile isspace (rev b @ c # rev a))
           = a @ c # rev (dropWhile isspace (rev b))"
    using c by (simp add: dropWhile_append3 dropWhile_append dropWhile_eq_Nil_conv)
  have r': "rev (dropWhile isspace (rev b @ [c])) = c # rev (dropWhile isspace (rev b))"
    using c by (simp add: dropWhile_append)
  show ?thesis
    using a c l r r' by (simp add: str_ltrim_def str_rtrim_rev s dropWhile_append)
qed

interpretation ltrim: trimming str_ltrim
proof unfold_locales
  show "sublist (str_ltrim s) s" for s
    by (simp add: str_ltrim_def suffix_dropWhile suffix_imp_sublist)
qed (simp_all add: str_ltrim_def dropWhile_eq_Nil_conv)

interpretation rtrim: trimming str_rtrim
proof unfold_locales
  show "sublist (str_rtrim s) s" for s
    by (simp add: str_rtrim_def take_is_prefix)
qed (simp_all add: str_rtrim_rev dropWhile_eq_Nil_conv)

interpretation trim: trimming str_trim
proof unfold_locales
  show "sublist (str_trim s) s" for s
    unfolding str_trim_def
    by (rule sublist_order.order.trans [OF ltrim.trim_sublist rtrim.trim_sublist])
  show "str_trim (str_trim s) = str_trim s" for s
    by (metis str_trim_def str_ltrim_rtrim_commute ltrim.trim_fixed rtrim.trim_fixed)
  show "\<forall>c \<in> set s. isspace c \<Longrightarrow> str_trim s = []" for s
    by (simp add: str_trim_def rtrim.trim_space ltrim.trim_Nil)
qed

text \<open>A trimmed string starts and ends with a byte that is no white space.\<close>

lemma str_ltrim_hd: "str_ltrim s \<noteq> [] \<Longrightarrow> \<not> isspace (hd (str_ltrim s))"
  by (simp add: str_ltrim_def hd_dropWhile)

lemma str_rtrim_last: "str_rtrim s \<noteq> [] \<Longrightarrow> \<not> isspace (last (str_rtrim s))"
  by (simp add: str_rtrim_rev last_rev hd_dropWhile)

lemma str_trim_ends:
  assumes "str_trim s \<noteq> []"
  shows "\<not> isspace (hd (str_trim s)) \<and> \<not> isspace (last (str_trim s))"
  using assms str_ltrim_hd str_rtrim_last by (metis str_trim_def str_ltrim_rtrim_commute)

lemma dropWhile_hd_no_space: "a # list = s \<Longrightarrow> \<not> P (hd s) \<Longrightarrow> dropWhile P s = s"
  by auto

lemma str_trim_id:
  "s = [] \<or> (\<not> isspace (hd s) \<and> \<not> isspace (last s)) \<Longrightarrow> str_trim s = s"
  by (cases s rule: rev_cases; cases s)
    (auto simp: str_trim_def str_ltrim_def str_rtrim_rev dropWhile_hd_no_space)

section \<open>Searching and splitting\<close>

lemma str_find_Some:
  "str_find s delim = Some i \<Longrightarrow> i + length delim \<le> length s \<and> s = take i s @ delim @ drop (i + length delim) s"
proof (induction s arbitrary: i)
  case Nil
  then show ?case by (simp split: if_splits)
next
  case (Cons c s)
  show ?case
  proof (cases "prefix delim (c # s)")
    case True
    with Cons.prems have "i = 0" by simp
    moreover from True obtain z where "c # s = delim @ z" by (auto simp: prefix_def)
    ultimately show ?thesis by (metis add_0 append_eq_conv_conj append_self_conv2
          length_append le_add1 take0)
  next
    case False
    with Cons.prems obtain j where j: "str_find s delim = Some j" "i = Suc j" by auto
    with Cons.IH [OF j(1)] show ?thesis by auto
  qed
qed

lemma str_find_singleton: "str_find s [c] = strchr s c"
  by (induction s) auto

lemma str_find_Nil_delim: "str_find s [] = Some 0"
  by (cases s) auto

text \<open>Putting the pieces back together with the delimiter between them.\<close>

fun str_join :: "string \<Rightarrow> string list \<Rightarrow> string" where
  "str_join delim [] = []"
| "str_join delim [p] = p"
| "str_join delim (p # q # ps) = p @ delim @ str_join delim (q # ps)"

lemma str_join_Cons: "ps \<noteq> [] \<Longrightarrow> str_join delim (p # ps) = p @ delim @ str_join delim ps"
  by (cases ps) auto

lemma str_join_glue: "str_join delim (ps @ [p]) = concat (map (\<lambda>q. q @ delim) ps) @ p"
  by (induction ps) (auto simp: str_join_Cons)

lemma str_find_take: "str_find s delim = Some i \<Longrightarrow> delim \<noteq> [] \<Longrightarrow> str_find (take i s) delim = None"
proof (induction s arbitrary: i)
  case Nil
  then show ?case by (simp split: if_splits)
next
  case (Cons c s)
  show ?case
  proof (cases "i = 0")
    case True
    with Cons.prems show ?thesis by simp
  next
    case False
    with Cons.prems obtain j where np: "\<not> prefix delim (c # s)"
      and j: "str_find s delim = Some j" and i: "i = Suc j" by (auto split: if_splits)
    have "\<not> prefix delim (c # take j s)"
      using np by (metis prefix_order.trans take_is_prefix take_Suc_Cons)
    with Cons.IH [OF j Cons.prems(2)] i show ?thesis by simp
  qed
qed

text \<open>Induction over the iterations of a run of the loop that returned.\<close>

lemma str_split_loop_induct [consumes 1, case_names stop step]:
  assumes run: "str_split_loop delim m s t acc = Some (r, s')"
    and stop: "\<And>s t acc. str_find s delim = None \<or> (0 \<le> m \<and> t = m) \<Longrightarrow> P s t acc acc s"
    and step: "\<And>s t acc r s' pos. str_find s delim = Some pos \<Longrightarrow> m < 0 \<or> t \<noteq> m \<Longrightarrow>
      P (drop (pos + length delim) s) (t + 1) (acc @ [take pos s]) r s' \<Longrightarrow> P s t acc r s'"
  shows "P s t acc r s'"
proof -
  define Q where "Q = (\<lambda>d k s t acc (x :: string list \<times> string).
    d = delim \<and> k = m \<longrightarrow> P s t acc (fst x) (snd x))"
  have "Q delim m s t acc (r, s')"
  proof (rule str_split_loop.raw_induct [where P = Q, OF _ run])
    fix f d k s t acc x
    assume IH: "\<And>d k s t acc x. f d k s t acc = Some x \<Longrightarrow> Q d k s t acc x"
      and eq: "(case str_find s d of None \<Rightarrow> Some (acc, s)
        | Some pos \<Rightarrow> if k < 0 \<or> t \<noteq> k then f d k (drop (pos + length d) s) (t + 1) (acc @ [take pos s])
            else Some (acc, s)) = Some x"
    show "Q d k s t acc x"
    proof (cases "str_find s d")
      case None
      with eq stop show ?thesis by (auto simp: Q_def)
    next
      case (Some pos)
      show ?thesis
      proof (cases "k < 0 \<or> t \<noteq> k")
        case True
        with eq Some have "Q d k (drop (pos + length d) s) (t + 1) (acc @ [take pos s]) x"
          by (intro IH) simp
        with step Some True show ?thesis by (auto simp: Q_def)
      next
        case False
        with eq Some have "x = (acc, s)" by simp
        moreover have "k = m \<Longrightarrow> P s t acc acc s" using False by (intro stop) auto
        ultimately show ?thesis by (simp add: Q_def)
      qed
    qed
  qed
  then show ?thesis by (simp add: Q_def)
qed

lemma str_split_loop_glue:
  "str_split_loop delim m s t acc = Some (r, s') \<Longrightarrow>
   concat (map (\<lambda>q. q @ delim) r) @ s' = concat (map (\<lambda>q. q @ delim) acc) @ s"
proof (induction rule: str_split_loop_induct)
  case (step s t acc r s' pos)
  with str_find_Some [OF step.hyps(1)] show ?case by simp
qed simp

lemma str_split_loop_pieces:
  "str_split_loop delim m s t acc = Some (r, s') \<Longrightarrow> delim \<noteq> [] \<Longrightarrow>
   \<forall>p \<in> set acc. str_find p delim = None \<Longrightarrow> \<forall>p \<in> set r. str_find p delim = None"
proof (induction rule: str_split_loop_induct)
  case (step s t acc r s' pos)
  have "\<forall>p \<in> set (acc @ [take pos s]). str_find p delim = None"
    using step.prems str_find_take [OF step.hyps(1)] by simp
  from step.IH [OF step.prems(1) this] show ?case .
qed simp

lemma str_split_loop_length:
  "str_split_loop delim m s t acc = Some (r, s') \<Longrightarrow> 0 < m \<Longrightarrow> t \<le> m \<Longrightarrow>
   int (length acc) + 1 = t \<Longrightarrow> int (length r) + 1 \<le> m"
  by (induction rule: str_split_loop_induct) auto

text \<open>When it finishes: a delimiter that is not empty shortens the rest; a limit counts up.\<close>

lemma str_split_loop_total:
  assumes "delim \<noteq> []"
  shows "\<exists>r s'. str_split_loop delim m s t acc = Some (r, s')"
proof (induction "length s" arbitrary: s t acc rule: less_induct)
  case less
  show ?case
  proof (cases "str_find s delim")
    case None
    then show ?thesis by (simp add: str_split_loop.simps)
  next
    case (Some pos)
    have "length (drop (pos + length delim) s) < length s"
      using str_find_Some [OF Some] assms by (cases delim) auto
    from less [OF this] Some show ?thesis
      by (simp add: str_split_loop.simps [of delim m s])
  qed
qed

lemma str_split_loop_limit:
  assumes "t \<le> m"
  shows "0 < t \<Longrightarrow> \<exists>r s'. str_split_loop [] m s t acc = Some (r, s')"
  using assms
proof (induction "nat (m - t)" arbitrary: s t acc)
  case 0
  then have "t = m" and "0 < m" by simp_all
  then show ?case by (simp add: str_split_loop.simps [of _ m s m] str_find_Nil_delim)
next
  case (Suc n)
  then have "n = nat (m - (t + 1))" and "t + 1 \<le> m" and "t \<noteq> m" by simp_all
  with Suc.hyps(1) [of "t + 1"] Suc.prems show ?case
    by (simp add: str_split_loop.simps [of _ m s t] str_find_Nil_delim)
qed

lemma str_split_loop_returns_only:
  "str_split_loop delim m s t acc = Some (r, s') \<Longrightarrow> delim = [] \<Longrightarrow> 0 < t \<Longrightarrow> 0 < m"
  by (induction rule: str_split_loop_induct) (auto simp: str_find_Nil_delim)

lemma str_split_loop_None:
  assumes "0 < t" and "t \<le> m \<or> m \<le> 0"
  shows "str_split_loop delim m s t acc = None \<longleftrightarrow> delim = [] \<and> m \<le> 0"
proof (cases "delim = []")
  case True
  show ?thesis
  proof (cases "m \<le> 0")
    case False
    with True assms str_split_loop_limit [of t m s acc] show ?thesis by auto
  next
    case le: True
    have "str_split_loop delim m s t acc = None"
    proof (rule ccontr)
      assume "str_split_loop delim m s t acc \<noteq> None"
      then obtain r s' where "str_split_loop delim m s t acc = Some (r, s')" by auto
      from str_split_loop_returns_only [OF this True assms(1)] le show False by simp
    qed
    with True le show ?thesis by simp
  qed
next
  case False
  with str_split_loop_total [OF False, of m s t acc] show ?thesis by auto
qed

section \<open>Properties of splitting\<close>

text \<open>C19. The split loop returns for every string exactly when the delimiter is not empty or
  the number of pieces is limited to a positive number: an empty delimiter is found at
  offset 0 for ever, and a limit of 0 is never reached by the token counter, which starts
  at 1.\<close>

theorem str_split_returns_iff:
  "str_split str delim max_elem = None \<longleftrightarrow> delim = [] \<and> max_elem \<le> 0"
proof -
  have "str_split_loop delim max_elem str 1 [] = None \<longleftrightarrow> delim = [] \<and> max_elem \<le> 0"
    by (rule str_split_loop_None) auto
  then show ?thesis by (cases "str_split_loop delim max_elem str 1 []") (auto simp: str_split_def)
qed

text \<open>C20. Splitting loses nothing: with a limit other than 0, the pieces joined with the
  delimiter are the string again; no piece but the last holds the delimiter; with a
  positive limit there are at most that many pieces; without a limit no piece at all holds
  it.\<close>

theorem str_split_join:
  assumes "str_split str delim m = Some ps" and "m \<noteq> 0" and "delim \<noteq> []"
  shows "str_join delim ps = str \<and> ps \<noteq> [] \<and> (\<forall>p \<in> set (butlast ps). str_find p delim = None)
    \<and> (0 < m \<longrightarrow> int (length ps) \<le> m) \<and> (m < 0 \<longrightarrow> str_find (last ps) delim = None)"
proof -
  obtain r s' where run: "str_split_loop delim m str 1 [] = Some (r, s')" and ps: "ps = r @ [s']"
    using assms by (auto simp: str_split_def split: option.splits)
  have "m < 0 \<Longrightarrow> str_find s' delim = None"
    using run by (induction rule: str_split_loop_induct) auto
  with ps str_split_loop_glue [OF run] str_split_loop_pieces [OF run assms(3)]
    str_split_loop_length [OF run] show ?thesis
    by (auto simp: str_join_glue)
qed

theorem str_split_join_witness:
  "str_join '','' [''stdout'', ''syslog''] = ''stdout,syslog''"
proof -
  have run: "str_split ''stdout,syslog'' '','' (-1) = Some [''stdout'', ''syslog'']"
    by (simp add: str_split_def str_split_loop.simps)
  show ?thesis using str_split_join [OF run] by simp
qed

text \<open>The uses the program makes of it: a one-byte delimiter, with no limit or with a limit of two.\<close>

lemma str_split_loop_last: "c \<notin> set p \<Longrightarrow> str_split_loop [c] m p t acc = Some (acc, p)"
  by (simp add: str_split_loop.simps [of "[c]" m p] str_find_singleton strchr_None [THEN iffD2])

lemma str_split_loop_first:
  "c \<notin> set p \<Longrightarrow> m < 0 \<Longrightarrow> str_split_loop [c] m (p @ c # s) t acc = str_split_loop [c] m s (t + 1) (acc @ [p])"
  by (simp add: str_split_loop.simps [of "[c]" m "p @ c # s"] str_find_singleton strchr_append)

lemma str_split_loop_join:
  "ps \<noteq> [] \<Longrightarrow> \<forall>p \<in> set ps. c \<notin> set p \<Longrightarrow>
   str_split_loop [c] (-1) (str_join [c] ps) t acc = Some (acc @ butlast ps, last ps)"
proof (induction ps arbitrary: t acc)
  case Nil
  then show ?case by simp
next
  case (Cons p ps)
  then show ?case by (cases ps) (simp_all add: str_split_loop_last str_split_loop_first)
qed

lemma str_split_join_pieces:
  "ps \<noteq> [] \<Longrightarrow> \<forall>p \<in> set ps. c \<notin> set p \<Longrightarrow> str_split (str_join [c] ps) [c] (-1) = Some ps"
  by (simp add: str_split_def str_split_loop_join)

lemma str_split_2_None: "c \<notin> set line \<Longrightarrow> str_split line [c] 2 = Some [line]"
  by (simp add: str_split_def str_split_loop.simps str_find_singleton strchr_None [THEN iffD2])

lemma str_split_2_Some: "c \<notin> set k \<Longrightarrow> str_split (k @ c # v) [c] 2 = Some [k, v]"
  by (simp add: str_split_def str_split_loop.simps [of "[c]" 2 "k @ c # v"]
      str_split_loop.simps [of "[c]" 2 v] str_find_singleton strchr_append split: option.split)

lemma str_split_2_cases:
  obtains "c \<notin> set line" "str_split line [c] 2 = Some [line]"
  | k v where "line = k @ c # v" "c \<notin> set k" "str_split line [c] 2 = Some [k, v]"
  using str_split_2_None str_split_2_Some by (metis split_list_first)

end
