(* ===== verification/Logging.thy ===== *)
theory Logging
  imports StringTools
begin

text \<open>
  \<^verbatim>\<open>src/logging.cpp\<close> and \<^verbatim>\<open>src/logging.h\<close>: the two logging globals and the calls that
  read them. The level is the enumeration \<^verbatim>\<open>LOG_LEVEL\<close> with its order; the sinks are a
  set of bits. What a call writes is appended to \<open>log_out\<close>: to standard output, standard
  error or the system log (with its priority), and the opening and closing of the latter.
  A system log entry is the C string handed to \<^verbatim>\<open>syslog\<close>, which reads it as a format.
\<close>

section \<open>Levels, sinks, state\<close>

datatype log_level = LOG_LEVEL_NONE | LOG_LEVEL_ERROR | LOG_LEVEL_INFO | LOG_LEVEL_DEBUG

fun level_code :: "log_level \<Rightarrow> nat" where
  "level_code LOG_LEVEL_NONE = 0"
| "level_code LOG_LEVEL_ERROR = 1"
| "level_code LOG_LEVEL_INFO = 2"
| "level_code LOG_LEVEL_DEBUG = 3"

lemma level_code_inject: "level_code a = level_code b \<Longrightarrow> a = b"
  by (cases a; cases b) auto

instantiation log_level :: linorder
begin

definition less_eq_log_level :: "log_level \<Rightarrow> log_level \<Rightarrow> bool" where
  "less_eq_log_level a b \<longleftrightarrow> level_code a \<le> level_code b"

definition less_log_level :: "log_level \<Rightarrow> log_level \<Rightarrow> bool" where
  "less_log_level a b \<longleftrightarrow> level_code a < level_code b"

instance
  by standard (auto simp: less_eq_log_level_def less_log_level_def dest: level_code_inject)

end

definition LOG_SINK_NONE :: i32 where "LOG_SINK_NONE = 0"

definition LOG_SINK_STD :: i32 where "LOG_SINK_STD = 1"

definition LOG_SINK_SYSLOG :: i32 where "LOG_SINK_SYSLOG = 2"

text \<open>The priorities of \<^verbatim>\<open>syslog.h\<close> the calls pass.\<close>

datatype syslog_prio = LOG_WARNING | LOG_INFO | LOG_DEBUG

datatype log_event = StdOut string | StdErr string | Syslog syslog_prio string | OpenLog string | CloseLog

record log_state =
  logging_level :: log_level
  active_log_sinks :: i32
  log_out :: "log_event list"

definition log_init :: log_state where
  "log_init = \<lparr>logging_level = LOG_LEVEL_NONE, active_log_sinks = LOG_SINK_NONE, log_out = []\<rparr>"

definition emit :: "log_event \<Rightarrow> log_state \<Rightarrow> log_state" where
  "emit e l = l\<lparr>log_out := log_out l @ [e]\<rparr>"

section \<open>The calls\<close>

definition log_start :: "log_state \<Rightarrow> log_state" where
  "log_start l =
     (if active_log_sinks l AND LOG_SINK_SYSLOG = LOG_SINK_SYSLOG then emit (OpenLog ''ipvshttpd'') l
      else l)"

definition log_stop :: "log_state \<Rightarrow> log_state" where
  "log_stop l =
     (if active_log_sinks l AND LOG_SINK_SYSLOG = LOG_SINK_SYSLOG then emit CloseLog l else l)"

text \<open>
  C's \<^verbatim>\<open>&&\<close> of two \<^verbatim>\<open>int\<close>s: 1 when both are not 0, else 0. \<^verbatim>\<open>log_error\<close> tests the system
  log bit with it where the other calls use \<^verbatim>\<open>&\<close>.
\<close>

definition c_and :: "i32 \<Rightarrow> i32 \<Rightarrow> i32" where
  "c_and a b = (if a \<noteq> 0 \<and> b \<noteq> 0 then 1 else 0)"

definition log_error :: "string \<Rightarrow> log_state \<Rightarrow> log_state" where
  "log_error message l =
     (if logging_level l < LOG_LEVEL_ERROR then l
      else if active_log_sinks l = LOG_SINK_NONE then l
      else let l = (if active_log_sinks l AND LOG_SINK_STD = LOG_SINK_STD
                    then emit (StdErr message) l else l)
           in if c_and (active_log_sinks l) LOG_SINK_SYSLOG = LOG_SINK_SYSLOG
              then emit (Syslog LOG_WARNING (c_str message)) l else l)"

definition log_message :: "string \<Rightarrow> log_state \<Rightarrow> log_state" where
  "log_message message l =
     (if logging_level l < LOG_LEVEL_INFO then l
      else if active_log_sinks l = LOG_SINK_NONE then l
      else let l = (if active_log_sinks l AND LOG_SINK_STD = LOG_SINK_STD
                    then emit (StdOut message) l else l)
           in if active_log_sinks l AND LOG_SINK_SYSLOG = LOG_SINK_SYSLOG
              then emit (Syslog LOG_INFO (c_str message)) l else l)"

definition log_debug :: "string \<Rightarrow> log_state \<Rightarrow> log_state" where
  "log_debug message l =
     (if logging_level l < LOG_LEVEL_DEBUG then l
      else if active_log_sinks l = LOG_SINK_NONE then l
      else let l = (if active_log_sinks l AND LOG_SINK_STD = LOG_SINK_STD
                    then emit (StdOut message) l else l)
           in if active_log_sinks l AND LOG_SINK_SYSLOG = LOG_SINK_SYSLOG
              then emit (Syslog LOG_DEBUG (c_str message)) l else l)"

section \<open>The contract of a logging call\<close>

text \<open>
  What every client relies on: a call at threshold \<open>lev\<close> changes nothing but the output,
  only appends to it, says nothing below its level or without sinks, and repeats nothing
  but the message (up to its first NUL in the system log).
\<close>

fun event_text :: "log_event \<Rightarrow> string" where
  "event_text (StdOut m) = m"
| "event_text (StdErr m) = m"
| "event_text (Syslog p m) = m"
| "event_text (OpenLog n) = n"
| "event_text CloseLog = []"

locale logger =
  fixes log :: "string \<Rightarrow> log_state \<Rightarrow> log_state"
    and lev :: log_level
    and out :: "i32 \<Rightarrow> string \<Rightarrow> log_event list"
  assumes log_at_level: "lev \<le> logging_level l \<Longrightarrow> active_log_sinks l \<noteq> LOG_SINK_NONE \<Longrightarrow>
      log m l = l\<lparr>log_out := log_out l @ out (active_log_sinks l) m\<rparr>"
    and log_below: "logging_level l < lev \<Longrightarrow> log m l = l"
    and log_no_sink: "active_log_sinks l = LOG_SINK_NONE \<Longrightarrow> log m l = l"
    and out_text: "e \<in> set (out sinks m) \<Longrightarrow> c_str (event_text e) = c_str m"
begin

lemma log_cases:
  obtains "log m l = l" | "log m l = l\<lparr>log_out := log_out l @ out (active_log_sinks l) m\<rparr>"
  using log_at_level log_below log_no_sink by (meson not_less)

lemma level_kept [simp, log_simps]: "logging_level (log m l) = logging_level l"
  by (cases rule: log_cases [of m l]) simp_all

lemma sinks_kept [simp, log_simps]: "active_log_sinks (log m l) = active_log_sinks l"
  by (cases rule: log_cases [of m l]) simp_all

lemma appends: "\<exists>es. log_out (log m l) = log_out l @ es \<and> (\<forall>e \<in> set es. c_str (event_text e) = c_str m)"
proof (cases "logging_level l < lev \<or> active_log_sinks l = LOG_SINK_NONE")
  case True
  then show ?thesis using log_below log_no_sink by auto
next
  case False
  then show ?thesis using log_at_level out_text by (auto simp: not_less)
qed

text \<open>A run of calls: the messages of a loop.\<close>

lemma fold_level: "logging_level (fold log ms l) = logging_level l"
  by (induction ms arbitrary: l) auto

lemma fold_silent: "logging_level l < lev \<Longrightarrow> fold log ms l = l"
  by (induction ms) (auto simp: log_below)

end

text \<open>The loggers that reach the system log when its bit is set.\<close>

locale syslog_logger = logger +
  fixes prio :: syslog_prio
  assumes out_syslog: "sinks AND LOG_SINK_SYSLOG = LOG_SINK_SYSLOG \<Longrightarrow> Syslog prio (c_str m) \<in> set (out sinks m)"
begin

lemma reaches_syslog:
  assumes "lev \<le> logging_level l" and "active_log_sinks l AND LOG_SINK_SYSLOG = LOG_SINK_SYSLOG"
  shows "Syslog prio (c_str m) \<in> set (log_out (log m l))"
proof -
  have "active_log_sinks l \<noteq> LOG_SINK_NONE"
    using assms(2) by (auto simp: LOG_SINK_NONE_def LOG_SINK_SYSLOG_def)
  with assms log_at_level out_syslog show ?thesis by simp
qed

end

definition out_std :: "(string \<Rightarrow> log_event) \<Rightarrow> i32 \<Rightarrow> string \<Rightarrow> log_event list" where
  "out_std con sinks m = (if sinks AND LOG_SINK_STD = LOG_SINK_STD then [con m] else [])"

definition out_syslog :: "syslog_prio \<Rightarrow> i32 \<Rightarrow> string \<Rightarrow> log_event list" where
  "out_syslog prio sinks m =
     (if sinks AND LOG_SINK_SYSLOG = LOG_SINK_SYSLOG then [Syslog prio (c_str m)] else [])"

lemma c_and_not_syslog [simp]: "c_and a b \<noteq> LOG_SINK_SYSLOG"
  by (simp add: c_and_def LOG_SINK_SYSLOG_def)

interpretation err: logger log_error LOG_LEVEL_ERROR "out_std StdErr"
  by unfold_locales
    (auto simp: log_error_def emit_def out_std_def not_less [symmetric] Let_def split: if_splits)

interpretation msg: syslog_logger log_message LOG_LEVEL_INFO
  "\<lambda>sinks m. out_std StdOut sinks m @ out_syslog LOG_INFO sinks m" LOG_INFO
  by unfold_locales
    (auto simp: log_message_def emit_def out_std_def out_syslog_def not_less [symmetric] Let_def
      split: if_splits)

interpretation dbg: syslog_logger log_debug LOG_LEVEL_DEBUG
  "\<lambda>sinks m. out_std StdOut sinks m @ out_syslog LOG_DEBUG sinks m" LOG_DEBUG
  by unfold_locales
    (auto simp: log_debug_def emit_def out_std_def out_syslog_def not_less [symmetric] Let_def
      split: if_splits)

section \<open>Where errors and messages go\<close>

text \<open>C40. Whatever the sinks are, an error is written to standard error or nowhere: no call of
  log_error reaches the system log, while log_message reaches it when its bit is set. (The test of
  the bit in log_error uses a logical and, so it compares 0 or 1 with the bit 2.)\<close>

theorem errors_never_reach_syslog:
  "log_error m l = l\<lparr>log_out := log_out l @
      (if LOG_LEVEL_ERROR \<le> logging_level l then out_std StdErr (active_log_sinks l) m else [])\<rparr>
   \<and> log_message m l = l\<lparr>log_out := log_out l @
      (if LOG_LEVEL_INFO \<le> logging_level l
       then out_std StdOut (active_log_sinks l) m @ out_syslog LOG_INFO (active_log_sinks l) m else [])\<rparr>"
proof -
  have none: "out_std c LOG_SINK_NONE m = []" "out_syslog p LOG_SINK_NONE m = []" for c p
    by (simp_all add: out_std_def out_syslog_def LOG_SINK_NONE_def LOG_SINK_STD_def LOG_SINK_SYSLOG_def)
  show ?thesis
    using err.log_at_level [of l m] err.log_below [of l m] err.log_no_sink [of l m]
      msg.log_at_level [of l m] msg.log_below [of l m] msg.log_no_sink [of l m]
    by (cases "active_log_sinks l = LOG_SINK_NONE") (auto simp: none not_le)
qed

end
