(* ===== verification/IpvsInterface.thy ===== *)
theory IpvsInterface
  imports LibRoundTrip NetTools Logging
begin

text \<open>
  \<^verbatim>\<open>src/ipvs_interface.cpp\<close> and \<^verbatim>\<open>src/ipvs_interface.h\<close>: the C++ wrapper the daemon uses. It
  loads the kernel module when the library cannot start, parses \<^verbatim>\<open>address[:port]\<close>
  arguments, and sets the weight of a server. Its state is the library's, the log and the
  flag \<open>m_initialized\<close>.
\<close>

section \<open>State\<close>

definition SERVICE_NONE :: i32 where "SERVICE_NONE = 0x0000"

definition SERVICE_ADDR :: i32 where "SERVICE_ADDR = 0x0001"

definition SERVICE_PORT :: i32 where "SERVICE_PORT = 0x0002"

record 'w ipvs_interface =
  m_initialized :: bool
  ipvs_lib :: "'w lib"
  ipvs_log :: log_state

text \<open>The constructor; the library and the log are the globals it finds.\<close>

abbreviation (input) new_ipvs_interface :: "'w lib \<Rightarrow> log_state \<Rightarrow> 'w ipvs_interface" where
  "new_ipvs_interface s l \<equiv> \<lparr>m_initialized = False, ipvs_lib = s, ipvs_log = l\<rparr>"

section \<open>Loading the module\<close>

text \<open>
  \<^verbatim>\<open>fork\<close>, \<^verbatim>\<open>execv\<close> of modprobe and \<^verbatim>\<open>waitpid\<close> are outside: what is seen of them is the error of
  \<^verbatim>\<open>waitpid\<close>, or the exit status, None when the child did not exit by itself.
\<close>

type_synonym 'w modprobe = "'w \<Rightarrow> (int + int option) \<times> 'w"

definition m_modprobe_ipvs :: "'w modprobe \<Rightarrow> 'w lib \<Rightarrow> int \<times> 'w lib" where
  "m_modprobe_ipvs run s =
     (let (rc, w) = run (world s); s = s\<lparr>world := w\<rparr>
      in case rc of
           Inl e \<Rightarrow> (1, set_errno e s)
         | Inr status \<Rightarrow> (if status \<noteq> Some 0 then (1, s) else (0, s)))"

definition init :: "('w, 'm, 'a) sys \<Rightarrow> 'w modprobe \<Rightarrow> 'w ipvs_interface \<Rightarrow> bool \<times> 'w ipvs_interface" where
  "init L run i =
     (let (r, s) = ipvs_init L (ipvs_lib i);
          (failed, s) =
            (if r \<noteq> 0
             then (let (p, s) = m_modprobe_ipvs run s
                   in if p \<noteq> 0 then (True, s)
                      else let (r, s) = ipvs_init L s in (r \<noteq> 0, s))
             else (False, s))
      in if failed
         then (False, i\<lparr>ipvs_lib := s,
                ipvs_log := log_error (''Can't initialize ipvs: '' @ ipvs_strerror L (errno s) s) (ipvs_log i)\<rparr>)
         else (True, i\<lparr>ipvs_lib := s, m_initialized := True\<rparr>))"

text \<open>The destructor.\<close>

definition destroy :: "('w, 'm, 'a) sys \<Rightarrow> 'w ipvs_interface \<Rightarrow> 'w ipvs_interface" where
  "destroy L i = (if m_initialized i then i\<lparr>ipvs_lib := ipvs_close L (ipvs_lib i)\<rparr> else i)"

section \<open>Parsing\<close>

definition m_service_to_port :: "resolver \<Rightarrow> string \<Rightarrow> u16 \<Rightarrow> int" where
  "m_service_to_port R name proto =
     (let port = (\<lambda>p. case getservbyname R name p of Some s_port \<Rightarrow> Some (uint (ntohs s_port)) | None \<Rightarrow> None)
      in if proto = IPPROTO_TCP \<and> port ''tcp'' \<noteq> None then the (port ''tcp'')
         else if proto = IPPROTO_UDP \<and> port ''udp'' \<noteq> None then the (port ''udp'')
         else if proto = IPPROTO_SCTP \<and> port ''sctp'' \<noteq> None then the (port ''sctp'')
         else -1)"

definition m_string_to_number :: "string \<Rightarrow> int \<Rightarrow> int \<Rightarrow> int" where
  "m_string_to_number s mn mx =
     (let (number, end, erange) = strtol s
      in if end = [] \<and> end \<noteq> s
         then (if \<not> erange \<and> mn \<le> number \<and> number \<le> mx then number else -1)
         else -1)"

text \<open>1 when no character is not a digit, so for the empty string too.\<close>

fun m_str_is_digit :: "string \<Rightarrow> int" where
  "m_str_is_digit [] = 1"
| "m_str_is_digit (c # str) = (if \<not> isdigit c then 0 else m_str_is_digit str)"

text \<open>
  The bracketed form: the text between the brackets and the text after the colon that has
  to follow them; None when the form is broken.
\<close>

definition split_brackets :: "string \<Rightarrow> (string \<times> string option) option" where
  "split_brackets buf =
     (if buf \<noteq> [] \<and> hd buf = CHR ''[''
      then (case strchr (tl buf) (CHR '']'') of
              None \<Rightarrow> None
            | Some i \<Rightarrow> (case drop (Suc i) (tl buf) of
                          c # port \<Rightarrow> if c = CHR '':'' then Some (take i (tl buf), Some port) else None
                        | [] \<Rightarrow> None))
      else Some (buf, None))"

text \<open>
  The last colon of the text ends the address. This replaces a port the brackets gave.
\<close>

definition split_port :: "string \<Rightarrow> string \<times> string option" where
  "split_port buf =
     (case strrchr buf (CHR '':'') of
        None \<Rightarrow> (buf, None)
      | Some i \<Rightarrow> (take i buf, Some (drop (Suc i) buf)))"

definition set_ipv4 :: "u32 \<Rightarrow> ip_vs_service_user \<Rightarrow> ip_vs_service_user" where
  "set_ipv4 a svc = svc\<lparr>svc_addr := set_addr_ip a (svc_addr svc), svc_af := AF_INET\<rparr>"

definition resolve_ipv4 :: "resolver \<Rightarrow> string \<Rightarrow> u32 option" where
  "resolve_ipv4 R buf =
     (case inet_aton R buf of
        Some a \<Rightarrow> Some a
      | None \<Rightarrow> (let (c, a) = host_to_addr R buf 0 in if c \<noteq> -1 then Some a else None))"

definition parse_address ::
  "resolver \<Rightarrow> string \<Rightarrow> string option \<Rightarrow> ip_vs_service_user \<Rightarrow> (string option \<times> ip_vs_service_user) option" where
  "parse_address R buf portp svc =
     (case inet_pton6 R buf of
        Some a \<Rightarrow> Some (portp, svc\<lparr>svc_addr := a, svc_af := AF_INET6, svc_netmask := 128\<rparr>)
      | None \<Rightarrow>
          (let (buf, portp) = split_port buf
           in case resolve_ipv4 R buf of
                Some a \<Rightarrow> Some (portp, set_ipv4 a svc)
              | None \<Rightarrow> None))"

definition parse_port :: "resolver \<Rightarrow> string \<Rightarrow> u16 \<Rightarrow> int" where
  "parse_port R port proto =
     (let portn = m_string_to_number port 0 65535
      in if portn \<noteq> -1 then portn else m_service_to_port R port proto)"

text \<open>The result and the changed service; on failure the fields set so far stay set.\<close>

definition m_parse_service :: "resolver \<Rightarrow> string \<Rightarrow> ip_vs_service_user \<Rightarrow> i32 \<times> ip_vs_service_user" where
  "m_parse_service R buf svc =
     (if m_str_is_digit buf \<noteq> 0 then (SERVICE_NONE, svc)
      else case split_brackets buf of
        None \<Rightarrow> (SERVICE_NONE, svc)
      | Some (buf, portp) \<Rightarrow>
      (case parse_address R buf portp svc of
         None \<Rightarrow> (SERVICE_NONE, svc)
       | Some (None, svc) \<Rightarrow> (SERVICE_NONE OR SERVICE_ADDR, svc)
       | Some (Some port, svc) \<Rightarrow>
           (let portn = parse_port R port (svc_protocol svc)
            in if portn \<noteq> -1
               then (SERVICE_NONE OR SERVICE_ADDR OR SERVICE_PORT,
                     svc\<lparr>svc_port := htons (word_of_int portn)\<rparr>)
               else (SERVICE_NONE, svc))))"

section \<open>Setting a weight\<close>

definition log_fail :: "string \<Rightarrow> 'w ipvs_interface \<Rightarrow> bool \<times> 'w ipvs_interface" where
  "log_fail m i = (False, i\<lparr>ipvs_log := log_error m (ipvs_log i)\<rparr>)"

definition set_weight ::
  "('w, 'm, 'a) sys \<Rightarrow> resolver \<Rightarrow> string \<Rightarrow> string \<Rightarrow> i32 \<Rightarrow> 'w ipvs_interface \<Rightarrow> bool \<times> 'w ipvs_interface" where
  "set_weight L R vip server weight i =
     (let svc = service_zero\<lparr>svc_netmask := 0xffffffff, svc_protocol := IPPROTO_TCP\<rparr>;
          dest = dest_zero\<lparr>dst_weight := weight, dst_conn_flags := IP_VS_CONN_F_DROUTE\<rparr>;
          (parse, svc) = m_parse_service R (c_str vip) svc
      in if parse AND SERVICE_ADDR = 0 then log_fail ''Illegal VIP address[:port] specified.'' i
      else let (parse, t_dest) = m_parse_service R (c_str server) svc;
               dest = dest\<lparr>dst_af := svc_af t_dest, dst_addr := svc_addr t_dest,
                           dst_port := svc_port t_dest, dst_weight := weight\<rparr>;
               dest = (if parse = 1 then dest\<lparr>dst_port := svc_port svc\<rparr> else dest)
      in if parse AND SERVICE_ADDR = 0 then log_fail ''Illegal server address[:port] specified.'' i
      else let dest = (if parse = 1 then dest\<lparr>dst_port := svc_port svc\<rparr> else dest)
      in if svc_fwmark svc = 0 \<and> svc_port svc = 0 \<and> svc_flags svc AND IP_VS_SVC_F_PERSISTENT = 0
         then log_fail ''Zero port specified for non-persistent service'' i
      else if svc_flags svc AND IP_VS_SVC_F_ONEPACKET \<noteq> 0 \<and> svc_fwmark svc = 0 \<and> svc_protocol svc \<noteq> IPPROTO_UDP
         then log_fail ''One-Packet Scheduling is only for UDP virtual services'' i
      else let svc = (if svc_sched_name svc = [] then svc\<lparr>svc_sched_name := ''wlc''\<rparr> else svc);
               (result, svc, dest, s) = ipvs_update_dest L svc dest (ipvs_lib i)
      in (result = 0, i\<lparr>ipvs_lib := s\<rparr>))"

section \<open>A resolver to try the parser on\<close>

definition sample_resolver :: resolver where
  "sample_resolver = \<lparr>
     gethostbyname = (\<lambda>n. if n = ''web1'' then Some \<lparr>h_addrtype = AF_INET, h_length = 4, h_addr = 0x0200000A\<rparr> else None),
     gethostbyaddr = (\<lambda>a af. None),
     getservbyname = (\<lambda>n p. if n = ''http'' then Some (htons 80) else None),
     inet_pton6 = (\<lambda>s. if s = ''fe80::1'' then Some \<lparr>all_0 = 0x000080FE, all_1 = 0, all_2 = 0, all_3 = 0x01000000\<rparr>
                       else None),
     inet_aton = (\<lambda>s. if s = ''10.0.0.1'' then Some 0x0100000A else None)\<rparr>"

section \<open>Numbers and ports\<close>

lemma number_dec:
  assumes "mn \<le> n" and "n \<le> mx" and "LONG_MIN \<le> mn" and "mx \<le> LONG_MAX"
  shows "m_string_to_number (dec_of_int n) mn mx = n"
proof -
  have "strtol (dec_of_int n) = (n, [], False)" using assms by (intro strtol_dec_of_int) linarith+
  moreover have "dec_of_int n \<noteq> []" by (simp add: dec_of_int_def)
  ultimately show ?thesis using assms by (simp add: m_string_to_number_def)
qed

lemma parse_port_dec:
  "0 \<le> p \<Longrightarrow> p \<le> 65535 \<Longrightarrow> parse_port R (dec_of_int p) proto = p"
  using number_dec [of 0 p 65535] by (simp add: parse_port_def LONG_MIN_def LONG_MAX_def)

section \<open>Addresses\<close>

lemma is_digit_iff: "m_str_is_digit s \<noteq> 0 \<longleftrightarrow> list_all isdigit s"
  by (induction s) auto

lemma colon_not_digit: "\<not> isdigit (CHR '':'')"
  by (simp add: isdigit_def)

lemma dec_of_int_no_colon: "CHR '':'' \<notin> set (dec_of_int p)"
  using dec_of_nat_digits colon_not_digit by (auto simp: dec_of_int_def)

lemma split_port_colon: "CHR '':'' \<notin> set port \<Longrightarrow> split_port (host @ CHR '':'' # port) = (host, Some port)"
  by (simp add: split_port_def strrchr_append)

lemma split_port_plain: "CHR '':'' \<notin> set host \<Longrightarrow> split_port host = (host, None)"
  by (simp add: split_port_def strrchr_None [THEN iffD2])

lemma split_brackets_plain: "host \<noteq> [] \<Longrightarrow> hd host \<noteq> CHR ''['' \<Longrightarrow> split_brackets host = Some (host, None)"
  by (simp add: split_brackets_def)

lemma split_brackets_port:
  "CHR '']'' \<notin> set host \<Longrightarrow> split_brackets (CHR ''['' # host @ CHR '']'' # CHR '':'' # port) = Some (host, Some port)"
  by (simp add: split_brackets_def strchr_append)

lemma parse_ipv4_port:
  assumes "host \<noteq> []" and "hd host \<noteq> CHR ''[''" and "\<not> list_all isdigit host"
    and "inet_pton6 R (host @ CHR '':'' # dec_of_int p) = None"
    and "resolve_ipv4 R host = Some a" and "0 \<le> p" and "p \<le> 65535"
  shows "m_parse_service R (host @ CHR '':'' # dec_of_int p) svc =
    (SERVICE_ADDR OR SERVICE_PORT, (set_ipv4 a svc)\<lparr>svc_port := htons (word_of_int p)\<rparr>)"
proof -
  let ?buf = "host @ CHR '':'' # dec_of_int p"
  have "\<not> m_str_is_digit ?buf \<noteq> 0" using assms(3) by (simp only: is_digit_iff list_all_append) simp
  moreover have "split_brackets ?buf = Some (?buf, None)" using assms(1,2) by (simp add: split_brackets_plain)
  moreover have "parse_port R (dec_of_int p) proto = p" for proto by (rule parse_port_dec [OF assms(6,7)])
  ultimately show ?thesis
    using assms(4,5,6)
    by (simp add: m_parse_service_def parse_address_def split_port_colon [OF dec_of_int_no_colon]
        SERVICE_NONE_def SERVICE_ADDR_def SERVICE_PORT_def)
qed

lemma parse_ipv4_plain:
  assumes "host \<noteq> []" and "hd host \<noteq> CHR ''[''" and "\<not> list_all isdigit host" and "CHR '':'' \<notin> set host"
    and "inet_pton6 R host = None" and "resolve_ipv4 R host = Some a"
  shows "m_parse_service R host svc = (SERVICE_ADDR, set_ipv4 a svc)"
proof -
  have "\<not> m_str_is_digit host \<noteq> 0" using assms(3) by (simp only: is_digit_iff) simp
  moreover have "split_brackets host = Some (host, None)" using assms(1,2) by (simp add: split_brackets_plain)
  ultimately show ?thesis
    using assms(5,6)
    by (simp add: m_parse_service_def parse_address_def split_port_plain [OF assms(4)]
        SERVICE_NONE_def SERVICE_ADDR_def)
qed

text \<open>C31. An IPv4 address or a name that resolves to one, followed by a colon and a port number, is
  read as that address and that port (in network byte order); without the port only the address
  is read and the port stays.\<close>

theorem parse_service_ipv4:
  assumes "host \<noteq> []" and "hd host \<noteq> CHR ''[''" and "CHR '':'' \<notin> set host"
    and "resolve_ipv4 R host = Some a" and "0 \<le> p" and "p \<le> 65535"
    and "inet_pton6 R (host @ CHR '':'' # dec_of_int p) = None" and "inet_pton6 R host = None"
    and "\<not> list_all isdigit host"
  shows "m_parse_service R (host @ CHR '':'' # dec_of_int p) svc =
      (SERVICE_ADDR OR SERVICE_PORT, (set_ipv4 a svc)\<lparr>svc_port := htons (word_of_int p)\<rparr>)
    \<and> m_parse_service R host svc = (SERVICE_ADDR, set_ipv4 a svc)"
proof
  show "m_parse_service R (host @ CHR '':'' # dec_of_int p) svc =
      (SERVICE_ADDR OR SERVICE_PORT, (set_ipv4 a svc)\<lparr>svc_port := htons (word_of_int p)\<rparr>)"
    using assms by (intro parse_ipv4_port)
  show "m_parse_service R host svc = (SERVICE_ADDR, set_ipv4 a svc)"
    using assms by (intro parse_ipv4_plain)
qed

lemma parse_service_ipv4_witness:
  "m_parse_service sample_resolver (''10.0.0.1'' @ CHR '':'' # dec_of_int 8080) service_zero =
     (3, (set_ipv4 0x0100000A service_zero)\<lparr>svc_port := 0x901F\<rparr>)
   \<and> m_parse_service sample_resolver ''10.0.0.1'' service_zero = (1, set_ipv4 0x0100000A service_zero)"
proof -
  have res: "resolve_ipv4 sample_resolver ''10.0.0.1'' = Some 0x0100000A"
    by (simp add: resolve_ipv4_def sample_resolver_def)
  have no6: "inet_pton6 sample_resolver (''10.0.0.1'' @ CHR '':'' # dec_of_int 8080) = None"
    by (simp add: sample_resolver_def)
  have no6': "inet_pton6 sample_resolver ''10.0.0.1'' = None" by (simp add: sample_resolver_def)
  have nd: "\<not> list_all isdigit ''10.0.0.1''" by code_simp
  have "m_parse_service sample_resolver (''10.0.0.1'' @ CHR '':'' # dec_of_int 8080) service_zero =
      (SERVICE_ADDR OR SERVICE_PORT, (set_ipv4 0x0100000A service_zero)\<lparr>svc_port := htons (word_of_int 8080)\<rparr>)
    \<and> m_parse_service sample_resolver ''10.0.0.1'' service_zero = (SERVICE_ADDR, set_ipv4 0x0100000A service_zero)"
    by (rule parse_service_ipv4 [OF _ _ _ res _ _ no6 no6' nd]) simp_all
  moreover have "SERVICE_ADDR OR SERVICE_PORT = 3" "SERVICE_ADDR = 1" "htons (word_of_int 8080) = 0x901F"
    by code_simp+
  ultimately show ?thesis by simp
qed

text \<open>An IPv6 address in brackets followed by a colon and a port number is read as that address,
  with netmask 128, and that port.\<close>

theorem parse_service_ipv6:
  assumes "CHR '']'' \<notin> set host" and "inet_pton6 R host = Some a" and "0 \<le> p" and "p \<le> 65535"
  shows "m_parse_service R (CHR ''['' # host @ CHR '']'' # CHR '':'' # dec_of_int p) svc =
    (SERVICE_ADDR OR SERVICE_PORT,
     svc\<lparr>svc_addr := a, svc_af := AF_INET6, svc_netmask := 128, svc_port := htons (word_of_int p)\<rparr>)"
proof -
  have "\<not> isdigit (CHR ''['')" by (simp add: isdigit_def)
  then show ?thesis
    using assms(2,3) parse_port_dec [OF assms(3,4)]
    by (simp add: m_parse_service_def split_brackets_port [OF assms(1)] parse_address_def
        SERVICE_NONE_def SERVICE_ADDR_def SERVICE_PORT_def)
qed


text \<open>C32. The port after an IPv4 address or a name in brackets is dropped without a report: only the
  address is read, whatever text stands in the place of the port.\<close>

theorem parse_service_brackets_ipv4:
  assumes "CHR '']'' \<notin> set host" and "CHR '':'' \<notin> set host"
    and "inet_pton6 R host = None" and "resolve_ipv4 R host = Some a"
  shows "m_parse_service R (CHR ''['' # host @ CHR '']'' # CHR '':'' # port) svc = (SERVICE_ADDR, set_ipv4 a svc)"
proof -
  have "\<not> isdigit (CHR ''['')" by (simp add: isdigit_def)
  then show ?thesis
    using assms(3,4)
    by (simp add: m_parse_service_def split_brackets_port [OF assms(1)] parse_address_def
        split_port_plain [OF assms(2)] SERVICE_NONE_def SERVICE_ADDR_def)
qed

lemma parse_service_brackets_ipv4_witness:
  "m_parse_service sample_resolver (CHR ''['' # ''web1'' @ CHR '']'' # CHR '':'' # ''8080'') service_zero =
     (SERVICE_ADDR, set_ipv4 0x0200000A service_zero)
   \<and> svc_port (set_ipv4 0x0200000A service_zero) = 0"
proof
  have "inet_pton6 sample_resolver ''web1'' = None" by (simp add: sample_resolver_def)
  moreover have "resolve_ipv4 sample_resolver ''web1'' = Some 0x0200000A"
    by (simp add: resolve_ipv4_def host_to_addr_def sample_resolver_def)
  ultimately show "m_parse_service sample_resolver (CHR ''['' # ''web1'' @ CHR '']'' # CHR '':'' # ''8080'') service_zero =
     (SERVICE_ADDR, set_ipv4 0x0200000A service_zero)"
    by (intro parse_service_brackets_ipv4) simp_all
  show "svc_port (set_ipv4 0x0200000A service_zero) = 0" by code_simp
qed

section \<open>What setting a weight does\<close>

text \<open>The fields the parser leaves alone.\<close>

lemma parse_service_keeps:
  assumes "m_parse_service R buf svc = (r, svc')"
  shows "svc_protocol svc' = svc_protocol svc \<and> svc_flags svc' = svc_flags svc \<and> svc_fwmark svc' = svc_fwmark svc
    \<and> svc_sched_name svc' = svc_sched_name svc \<and> svc_pe_name svc' = svc_pe_name svc
    \<and> svc_timeout svc' = svc_timeout svc"
  using assms
  by (auto simp: m_parse_service_def parse_address_def set_ipv4_def Let_def
      split: if_splits option.splits prod.splits)

lemma parse_service_result:
  assumes "m_parse_service R buf svc = (r, svc')"
  shows "(r = SERVICE_NONE \<or> r = SERVICE_ADDR \<or> r = SERVICE_ADDR OR SERVICE_PORT)
    \<and> (r = SERVICE_ADDR \<longrightarrow> svc_port svc' = svc_port svc)
    \<and> (r \<noteq> SERVICE_NONE \<longrightarrow> svc_af svc' = AF_INET \<or> svc_af svc' = AF_INET6)"
  using assms
  by (auto simp: m_parse_service_def parse_address_def set_ipv4_def Let_def SERVICE_NONE_def SERVICE_ADDR_def
      SERVICE_PORT_def split: if_splits option.splits prod.splits)

lemma service_bits:
  "SERVICE_NONE AND SERVICE_ADDR = 0" "SERVICE_ADDR AND SERVICE_ADDR \<noteq> 0"
  "(SERVICE_ADDR OR SERVICE_PORT) AND SERVICE_ADDR \<noteq> 0"
  "SERVICE_ADDR \<noteq> SERVICE_NONE" "SERVICE_ADDR OR SERVICE_PORT \<noteq> SERVICE_NONE"
  by (simp_all add: SERVICE_NONE_def SERVICE_ADDR_def SERVICE_PORT_def)

definition base_service :: ip_vs_service_user where
  "base_service = service_zero\<lparr>svc_netmask := 0xffffffff, svc_protocol := IPPROTO_TCP\<rparr>"

text \<open>
  The service and destination the two arguments name: the server's port is the service's
  when it gives none. None when an argument does not parse or the service has no port.
\<close>

definition weight_target ::
  "resolver \<Rightarrow> string \<Rightarrow> string \<Rightarrow> i32 \<Rightarrow> (ip_vs_service_user \<times> ip_vs_dest_user) option" where
  "weight_target R vip server weight =
     (let (p, svc) = m_parse_service R (c_str vip) base_service;
          (q, t) = m_parse_service R (c_str server) svc
      in if p = SERVICE_NONE \<or> q = SERVICE_NONE \<or> svc_port svc = 0 then None
         else Some (svc\<lparr>svc_sched_name := ''wlc''\<rparr>,
                    dest_zero\<lparr>dst_af := svc_af t, dst_addr := svc_addr t,
                              dst_port := (if q = SERVICE_ADDR then svc_port svc else svc_port t),
                              dst_conn_flags := IP_VS_CONN_F_DROUTE, dst_weight := weight\<rparr>))"

lemma set_weight_cases:
  assumes "set_weight L R vip server weight i = (ok, j)"
  shows "(case weight_target R vip server weight of
      None \<Rightarrow> \<not> ok \<and> (\<exists>m. j = i\<lparr>ipvs_log := log_error m (ipvs_log i)\<rparr>)
    | Some (svc, dst) \<Rightarrow> exec_command L (UpdateDest svc dst) (ipvs_lib i) =
          (fst (exec_command L (UpdateDest svc dst) (ipvs_lib i)), ipvs_lib j)
        \<and> (ok \<longleftrightarrow> fst (exec_command L (UpdateDest svc dst) (ipvs_lib i)) = 0) \<and> j = i\<lparr>ipvs_lib := ipvs_lib j\<rparr>)"
proof -
  obtain p svc where p: "m_parse_service R (c_str vip) base_service = (p, svc)" by fastforce
  obtain q t where q: "m_parse_service R (c_str server) svc = (q, t)" by fastforce
  note keeps = parse_service_keeps [OF p]
  have flags: "svc_flags svc = 0" "svc_fwmark svc = 0" "svc_sched_name svc = []" "svc_protocol svc = 6"
    using keeps by (simp_all add: base_service_def service_zero_def)
  have pa: "p AND SERVICE_ADDR = 0 \<longleftrightarrow> p = SERVICE_NONE" "q AND SERVICE_ADDR = 0 \<longleftrightarrow> q = SERVICE_NONE"
    using parse_service_result [OF p] parse_service_result [OF q] service_bits by metis+
  have one: "(1 :: i32) = SERVICE_ADDR" by (simp add: SERVICE_ADDR_def)
  show ?thesis
  proof (cases "weight_target R vip server weight")
    case None
    with p q have none: "p = SERVICE_NONE \<or> q = SERVICE_NONE \<or> svc_port svc = 0"
      by (simp add: weight_target_def split: if_splits)
    with assms p q flags pa None show ?thesis
      by (auto simp: set_weight_def base_service_def [symmetric] log_fail_def Let_def split: if_splits)
  next
    case (Some sd)
    obtain svc0 dst0 where sd: "sd = (svc0, dst0)" by fastforce
    with Some p q have some: "p \<noteq> SERVICE_NONE" "q \<noteq> SERVICE_NONE" "svc_port svc \<noteq> 0"
      and svc0: "svc0 = svc\<lparr>svc_sched_name := ''wlc''\<rparr>"
      and dst0: "dst0 = dest_zero\<lparr>dst_af := svc_af t, dst_addr := svc_addr t,
         dst_port := (if q = SERVICE_ADDR then svc_port svc else svc_port t),
         dst_conn_flags := IP_VS_CONN_F_DROUTE, dst_weight := weight\<rparr>"
      by (auto simp: weight_target_def split: if_splits)
    obtain r svc' dst' s where up: "ipvs_update_dest L svc0 dst0 (ipvs_lib i) = (r, svc', dst', s)"
      by (metis prod_cases4)
    have "set_weight L R vip server weight i = (r = 0, i\<lparr>ipvs_lib := s\<rparr>)"
      using p q flags pa some up svc0 dst0
      by (cases "q = SERVICE_ADDR")
        (simp_all add: set_weight_def base_service_def [symmetric] one dest_zero_def IP_VS_SVC_F_ONEPACKET_def)
    with assms up sd Some show ?thesis by auto
  qed
qed

lemma weight_target_fields:
  assumes "weight_target R vip server weight = Some (svc, dst)"
  shows "svc_protocol svc = IPPROTO_TCP \<and> svc_port svc \<noteq> 0 \<and> svc_fwmark svc = 0 \<and> svc_sched_name svc = ''wlc''
    \<and> svc_pe_name svc = [] \<and> dst_weight dst = weight \<and> dst_conn_flags dst = IP_VS_CONN_F_DROUTE"
proof -
  obtain p s where p: "m_parse_service R (c_str vip) base_service = (p, s)" by fastforce
  from parse_service_keeps [OF p] assms p show ?thesis
    by (auto simp: weight_target_def base_service_def service_zero_def Let_def split: prod.splits if_splits)
qed

lemma set_weight_update:
  assumes "set_weight L R vip server weight i = (ok, j)"
    and "weight_target R vip server weight = Some (svc, dst)"
  shows "safe (ipvs_lib i) (ipvs_lib j) \<and> m_initialized j = m_initialized i
    \<and> (ok \<longrightarrow> sent (ipvs_lib j) = sent (ipvs_lib i) @ [request_of L (UpdateDest svc dst) (ipvs_lib i)])
    \<and> (sent (ipvs_lib j) = sent (ipvs_lib i)
        \<or> sent (ipvs_lib j) = sent (ipvs_lib i) @ [request_of L (UpdateDest svc dst) (ipvs_lib i)])"
proof -
  let ?c = "UpdateDest svc dst"
  from set_weight_cases [OF assms(1)] assms(2) have
    run: "exec_command L ?c (ipvs_lib i) = (fst (exec_command L ?c (ipvs_lib i)), ipvs_lib j)"
    and ok: "ok \<longleftrightarrow> fst (exec_command L ?c (ipvs_lib i)) = 0" and j: "j = i\<lparr>ipvs_lib := ipvs_lib j\<rparr>"
    by simp_all
  have "m_initialized j = m_initialized i"
    using j by (metis ipvs_interface.select_convs(1) ipvs_interface.surjective ipvs_interface.update_convs(2))
  moreover have "terminated ?c" using weight_target_fields [OF assms(2)] by simp
  then have "safe (ipvs_lib i) (ipvs_lib j)" by (rule cmd.op_safe [OF run])
  moreover have "ok \<Longrightarrow> sent (ipvs_lib j) = sent (ipvs_lib i) @ [request_of L ?c (ipvs_lib i)]"
    using cmd.op_done run ok by metis
  ultimately show ?thesis using cmd.op_sent [OF run] by simp
qed

text \<open>What any call may do to the library and the flag, whatever its arguments are.\<close>

lemma set_weight_frame:
  assumes "set_weight L R vip server weight i = (ok, j)"
  shows "safe (ipvs_lib i) (ipvs_lib j) \<and> m_initialized j = m_initialized i
    \<and> (\<exists>rs. sent (ipvs_lib j) = sent (ipvs_lib i) @ rs \<and> length rs \<le> 1
         \<and> (rs \<noteq> [] \<longrightarrow> weight_target R vip server weight \<noteq> None))"
proof (cases "weight_target R vip server weight")
  case None
  with set_weight_cases [OF assms] show ?thesis by auto
next
  case (Some sd)
  obtain svc dst where "sd = (svc, dst)" by fastforce
  with set_weight_update [OF assms] Some show ?thesis by auto
qed

text \<open>C7. Setting a weight asks the kernel for nothing when the arguments do not name a service with
  a port and a server. Otherwise it makes at most the one request that changes that
  destination of that TCP service to the weight, with direct routing, and returns true exactly
  when the request was accepted. Either way what it allocated is freed and no undefined
  behaviour happens.\<close>

theorem set_weight_effect:
  assumes "set_weight L R vip server weight i = (ok, j)"
  shows "safe (ipvs_lib i) (ipvs_lib j) \<and> m_initialized j = m_initialized i
    \<and> (case weight_target R vip server weight of
         None \<Rightarrow> \<not> ok \<and> ipvs_lib j = ipvs_lib i
       | Some (svc, dst) \<Rightarrow>
           dst_weight dst = weight \<and> dst_conn_flags dst = IP_VS_CONN_F_DROUTE
           \<and> svc_protocol svc = IPPROTO_TCP \<and> svc_port svc \<noteq> 0
           \<and> (ok \<longrightarrow> sent (ipvs_lib j) = sent (ipvs_lib i) @ [request_of L (UpdateDest svc dst) (ipvs_lib i)])
           \<and> (\<not> ok \<longrightarrow> sent (ipvs_lib j) = sent (ipvs_lib i)
               \<or> sent (ipvs_lib j) = sent (ipvs_lib i) @ [request_of L (UpdateDest svc dst) (ipvs_lib i)]))"
proof (cases "weight_target R vip server weight")
  case None
  with set_weight_cases [OF assms] show ?thesis by auto
next
  case (Some sd)
  obtain svc dst where sd: "sd = (svc, dst)" by fastforce
  with Some weight_target_fields [OF Some [unfolded sd]] set_weight_update [OF assms Some [unfolded sd]]
  show ?thesis by simp
qed

definition sample_interface :: "kernel ipvs_interface" where
  "sample_interface = \<lparr>m_initialized = False, ipvs_lib = lib_start [], ipvs_log = log_init\<rparr>"

lemma set_weight_effect_witness:
  "fst (set_weight (sample_sys False) sample_resolver ''10.0.0.1:80'' ''web1'' 7 sample_interface)
   \<and> length (sent (ipvs_lib (snd (set_weight (sample_sys False) sample_resolver ''10.0.0.1:80'' ''web1'' 7
        sample_interface)))) = 1
   \<and> map_option (\<lambda>(svc, dst). (svc_port svc, dst_port dst, dst_weight dst))
        (weight_target sample_resolver ''10.0.0.1:80'' ''web1'' 7) = Some (0x5000, 0x5000, 7)"
proof -
  let ?r = "set_weight (sample_sys False) sample_resolver ''10.0.0.1:80'' ''web1'' 7 sample_interface"
  have ok: "fst ?r" by code_simp
  have tgt: "map_option (\<lambda>(svc, dst). (svc_port svc, dst_port dst, dst_weight dst))
      (weight_target sample_resolver ''10.0.0.1:80'' ''web1'' 7) = Some (0x5000, 0x5000, 7)" by code_simp
  then obtain svc dst where sd: "weight_target sample_resolver ''10.0.0.1:80'' ''web1'' 7 = Some (svc, dst)"
    by (cases "weight_target sample_resolver ''10.0.0.1:80'' ''web1'' 7") auto
  have "length (sent (ipvs_lib (snd ?r))) = 1"
    using set_weight_effect [OF prod.collapse [symmetric], of sample_interface "sample_sys False"
        sample_resolver "''10.0.0.1:80''" "''web1''" 7] ok sd
    by (simp add: sample_interface_def lib_start_def)
  with ok tgt show ?thesis by simp
qed

section \<open>What starting does\<close>

text \<open>The sockets a run of the start has opened and not closed, at most \<open>n\<close> of them.\<close>

definition opened :: "nat \<Rightarrow> 'w lib \<Rightarrow> 'w lib \<Rightarrow> bool" where
  "opened n s t \<longleftrightarrow> (\<exists>fds. length fds \<le> n \<and> live t = map Fd fds @ live s)"

lemma opened_one: "live t = live s \<or> live t = Fd fd # live s \<Longrightarrow> opened 1 s t"
  by (auto simp: opened_def intro: exI [of _ "[]"] exI [of _ "[fd]"])

lemma opened_more: "opened m s t \<Longrightarrow> m \<le> n \<Longrightarrow> opened n s t"
  unfolding opened_def using le_trans by blast

lemma opened_trans:
  assumes "opened m s t" and "live t' = live t" and "opened n t' u" and "m + n \<le> k"
  shows "opened k s u"
proof -
  obtain fds gds where "length fds \<le> m" "live t = map Fd fds @ live s" "length gds \<le> n" "live u = map Fd gds @ live t'"
    using assms(1,3) by (auto simp: opened_def)
  then show ?thesis using assms(2,4) unfolding opened_def by (intro exI [of _ "gds @ fds"]) simp
qed

lemma modprobe_frame: "m_modprobe_ipvs run s = (p, t) \<Longrightarrow> live t = live s \<and> ub t = ub s"
  by (auto simp: m_modprobe_ipvs_def set_errno_def Let_def split: prod.splits sum.splits if_splits)

text \<open>How many of the initialisations of the library that a start makes fail.\<close>

definition failed_inits :: "('w, 'm, 'a) sys \<Rightarrow> 'w modprobe \<Rightarrow> 'w lib \<Rightarrow> nat" where
  "failed_inits L run s =
     (let (r, t) = ipvs_init L s; (p, u) = m_modprobe_ipvs run t
      in if r = 0 then 0 else if p \<noteq> 0 then 1 else if fst (ipvs_init L u) = 0 then 1 else 2)"

text \<open>Each of them leaves at most one raw socket, which nothing closes.\<close>

lemma init_leaves:
  assumes "init L run i = (ok, j)"
  shows "ub (ipvs_lib j) = ub (ipvs_lib i) \<and> m_initialized j = (ok \<or> m_initialized i)
    \<and> opened (failed_inits L run (ipvs_lib i)) (ipvs_lib i) (if ok then ipvs_close L (ipvs_lib j) else ipvs_lib j)"
proof -
  obtain r s where r: "ipvs_init L (ipvs_lib i) = (r, s)" by fastforce
  obtain p s1 where p: "m_modprobe_ipvs run s = (p, s1)" by fastforce
  obtain r2 s2 where r2: "ipvs_init L s1 = (r2, s2)" by fastforce
  note first = init_outcome [OF r] and s1 = modprobe_frame [OF p] and second = init_outcome [OF r2]
  have o1: "opened 1 (ipvs_lib i) s" and o2: "opened 1 s1 s2" using first second by (intro opened_one; blast)+
  have o1': "opened 1 (ipvs_lib i) s1" using o1 s1 by (simp add: opened_def)
  have "opened 2 (ipvs_lib i) s2" using s1 by (intro opened_trans [OF o1 _ o2]) simp_all
  moreover have "opened 0 (ipvs_lib i) (ipvs_close L s)" if "r = 0" using first that by (simp add: opened_def)
  moreover have "opened 1 (ipvs_lib i) (ipvs_close L s2)" if "r2 = 0" using second o1' that by (simp add: opened_def)
  ultimately show ?thesis
    using assms r p r2 first second s1 o1' unfolding init_def failed_inits_def Let_def
    by (auto simp: numeral_2_eq_2 split: if_splits)
qed

text \<open>C16. When the wrapper starts it is initialised and the library has a transport; when it does not
  it has reported the library's message and stays as it was. It opens at most two sockets.\<close>

theorem init_effect:
  assumes "init L run i = (ok, j)"
  shows "(if ok then m_initialized j \<and> transport_ready L (ipvs_lib j) \<and> ipvs_log j = ipvs_log i
      else m_initialized j = m_initialized i
        \<and> ipvs_log j = log_error (''Can't initialize ipvs: '' @ ipvs_strerror L (errno (ipvs_lib j)) (ipvs_lib j)) (ipvs_log i))
    \<and> ub (ipvs_lib j) = ub (ipvs_lib i)
    \<and> (\<exists>fds. length fds \<le> 2 \<and> live (ipvs_lib j) = map Fd fds @ live (ipvs_lib i))"
proof -
  obtain r s where r: "ipvs_init L (ipvs_lib i) = (r, s)" by fastforce
  note first = init_outcome [OF r]
  have o1: "opened 1 (ipvs_lib i) s" using first by (intro opened_one) blast
  show ?thesis
  proof (cases "r = 0")
    case True
    with assms r have "ok" "j = i\<lparr>ipvs_lib := s, m_initialized := True\<rparr>" by (auto simp: init_def)
    with first True opened_more [OF o1] show ?thesis by (simp add: opened_def)
  next
    case False
    obtain p s1 where p: "m_modprobe_ipvs run s = (p, s1)" by fastforce
    note s1 = modprobe_frame [OF p]
    obtain r2 s2 where r2: "ipvs_init L s1 = (r2, s2)" by fastforce
    note second = init_outcome [OF r2]
    have "opened 1 s1 s2" using second by (intro opened_one) blast
    then have o2: "opened 2 (ipvs_lib i) s2" using s1 by (intro opened_trans [OF o1, of s1 1]) simp_all
    have o1': "opened 2 (ipvs_lib i) s1" using opened_more [OF o1] s1 by (simp add: opened_def)
    define u where "u = (if p = 0 then s2 else s1)"
    have ub: "ub u = ub (ipvs_lib i)" "opened 2 (ipvs_lib i) u" using first second s1 o2 o1' by (simp_all add: u_def)
    have "init L run i = (if p = 0 \<and> r2 = 0 then (True, i\<lparr>ipvs_lib := s2, m_initialized := True\<rparr>)
        else (False, i\<lparr>ipvs_lib := u, ipvs_log := log_error (''Can't initialize ipvs: '' @
          ipvs_strerror L (errno u) u) (ipvs_log i)\<rparr>))"
      using False r p r2 by (simp add: init_def u_def)
    with assms have "(ok, j) = (if p = 0 \<and> r2 = 0 then (True, i\<lparr>ipvs_lib := s2, m_initialized := True\<rparr>)
        else (False, i\<lparr>ipvs_lib := u, ipvs_log := log_error (''Can't initialize ipvs: '' @
          ipvs_strerror L (errno u) u) (ipvs_log i)\<rparr>))" by simp
    with ub second show ?thesis
      unfolding opened_def [symmetric] by (cases "p = 0 \<and> r2 = 0") (simp_all add: u_def)
  qed
qed

lemma init_effect_witness:
  "fst (init (sample_sys False) (\<lambda>w. (Inr (Some 0), w)) sample_interface)
   \<and> m_initialized (snd (init (sample_sys False) (\<lambda>w. (Inr (Some 0), w)) sample_interface))"
proof -
  let ?r = "init (sample_sys False) (\<lambda>w. (Inr (Some 0), w)) sample_interface"
  have ok: "fst ?r" by code_simp
  from init_effect [OF prod.collapse [symmetric], of "sample_sys False" "\<lambda>w. (Inr (Some 0), w)" sample_interface] ok
  show ?thesis by simp
qed

text \<open>C33. In the build without netlink, starting on a system where the module is not loaded (the raw
  socket opens, the kernel does not know the option, modprobe works, the second try works) leaves
  the first socket open for good: the destructor closes the second one only.\<close>

theorem init_retry_leaks:
  assumes "\<not> libipvs_use_nl L"
    and "socket_raw L (world (ipvs_lib i)) = (Inr fd1, w1)" and "getsockopt_info L fd1 w1 = (Inl e, w2)"
    and "run w2 = (Inr (Some 0), w3)"
    and "socket_raw L w3 = (Inr fd2, w4)" and "getsockopt_info L fd2 w4 = (Inr gi, w5)"
  shows "\<exists>j. init L run i = (True, j) \<and> live (ipvs_lib (destroy L j)) = Fd fd1 # live (ipvs_lib i)"
  using assms
  by (simp add: init_def ipvs_init_def open_raw_socket_def call_getsockopt_info_def m_modprobe_ipvs_def
      set_errno_def destroy_def ipvs_close_def nl_mode_def)

text \<open>A system without the module: its option is known once modprobe has run.\<close>

definition sample_unloaded :: "(kernel, message, attr) sys" where
  "sample_unloaded = (sample_sys False)\<lparr>
     socket_raw := (\<lambda>w. (Inr (3 + int (length w)), w)),
     getsockopt_info := (\<lambda>fd w. (if w = [] then Inl ENOPROTOOPT
       else Inr \<lparr>info_version = IP_VS_VERSION_CODE, info_size = 4096, info_num_services = 0\<rparr>, w))\<rparr>"

lemma init_retry_leaks_witness:
  "\<exists>j. init sample_unloaded (\<lambda>w. (Inr (Some 0), [] # w)) sample_interface = (True, j)
     \<and> live (ipvs_lib (destroy sample_unloaded j)) = [Fd 3]"
proof -
  have "\<exists>j. init sample_unloaded (\<lambda>w. (Inr (Some 0), [] # w)) sample_interface = (True, j)
      \<and> live (ipvs_lib (destroy sample_unloaded j)) = Fd 3 # live (ipvs_lib sample_interface)"
  proof (rule init_retry_leaks)
    let ?i = "\<lparr>info_version = IP_VS_VERSION_CODE, info_size = 4096, info_num_services = 0\<rparr>"
    show "\<not> libipvs_use_nl sample_unloaded" by (simp add: sample_unloaded_def sample_sys_def)
    show "socket_raw sample_unloaded (world (ipvs_lib sample_interface)) = (Inr 3, [])"
      by (simp add: sample_unloaded_def sample_interface_def lib_start_def)
    show "getsockopt_info sample_unloaded 3 [] = (Inl ENOPROTOOPT, [])" by (simp add: sample_unloaded_def)
    show "(Inr (Some 0), [] # []) = (Inr (Some 0), [[]])" by simp
    show "socket_raw sample_unloaded [[]] = (Inr 4, [[]])" by (simp add: sample_unloaded_def)
    show "getsockopt_info sample_unloaded 4 [[]] = (Inr ?i, [[]])" by (simp add: sample_unloaded_def)
  qed
  then show ?thesis by (simp add: sample_interface_def lib_start_def)
qed

section \<open>The request a weight becomes\<close>

text \<open>A name or an IPv4 address without a port that the parser takes for the address \<open>a\<close>.\<close>

definition ipv4_name :: "resolver \<Rightarrow> string \<Rightarrow> u32 \<Rightarrow> bool" where
  "ipv4_name R host a \<longleftrightarrow> host \<noteq> [] \<and> hd host \<noteq> CHR ''['' \<and> \<not> list_all isdigit host \<and> CHR '':'' \<notin> set host
     \<and> NUL \<notin> set host \<and> inet_pton6 R host = None \<and> resolve_ipv4 R host = Some a"

text \<open>
  The argument of the socket option that sets the weight of the server at address \<open>b\<close> of the TCP
  service at address \<open>a\<close>, both at port \<open>p\<close>.
\<close>

definition edit_request :: "u32 \<Rightarrow> u32 \<Rightarrow> int \<Rightarrow> i32 \<Rightarrow> so_arg" where
  "edit_request a b p weight = SoServiceDest
     \<lparr>svck_protocol = IPPROTO_TCP, svck_addr = a, svck_port = htons (word_of_int p), svck_fwmark = 0,
      svck_sched_name = ''wlc'', svck_flags = 0, svck_timeout = 0, svck_netmask = 0xffffffff\<rparr>
     \<lparr>dstk_addr = b, dstk_port = htons (word_of_int p), dstk_conn_flags = IP_VS_CONN_F_DROUTE,
      dstk_weight = weight, dstk_u_threshold = 0, dstk_l_threshold = 0\<rparr>"

lemma port_not_zero:
  assumes "0 < p" and "p \<le> 65535"
  shows "htons (word_of_int p) \<noteq> 0"
proof
  assume "htons (word_of_int p) = 0"
  moreover have "ntohs 0 = 0" by (simp add: ntohs_def)
  ultimately have "(word_of_int p :: u16) = 0" by (metis ntohs_ntohs)
  then have "uint (word_of_int p :: u16) = 0" by simp
  then show False using assms by (simp add: uint_word_of_int)
qed

lemma weight_target_ipv4:
  assumes "ipv4_name R vip a" and "ipv4_name R host b" and "0 < p" and "p \<le> 65535"
    and "inet_pton6 R (vip @ CHR '':'' # dec_of_int p) = None"
  shows "weight_target R (vip @ CHR '':'' # dec_of_int p) host weight =
    Some ((set_ipv4 a base_service)\<lparr>svc_port := htons (word_of_int p), svc_sched_name := ''wlc''\<rparr>,
      dest_zero\<lparr>dst_af := AF_INET, dst_addr := set_addr_ip b (set_addr_ip a (svc_addr base_service)),
        dst_port := htons (word_of_int p), dst_conn_flags := IP_VS_CONN_F_DROUTE, dst_weight := weight\<rparr>)"
proof -
  let ?vip = "vip @ CHR '':'' # dec_of_int p"
  have c: "c_str ?vip = ?vip" "c_str host = host"
    using assms(1,2) dec_of_int_no_NUL by (auto simp: ipv4_name_def intro!: c_str_id)
  let ?svc = "(set_ipv4 a base_service)\<lparr>svc_port := htons (word_of_int p)\<rparr>"
  have "m_parse_service R ?vip base_service = (SERVICE_ADDR OR SERVICE_PORT, ?svc)"
    using assms by (intro parse_ipv4_port) (auto simp: ipv4_name_def)
  moreover have "m_parse_service R host ?svc = (SERVICE_ADDR, set_ipv4 b ?svc)"
    using assms(2) by (intro parse_ipv4_plain) (auto simp: ipv4_name_def)
  moreover have "svc_port ?svc \<noteq> 0" using port_not_zero [OF assms(3,4)] by simp
  ultimately show ?thesis
    using service_bits by (simp add: weight_target_def c) (simp add: set_ipv4_def)
qed

lemma set_weight_ipv4:
  assumes "ipv4_name R vip a" and "ipv4_name R host b" and "0 < p" and "p \<le> 65535"
    and "inet_pton6 R (vip @ CHR '':'' # dec_of_int p) = None"
    and "\<not> nl_mode L (ipvs_lib i)"
    and "setsockopt L (sockfd (ipvs_lib i)) IP_VS_SO_SET_EDITDEST (edit_request a b p weight) (world (ipvs_lib i))
      = (Inr u, w')"
  shows "\<exists>j. set_weight L R (vip @ CHR '':'' # dec_of_int p) host weight i = (True, j)
    \<and> sent (ipvs_lib j) = sent (ipvs_lib i) @ [SoRequest IP_VS_SO_SET_EDITDEST (edit_request a b p weight)]"
proof -
  let ?vip = "vip @ CHR '':'' # dec_of_int p"
  obtain ok j where run: "set_weight L R ?vip host weight i = (ok, j)" by fastforce
  let ?svc = "(set_ipv4 a base_service)\<lparr>svc_port := htons (word_of_int p), svc_sched_name := ''wlc''\<rparr>"
  let ?dst = "dest_zero\<lparr>dst_af := AF_INET, dst_addr := set_addr_ip b (set_addr_ip a (svc_addr base_service)),
        dst_port := htons (word_of_int p), dst_conn_flags := IP_VS_CONN_F_DROUTE, dst_weight := weight\<rparr>"
  note tgt = weight_target_ipv4 [OF assms(1-5), of weight]
  let ?s = "(ipvs_lib i)\<lparr>ipvs_func := Some F_update_dest\<rparr>"
  have arg: "SoServiceDest (service_prefix (?svc\<lparr>svc_addr_v4 := a\<rparr>)) (dest_prefix (?dst\<lparr>dst_addr_v4 := b\<rparr>))
      = edit_request a b p weight"
    by (simp add: edit_request_def service_prefix_def dest_prefix_def set_ipv4_def base_service_def service_zero_def
        dest_zero_def)
  have mode: "\<not> nl_mode L ?s" using assms(6) by (simp add: nl_mode_def)
  have svc: "check_compat_svc ?svc ?s = (True, ?svc\<lparr>svc_addr_v4 := a\<rparr>, ?s)"
    by (simp add: check_compat_svc_def set_ipv4_def base_service_def service_zero_def)
  have dst: "check_compat_dest ?dst ?s = (True, ?dst\<lparr>dst_addr_v4 := b\<rparr>, ?s)"
    by (simp add: check_compat_dest_def)
  have "exec_command L (UpdateDest ?svc ?dst) (ipvs_lib i) = call_setsockopt L IP_VS_SO_SET_EDITDEST
      (edit_request a b p weight) ?s"
    unfolding exec_command.simps ipvs_update_dest_def dest_command_def if_not_P [OF mode] svc dst Let_def prod.case arg
    by (simp add: split_beta)
  also have "\<dots> = (0, ?s\<lparr>world := w', sent := sent (ipvs_lib i) @ [SoRequest IP_VS_SO_SET_EDITDEST (edit_request a b p weight)]\<rparr>)"
    using assms(7) by (simp add: call_setsockopt_def)
  finally have ex: "exec_command L (UpdateDest ?svc ?dst) (ipvs_lib i) =
      (0, ?s\<lparr>world := w', sent := sent (ipvs_lib i) @ [SoRequest IP_VS_SO_SET_EDITDEST (edit_request a b p weight)]\<rparr>)" .
  from set_weight_cases [OF run] tgt have "ok" "ipvs_lib j = snd (exec_command L (UpdateDest ?svc ?dst) (ipvs_lib i))"
    using ex by simp_all
  with run ex show ?thesis by simp
qed

end
