(* ===== verification/Configuration.thy ===== *)
theory Configuration
  imports Logging
begin

text \<open>
  \<^verbatim>\<open>src/configuration.cpp\<close> and \<^verbatim>\<open>src/configuration.h\<close>: the settings object and the reader
  of the configuration file. The file is its text (None when it cannot be opened); the
  reader goes through its lines as \<^verbatim>\<open>std::getline\<close> delivers them and stops at the first
  invalid one, with the settings of the lines before it kept.

  The abstract view is the list of the assignments a file makes: the settings after a
  successful read are those of the last assignment to each key.
\<close>

section \<open>The settings\<close>

record configuration =
  m_port :: i32
  m_server_threads :: i32
  m_use_ssl :: bool
  m_listen_address :: string
  m_log_verbosity :: string
  m_log_sinks :: string
  m_api_key :: string
  m_vip :: string
  m_ssl_key_file :: string
  m_ssl_cert_chain_file :: string
  m_ssl_dh_file :: string

definition configuration_manager :: configuration where
  "configuration_manager =
     \<lparr>m_port = 8080, m_server_threads = 2, m_use_ssl = False, m_listen_address = ''0.0.0.0'',
      m_log_verbosity = [], m_log_sinks = [], m_api_key = [], m_vip = [],
      m_ssl_key_file = [], m_ssl_cert_chain_file = [], m_ssl_dh_file = []\<rparr>"

text \<open>The accessors the other components use.\<close>

abbreviation (input) get_port :: "configuration \<Rightarrow> i32" where "get_port c \<equiv> m_port c"
abbreviation (input) get_threads :: "configuration \<Rightarrow> i32" where "get_threads c \<equiv> m_server_threads c"
abbreviation (input) get_listen_address :: "configuration \<Rightarrow> string" where "get_listen_address c \<equiv> m_listen_address c"
abbreviation (input) get_log_verbosity :: "configuration \<Rightarrow> string" where "get_log_verbosity c \<equiv> m_log_verbosity c"
abbreviation (input) get_log_sinks :: "configuration \<Rightarrow> string" where "get_log_sinks c \<equiv> m_log_sinks c"
abbreviation (input) get_api_key :: "configuration \<Rightarrow> string" where "get_api_key c \<equiv> m_api_key c"
abbreviation (input) get_vip :: "configuration \<Rightarrow> string" where "get_vip c \<equiv> m_vip c"
abbreviation (input) get_ssl_key_file :: "configuration \<Rightarrow> string" where "get_ssl_key_file c \<equiv> m_ssl_key_file c"
abbreviation (input) get_ssl_cert_chain_file :: "configuration \<Rightarrow> string" where "get_ssl_cert_chain_file c \<equiv> m_ssl_cert_chain_file c"
abbreviation (input) get_ssl_dh_file :: "configuration \<Rightarrow> string" where "get_ssl_dh_file c \<equiv> m_ssl_dh_file c"
abbreviation (input) get_ssl :: "configuration \<Rightarrow> bool" where "get_ssl c \<equiv> m_use_ssl c"

section \<open>Reading the file\<close>

function getlines :: "string \<Rightarrow> string list" where
  "getlines text =
     (if text = [] then []
      else let line = takeWhile (\<lambda>c. c \<noteq> CHR 0x0A) text
           in line # getlines (drop (Suc (length line)) text))"
  by pat_completeness auto
termination
  by (relation "measure length") auto

declare getlines.simps [simp del]

text \<open>The chain of key comparisons; None is the final \<^verbatim>\<open>else\<close>, an unknown key.\<close>

definition config_set :: "string \<Rightarrow> string \<Rightarrow> configuration \<Rightarrow> configuration option" where
  "config_set key value c =
     (if key = ''port'' then Some (c\<lparr>m_port := atoi (c_str value)\<rparr>)
      else if key = ''listen_address'' then Some (c\<lparr>m_listen_address := value\<rparr>)
      else if key = ''log_verbosity'' then Some (c\<lparr>m_log_verbosity := value\<rparr>)
      else if key = ''log_sinks'' then Some (c\<lparr>m_log_sinks := value\<rparr>)
      else if key = ''threads'' then Some (c\<lparr>m_server_threads := atoi (c_str value)\<rparr>)
      else if key = ''api_key'' then Some (c\<lparr>m_api_key := value\<rparr>)
      else if key = ''vip'' then Some (c\<lparr>m_vip := value\<rparr>)
      else if key = ''use_ssl'' then
        (let lval = str_to_lower value
         in Some (if lval = ''yes'' \<or> lval = ''true'' then c\<lparr>m_use_ssl := True\<rparr> else c))
      else if key = ''ssl_key_file'' then Some (c\<lparr>m_ssl_key_file := value\<rparr>)
      else if key = ''ssl_cert_chain_file'' then Some (c\<lparr>m_ssl_cert_chain_file := value\<rparr>)
      else if key = ''ssl_dh_file'' then Some (c\<lparr>m_ssl_dh_file := value\<rparr>)
      else None)"

text \<open>
  One line: skipped when blank or a comment, else a key and a value around the first
  colon; None is an invalid line. (The split returns, by \<open>str_split_returns_iff\<close>.)
\<close>

definition config_line :: "string \<Rightarrow> configuration \<Rightarrow> configuration option" where
  "config_line raw c =
     (let line = str_trim raw
      in if line = [] then Some c
         else if str_starts_with ''#'' line then Some c
         else case str_split line '':'' 2 of
                Some [k, v] \<Rightarrow> config_set (str_to_lower k) (str_trim v) c
              | _ \<Rightarrow> None)"

definition invalid_line :: "string \<Rightarrow> int \<Rightarrow> string" where
  "invalid_line filename line_nr =
     ''Invalid configuration in '' @ filename @ '' line '' @ str_from_number line_nr"

fun config_lines ::
  "string \<Rightarrow> string list \<Rightarrow> int \<Rightarrow> configuration \<Rightarrow> log_state \<Rightarrow> bool \<times> configuration \<times> log_state" where
  "config_lines filename [] line_nr c l = (True, c, l)"
| "config_lines filename (line # lines) line_nr c l =
     (let line_nr = line_nr + 1
      in case config_line line c of
           None \<Rightarrow> (False, c, log_error (invalid_line filename line_nr) l)
         | Some c' \<Rightarrow> config_lines filename lines line_nr c' l)"

definition config_open ::
  "string \<Rightarrow> string option \<Rightarrow> configuration \<Rightarrow> log_state \<Rightarrow> bool \<times> configuration \<times> log_state" where
  "config_open filename contents c l =
     (let l = log_message ''Reading configuration...'' l
      in case contents of
           None \<Rightarrow> (False, c, log_error (''Could not open configuration file: '' @ filename) l)
         | Some text \<Rightarrow> config_lines filename (getlines text) 0 c l)"

section \<open>The abstract view: a list of assignments\<close>

definition config_keys :: "string list" where
  "config_keys = [''port'', ''listen_address'', ''log_verbosity'', ''log_sinks'', ''threads'',
     ''api_key'', ''vip'', ''use_ssl'', ''ssl_key_file'', ''ssl_cert_chain_file'', ''ssl_dh_file'']"

text \<open>What a line says: nothing, an assignment, or nothing the reader accepts.\<close>

datatype line_class = Skip | Assign string string | Junk

definition classify :: "string \<Rightarrow> line_class" where
  "classify raw =
     (let line = str_trim raw
      in if line = [] \<or> str_starts_with ''#'' line then Skip
         else if CHR '':'' \<in> set line
         then let k = str_to_lower (takeWhile (\<lambda>c. c \<noteq> CHR '':'') line);
                  v = str_trim (tl (dropWhile (\<lambda>c. c \<noteq> CHR '':'') line))
              in if k \<in> set config_keys then Assign k v else Junk
         else Junk)"

fun assignments :: "string list \<Rightarrow> (string \<times> string) list" where
  "assignments [] = []"
| "assignments (line # lines) =
     (case classify line of Assign k v \<Rightarrow> (k, v) # assignments lines | _ \<Rightarrow> assignments lines)"

text \<open>The value a list of assignments leaves for a key: the last one.\<close>

definition last_value :: "string \<Rightarrow> (string \<times> string) list \<Rightarrow> string \<Rightarrow> string" where
  "last_value key as d = foldl (\<lambda>x (k, v). if k = key then v else x) d as"

definition last_number :: "string \<Rightarrow> (string \<times> string) list \<Rightarrow> i32 \<Rightarrow> i32" where
  "last_number key as d = foldl (\<lambda>x (k, v). if k = key then atoi (c_str v) else x) d as"

definition ssl_switched_on :: "(string \<times> string) list \<Rightarrow> bool" where
  "ssl_switched_on as =
     list_ex (\<lambda>(k, v). k = ''use_ssl'' \<and> str_to_lower v \<in> {''yes'', ''true''}) as"

definition config_after :: "(string \<times> string) list \<Rightarrow> configuration \<Rightarrow> configuration" where
  "config_after as c =
     \<lparr>m_port = last_number ''port'' as (m_port c),
      m_server_threads = last_number ''threads'' as (m_server_threads c),
      m_use_ssl = (m_use_ssl c \<or> ssl_switched_on as),
      m_listen_address = last_value ''listen_address'' as (m_listen_address c),
      m_log_verbosity = last_value ''log_verbosity'' as (m_log_verbosity c),
      m_log_sinks = last_value ''log_sinks'' as (m_log_sinks c),
      m_api_key = last_value ''api_key'' as (m_api_key c),
      m_vip = last_value ''vip'' as (m_vip c),
      m_ssl_key_file = last_value ''ssl_key_file'' as (m_ssl_key_file c),
      m_ssl_cert_chain_file = last_value ''ssl_cert_chain_file'' as (m_ssl_cert_chain_file c),
      m_ssl_dh_file = last_value ''ssl_dh_file'' as (m_ssl_dh_file c)\<rparr>"

section \<open>The reader implements the abstract view\<close>

lemma config_set_None: "config_set k v c = None \<longleftrightarrow> k \<notin> set config_keys"
  by (simp add: config_set_def config_keys_def Let_def)

lemma config_set_after: "config_set k v c = Some c' \<Longrightarrow> c' = config_after [(k, v)] c"
  by (auto simp: config_set_def config_after_def last_value_def last_number_def
      ssl_switched_on_def Let_def split: if_splits)

lemma config_after_Nil: "config_after [] c = c"
  by (simp add: config_after_def last_value_def last_number_def ssl_switched_on_def)

lemma config_after_append: "config_after (as @ bs) c = config_after bs (config_after as c)"
  by (auto simp: config_after_def last_value_def last_number_def ssl_switched_on_def)

lemma config_after_Cons: "config_after (kv # as) c = config_after as (config_after [kv] c)"
  using config_after_append [of "[kv]" as c] by simp

lemma config_line_classify:
  "config_line raw c =
     (case classify raw of Skip \<Rightarrow> Some c | Assign k v \<Rightarrow> Some (config_after [(k, v)] c) | Junk \<Rightarrow> None)"
proof -
  have set_key: "config_set k v c = (if k \<in> set config_keys then Some (config_after [(k, v)] c) else None)" for k v
    using config_set_None [of k v c] config_set_after [of k v c] by (cases "config_set k v c") auto
  show ?thesis
  proof (cases rule: str_split_2_cases [of "CHR '':''" "str_trim raw"])
    case 1
    then show ?thesis by (simp add: config_line_def classify_def Let_def)
  next
    case (2 k v)
    then have "takeWhile (\<lambda>c. c \<noteq> CHR '':'') (str_trim raw) = k"
      and "dropWhile (\<lambda>c. c \<noteq> CHR '':'') (str_trim raw) = CHR '':'' # v"
      by (simp_all add: takeWhile_append dropWhile_append)
    with 2(1) 2(3) show ?thesis by (simp add: config_line_def classify_def Let_def set_key)
  qed
qed

text \<open>The number of lines before the first invalid one.\<close>

definition good_lines :: "string list \<Rightarrow> string list" where
  "good_lines lines = takeWhile (\<lambda>x. classify x \<noteq> Junk) lines"

lemma config_lines_spec:
  "config_lines filename lines nr c l =
     (if \<forall>x \<in> set lines. classify x \<noteq> Junk
      then (True, config_after (assignments lines) c, l)
      else (False, config_after (assignments (good_lines lines)) c,
            log_error (invalid_line filename (nr + int (length (good_lines lines)) + 1)) l))"
proof (induction lines arbitrary: nr c)
  case Nil
  then show ?case by (simp add: config_after_Nil)
next
  case (Cons x xs)
  show ?case
  proof (cases "classify x")
    case Skip
    with Cons.IH [of "nr + 1" c] show ?thesis
      by (auto simp: config_line_classify good_lines_def algebra_simps)
  next
    case (Assign k v)
    with Cons.IH [of "nr + 1" "config_after [(k, v)] c"] show ?thesis
      by (simp add: config_line_classify good_lines_def algebra_simps flip: config_after_Cons)
  next
    case Junk
    then show ?thesis by (simp add: config_line_classify good_lines_def config_after_Nil)
  qed
qed

section \<open>Properties of the reader\<close>

text \<open>C14. Reading a configuration file is the fold of its assignments: when every line is blank,
  a comment or an assignment to a known key, the read succeeds, logs nothing else and leaves
  each setting at the value of the last assignment to its key (the port and the thread count
  through atoi; SSL is on when it was on or some line switches it on, and no line switches it
  off); otherwise it fails at the first invalid line, keeps the assignments of the lines before
  it and logs that line's number, counted from 1.\<close>

theorem config_open_refines:
  "config_open filename (Some text) c l =
     (let lines = getlines text; l' = log_message ''Reading configuration...'' l
      in if \<forall>x \<in> set lines. classify x \<noteq> Junk
         then (True, config_after (assignments lines) c, l')
         else (False, config_after (assignments (good_lines lines)) c,
               log_error (invalid_line filename (int (length (good_lines lines)) + 1)) l'))"
  by (simp add: config_open_def config_lines_spec Let_def)

theorem config_open_refines_witness:
  "\<exists>l. config_open ''f'' (Some ''port: 80\<newline>bogus\<newline>vip: a'') configuration_manager log_init
     = (False, configuration_manager\<lparr>m_port := 80\<rparr>, l)"
proof -
  have lines: "getlines ''port: 80\<newline>bogus\<newline>vip: a'' = [''port: 80'', ''bogus'', ''vip: a'']"
    by (simp add: getlines.simps)
  have cl: "classify ''port: 80'' = Assign ''port'' ''80''" "classify ''bogus'' = Junk"
    by code_simp+
  have num: "atoi (c_str ''80'') = 80" by code_simp
  show ?thesis
    by (simp add: config_open_refines lines cl good_lines_def Let_def num config_after_def
        last_number_def last_value_def ssl_switched_on_def configuration_manager_def)
qed

text \<open>A file that sets every key of a given configuration, one assignment a line.\<close>

definition conf_line :: "string \<Rightarrow> string \<Rightarrow> string" where
  "conf_line k v = k @ '': '' @ v"

definition conf_pairs :: "configuration \<Rightarrow> (string \<times> string) list" where
  "conf_pairs c =
     [(''log_verbosity'', m_log_verbosity c), (''log_sinks'', m_log_sinks c),
      (''listen_address'', m_listen_address c), (''port'', str_from_number (sint (m_port c))),
      (''threads'', str_from_number (sint (m_server_threads c))),
      (''use_ssl'', if m_use_ssl c then ''yes'' else ''no''),
      (''ssl_key_file'', m_ssl_key_file c), (''ssl_cert_chain_file'', m_ssl_cert_chain_file c),
      (''ssl_dh_file'', m_ssl_dh_file c), (''api_key'', m_api_key c), (''vip'', m_vip c)]"

definition conf_file :: "configuration \<Rightarrow> string" where
  "conf_file c = concat (map (\<lambda>(k, v). conf_line k v @ [CHR 0x0A]) (conf_pairs c))"

text \<open>A value the file format can carry: on one line, with no white space around it.\<close>

definition conf_value :: "string \<Rightarrow> bool" where
  "conf_value v \<longleftrightarrow> CHR 0x0A \<notin> set v \<and> str_trim v = v"

lemma getlines_concat:
  "\<forall>x \<in> set xs. CHR 0x0A \<notin> set x \<Longrightarrow> getlines (concat (map (\<lambda>x. x @ [CHR 0x0A]) xs)) = xs"
proof (induction xs)
  case Nil
  then show ?case by (simp add: getlines.simps)
next
  case (Cons x xs)
  have "takeWhile (\<lambda>c. c \<noteq> CHR 0x0A) (x @ CHR 0x0A # ys) = x" for ys
    using Cons.prems by (auto simp: takeWhile_append)
  with Cons show ?case by (subst getlines.simps) simp
qed

lemma str_trim_conf_line:
  assumes "k \<noteq> []" and "\<not> isspace (hd k)" and "str_trim v = v"
  shows "str_trim (conf_line k v) = (if v = [] then k @ '':'' else conf_line k v)"
proof (cases "v = []")
  case True
  have "str_rtrim (k @ '': '') = k @ '':''"
    by (simp add: str_rtrim_rev isspace_def)
  moreover have "str_ltrim (k @ '':'') = k @ '':''"
    using assms(1,2) by (cases k) (simp_all add: str_ltrim_def)
  ultimately show ?thesis using True by (simp add: str_trim_def conf_line_def)
next
  case False
  with assms str_trim_ends [of v] show ?thesis
    by (simp add: conf_line_def str_trim_id)
qed

lemma str_trim_space: "str_trim (CHR '' '' # v) = str_trim v"
  by (simp add: str_trim_def str_ltrim_rtrim_commute) (simp add: str_ltrim_def isspace_def)

lemma classify_conf_line:
  assumes k: "k \<in> set config_keys" and v: "str_trim v = v"
  shows "classify (conf_line k v) = Assign k v"
proof -
  have key: "k \<noteq> [] \<and> \<not> isspace (hd k) \<and> CHR '':'' \<notin> set k \<and> str_to_lower k = k \<and>
      \<not> str_starts_with ''#'' (k @ '':'' @ w)" for w
    using k by (auto simp: config_keys_def isspace_def str_to_lower_def tolower_def
        str_starts_with_def c_str_def)
  have split: "takeWhile (\<lambda>c. c \<noteq> CHR '':'') (k @ CHR '':'' # w) = k"
    "dropWhile (\<lambda>c. c \<noteq> CHR '':'') (k @ CHR '':'' # w) = CHR '':'' # w" for w
    using key by (auto simp: takeWhile_append dropWhile_append)
  show ?thesis
  proof (cases "v = []")
    case True
    then show ?thesis
      using k key [of "[]"] split [of "[]"]
      by (simp add: classify_def str_trim_conf_line trim.trim_Nil Let_def)
  next
    case False
    then show ?thesis
      using k v key [of "CHR '' '' # v"] split [of "CHR '' '' # v"]
      by (simp add: classify_def str_trim_conf_line Let_def) (simp add: conf_line_def str_trim_space)
  qed
qed

lemma assignments_conf_lines:
  "\<forall>(k, v) \<in> set ps. classify (conf_line k v) = Assign k v \<Longrightarrow>
   assignments (map (\<lambda>(k, v). conf_line k v) ps) = ps"
  by (induction ps) auto

lemma conf_value_number: "conf_value (str_from_number i)"
proof -
  have ch: "\<forall>c \<in> set (str_from_number i). \<not> isspace c"
    using dec_of_nat_digits isdigit_not_isspace
    by (auto simp: str_from_number_def dec_of_int_def isspace_def)
  then have "CHR 0x0A \<notin> set (str_from_number i)"
    by (auto simp: isspace_def)
  moreover have "str_trim (str_from_number i) = str_from_number i"
    using ch by (intro str_trim_id) auto
  ultimately show ?thesis by (simp add: conf_value_def)
qed

lemma atoi_str_from_number: "atoi (c_str (str_from_number (sint (w :: i32)))) = w"
proof -
  have "- (2 ^ 31) \<le> sint w" and "sint w < 2 ^ 31"
    using sint_ge [of w] sint_lt [of w] by simp_all
  then show ?thesis
    by (simp add: str_from_number_def c_str_id dec_of_int_no_NUL atoi_dec_of_int)
qed

lemma conf_line_one_line:
  assumes "k \<in> set config_keys" and "conf_value v"
  shows "CHR 0x0A \<notin> set (conf_line k v)"
proof -
  have "list_all (\<lambda>k. CHR 0x0A \<notin> set k) config_keys" by code_simp
  with assms show ?thesis by (auto simp: conf_line_def conf_value_def list_all_iff)
qed

lemma ssl_switched_on_conf_pairs: "ssl_switched_on (conf_pairs c) = m_use_ssl c"
proof -
  have "str_to_lower ''yes'' = ''yes''" and "str_to_lower ''no'' = ''no''" by code_simp+
  then show ?thesis by (simp add: ssl_switched_on_def conf_pairs_def)
qed

lemma last_number_conf_pairs:
  "last_number ''port'' (conf_pairs c) d = m_port c"
  "last_number ''threads'' (conf_pairs c) d = m_server_threads c"
  using atoi_str_from_number [of "m_port c"] atoi_str_from_number [of "m_server_threads c"]
  by (simp_all add: last_number_def conf_pairs_def)

lemma config_after_conf_pairs: "config_after (conf_pairs c) configuration_manager = c"
  by (rule configuration.equality)
    (simp_all add: config_after_def ssl_switched_on_conf_pairs last_number_conf_pairs,
     simp_all add: last_value_def conf_pairs_def configuration_manager_def)

text \<open>C21. Writing a configuration out and reading it back gives the same configuration, for all
  settings a file can carry: every 32-bit port and thread count, either SSL choice, and every
  string without a line break or outer white space (a colon inside a value is kept).\<close>

theorem config_roundtrip:
  assumes "list_all conf_value [m_listen_address c, m_log_verbosity c, m_log_sinks c, m_api_key c,
      m_vip c, m_ssl_key_file c, m_ssl_cert_chain_file c, m_ssl_dh_file c]"
  shows "config_open filename (Some (conf_file c)) configuration_manager l =
    (True, c, log_message ''Reading configuration...'' l)"
proof -
  let ?lines = "map (\<lambda>(k, v). conf_line k v) (conf_pairs c)"
  have yes: "conf_value ''yes''" "conf_value ''no''" by code_simp+
  have pairs: "\<forall>(k, v) \<in> set (conf_pairs c). k \<in> set config_keys \<and> conf_value v"
    using assms conf_value_number yes by (simp add: conf_pairs_def config_keys_def)
  have nl: "\<forall>x \<in> set ?lines. CHR 0x0A \<notin> set x"
    using pairs conf_line_one_line by fastforce
  have lines: "getlines (conf_file c) = ?lines"
    using getlines_concat [OF nl] by (simp add: conf_file_def comp_def split_def)
  have cls: "\<forall>(k, v) \<in> set (conf_pairs c). classify (conf_line k v) = Assign k v"
    using pairs classify_conf_line by (auto simp: conf_value_def)
  then have "assignments ?lines = conf_pairs c"
    by (rule assignments_conf_lines)
  moreover have "config_after (conf_pairs c) configuration_manager = c"
    by (rule config_after_conf_pairs)
  ultimately show ?thesis
    using cls by (auto simp: config_open_refines lines Let_def)
qed

theorem config_roundtrip_witness:
  "config_open ''c'' (Some (conf_file (configuration_manager\<lparr>m_vip := ''example.com:8080''\<rparr>)))
     configuration_manager log_init
   = (True, configuration_manager\<lparr>m_vip := ''example.com:8080''\<rparr>,
      log_message ''Reading configuration...'' log_init)"
proof -
  have "list_all conf_value [''0.0.0.0'', [], ''example.com:8080'']" by code_simp
  then show ?thesis
    by (intro config_roundtrip) (simp add: configuration_manager_def)
qed

end
