(* ===== verification/HttpRequest.thy ===== *)
theory HttpRequest
  imports IpvsInterface Configuration
begin

text \<open>
  \<^verbatim>\<open>src/http_server.cpp\<close>, class \<^verbatim>\<open>connection_handler\<close>: how one request is read and
  answered. The body arrives in chunks, each with the error code and the size the connection
  reports; what is left to read is a 64-bit \<^verbatim>\<open>size_t\<close>, as in the code. When nothing is left
  the handler reads the settings under their mutex, checks the request, and asks the kernel
  for the new weight under the mutex of the wrapper. A call ends by returning, by blocking for
  good on a mutex nobody will release, or by an exception of the JSON library.

  The JSON library is a parameter (record \<open>jsoncpp\<close>): its parser, its member access and
  conversions, None where they throw.
\<close>

section \<open>The JSON library\<close>

record 'j jsoncpp =
  json_parse :: "string \<Rightarrow> 'j option"
  json_member :: "'j \<Rightarrow> string \<Rightarrow> 'j option"
  json_null :: "'j \<Rightarrow> bool"
  json_of_string :: "string \<Rightarrow> 'j"
  json_equal :: "'j \<Rightarrow> 'j \<Rightarrow> bool"
  json_is_int :: "'j \<Rightarrow> bool"
  json_as_string :: "'j \<Rightarrow> string option"
  json_as_int :: "'j \<Rightarrow> i32 option"

section \<open>The state\<close>

text \<open>
  The globals of the program: the settings, the two mutexes (whether they are locked) and the
  wrapper of the kernel interface, which holds the log.
\<close>

record 'w server =
  config :: configuration
  configuration_mutex :: bool
  ipvs_mutex :: bool
  ipvs :: "'w ipvs_interface"

definition log_with :: "(string \<Rightarrow> log_state \<Rightarrow> log_state) \<Rightarrow> string \<Rightarrow> 'w server \<Rightarrow> 'w server" where
  "log_with log m s = s\<lparr>ipvs := (ipvs s)\<lparr>ipvs_log := log m (ipvs_log (ipvs s))\<rparr>\<rparr>"

datatype status = status_ok | bad_request | unauthorized | internal_server_error

text \<open>What was sent back on a connection.\<close>

record connection =
  con_status :: "status option"
  con_headers :: "(string \<times> string) list"
  con_written :: string

definition connection_start :: connection where
  "connection_start = \<lparr>con_status = None, con_headers = [], con_written = []\<rparr>"

section \<open>Reading the body\<close>

text \<open>The value of the first header named content-length in any case, through \<^verbatim>\<open>atoi\<close>; else 0.\<close>

fun content_length :: "(string \<times> string) list \<Rightarrow> i32" where
  "content_length [] = 0"
| "content_length ((name, value) # headers) =
     (if str_to_lower name = ''content-length'' then atoi (c_str value) else content_length headers)"

text \<open>
  \<^verbatim>\<open>operator()\<close> passes the \<^verbatim>\<open>int\<close> to \<^verbatim>\<open>read_chunk\<close>, which takes a \<^verbatim>\<open>size_t\<close>: a negative
  length becomes a huge one.
\<close>

definition start_reading :: "(string \<times> string) list \<Rightarrow> u64" where
  "start_reading headers = word_of_int (sint (content_length headers))"

datatype read_next = Stop | Read_Chunk u64 | Handle

text \<open>
  The callback: on an error the handler is dropped; else the chunk is appended and the size is
  taken off what was left.
\<close>

definition handle_post_read :: "bool \<Rightarrow> string \<Rightarrow> u64 \<Rightarrow> string \<Rightarrow> read_next \<times> string" where
  "handle_post_read error chunk left_to_read m_request_body =
     (if error then (Stop, m_request_body)
      else let m_request_body = m_request_body @ chunk;
               remaining = left_to_read - word_of_nat (length chunk)
           in if remaining > 0 then (Read_Chunk remaining, m_request_body) else (Handle, m_request_body))"

text \<open>The callbacks of a connection, one event each, until the body is complete or the connection ends.\<close>

datatype read_result = Waiting u64 string | Dropped | Complete string "(bool \<times> string) list"

fun read_body :: "u64 \<Rightarrow> string \<Rightarrow> (bool \<times> string) list \<Rightarrow> read_result" where
  "read_body left body [] = Waiting left body"
| "read_body left body ((error, chunk) # events) =
     (case handle_post_read error chunk left body of
        (Stop, _) \<Rightarrow> Dropped
      | (Read_Chunk left, body) \<Rightarrow> read_body left body events
      | (Handle, body) \<Rightarrow> Complete body events)"

section \<open>Answers\<close>

abbreviation (input) "CR \<equiv> CHR 0x0D"
abbreviation (input) "LF \<equiv> CHR 0x0A"
abbreviation (input) "TAB \<equiv> CHR 0x09"
abbreviation (input) "QUOTE \<equiv> CHR 0x22"

definition quoted :: "string \<Rightarrow> string" where
  "quoted s = QUOTE # s @ [QUOTE]"

definition response_headers :: "(string \<times> string) list" where
  "response_headers = [(''Connection'', ''close''), (''Content-Type'', ''application/json'')]"

definition error_body :: "string \<Rightarrow> string" where
  "error_body message =
     [CR] @ ''{'' @ [LF] @ [TAB] @ quoted ''error'' @ '': true,'' @ [LF]
     @ [TAB] @ quoted ''error_reason'' @ '': '' @ quoted message @ [LF] @ ''}'' @ [LF]"

definition ok_body :: string where
  "ok_body = [CR] @ ''{'' @ [LF, TAB] @ quoted ''error'' @ '': false'' @ [LF] @ ''}'' @ [LF]"

definition respond :: "status \<Rightarrow> string \<Rightarrow> connection \<Rightarrow> connection" where
  "respond st body con =
     con\<lparr>con_status := Some st, con_headers := response_headers, con_written := con_written con @ body\<rparr>"

definition report_error :: "string \<Rightarrow> status \<Rightarrow> connection \<Rightarrow> 'w server \<Rightarrow> connection \<times> 'w server" where
  "report_error message st con s = (respond st (error_body message) con, log_with log_error message s)"

section \<open>Handling a request\<close>

text \<open>The settings the request needs, read and logged; the caller holds the mutex.\<close>

definition read_settings :: "'w server \<Rightarrow> (string \<times> string) \<times> 'w server" where
  "read_settings s =
     (let c_api_key = get_api_key (config s); c_vip = get_vip (config s);
          s = log_with log_message (''api key : '' @ c_api_key) s;
          s = log_with log_message (''vip : '' @ c_vip) s
      in ((c_api_key, c_vip), s))"

datatype 'j check = Refused string status | Raised | Accepted 'j 'j

text \<open>The checks of a request, in order; accepted with its host and its kernel count.\<close>

definition check_request :: "'j jsoncpp \<Rightarrow> string \<Rightarrow> string \<Rightarrow> 'j check" where
  "check_request J m_request_body c_api_key =
     (case json_parse J m_request_body of
        None \<Rightarrow> Refused ''Could not parse JSON.'' bad_request
      | Some root \<Rightarrow>
     (case json_member J root ''api_key'' of
        None \<Rightarrow> Raised
      | Some api_key \<Rightarrow>
      if json_null J api_key then Refused ''Missing API key.'' unauthorized
      else if \<not> json_equal J api_key (json_of_string J c_api_key) then Refused ''Invalid API key.'' unauthorized
      else
     (case json_member J root ''host'' of
        None \<Rightarrow> Raised
      | Some hostname \<Rightarrow>
      if json_null J hostname then Refused ''No host specified.'' bad_request
      else
     (case json_member J root ''available_kernels'' of
        None \<Rightarrow> Raised
      | Some kernels \<Rightarrow>
      if json_null J kernels then Refused ''No available_kernels specified.'' bad_request
      else if \<not> json_is_int J kernels
      then Refused ''available_kernels needs to be an integer value.'' bad_request
      else Accepted hostname kernels))))"

text \<open>
  The update and its answer; the caller holds the mutex. None: a conversion of an argument
  threw, and neither the answer nor the unlocking that follows is reached.
\<close>

definition update_weight ::
  "'j jsoncpp \<Rightarrow> ('w, 'm, 'a) sys \<Rightarrow> resolver \<Rightarrow> string \<Rightarrow> 'j \<Rightarrow> 'j \<Rightarrow> connection \<Rightarrow> 'w server
     \<Rightarrow> (connection \<times> 'w server) option" where
  "update_weight J L R c_vip hostname kernels con s =
     (case (json_as_string J hostname, json_as_int J kernels) of
        (Some host, Some weight) \<Rightarrow>
          (let (success, i) = set_weight L R (c_str c_vip) host weight (ipvs s);
               s = s\<lparr>ipvs := i\<rparr>
           in Some (if \<not> success then report_error ''Could not set weight.'' internal_server_error con s
                    else (respond status_ok ok_body con, s)))
      | _ \<Rightarrow> None)"

datatype outcome = Returned | Blocked | Threw

definition handle_post_request ::
  "'j jsoncpp \<Rightarrow> ('w, 'm, 'a) sys \<Rightarrow> resolver \<Rightarrow> string \<Rightarrow> connection \<Rightarrow> 'w server
     \<Rightarrow> outcome \<times> connection \<times> 'w server" where
  "handle_post_request J L R m_request_body con s =
     (if configuration_mutex s then (Blocked, con, s)
      else let s = s\<lparr>configuration_mutex := True\<rparr>;
               ((c_api_key, c_vip), s) = read_settings s;
               s = s\<lparr>configuration_mutex := False\<rparr>
      in case check_request J m_request_body c_api_key of
           Refused message st \<Rightarrow> (Returned, report_error message st con s)
         | Raised \<Rightarrow> (Threw, con, s)
         | Accepted hostname kernels \<Rightarrow>
             if ipvs_mutex s then (Blocked, con, s)
             else let s = s\<lparr>ipvs_mutex := True\<rparr>
             in case update_weight J L R c_vip hostname kernels con s of
                  None \<Rightarrow> (Threw, con, s)
                | Some (con, s) \<Rightarrow> (Returned, con, s\<lparr>ipvs_mutex := False\<rparr>))"

section \<open>Reading: what the chunks add up to\<close>

text \<open>The chunks without an error, as events.\<close>

abbreviation (input) chunks :: "string list \<Rightarrow> (bool \<times> string) list" where
  "chunks cs \<equiv> map (Pair False) cs"

text \<open>The size of what was read after \<open>k\<close> chunks is what is left, in 64 bits, first at the end.\<close>

definition fills :: "u64 \<Rightarrow> string list \<Rightarrow> bool" where
  "fills left cs \<longleftrightarrow> (word_of_nat (length (concat cs)) :: u64) = left"

lemma read_body_step:
  "read_body left body ((False, c) # events) =
     (if fills left [c] then Complete (body @ c) events
      else read_body (left - word_of_nat (length c)) (body @ c) events)"
  by (auto simp: handle_post_read_def fills_def word_gt_0 Let_def)

lemma fills_Cons: "fills left (c # cs) \<longleftrightarrow> fills (left - word_of_nat (length c)) cs"
  by (auto simp: fills_def algebra_simps)

lemma read_body_waits:
  assumes "\<forall>k. 0 < k \<and> k \<le> length cs \<longrightarrow> \<not> fills left (take k cs)"
  shows "read_body left body (chunks cs @ events) =
    read_body (left - word_of_nat (length (concat cs))) (body @ concat cs) events"
  using assms
proof (induction cs arbitrary: left body)
  case Nil
  then show ?case by simp
next
  case (Cons c cs)
  have "\<not> fills left [c]" using Cons.prems by (metis One_nat_def Suc_le_mono length_Cons take0 take_Suc_Cons
        zero_le zero_less_one)
  moreover have "\<forall>k. 0 < k \<and> k \<le> length cs \<longrightarrow> \<not> fills (left - word_of_nat (length c)) (take k cs)"
    using Cons.prems by (metis Suc_le_mono fills_Cons length_Cons take_Suc_Cons zero_less_Suc)
  ultimately show ?case
    using Cons.IH [of "left - word_of_nat (length c)" "body @ c"]
    by (simp add: read_body_step diff_diff_eq del: read_body.simps)
qed

lemma fills_nat:
  "n < 2 ^ 64 \<Longrightarrow> fills (word_of_nat n) cs \<longleftrightarrow> length (concat cs) mod 2 ^ 64 = n"
  by (simp add: fills_def unsigned_of_nat word_of_nat_eq_iff take_bit_eq_mod)

lemma length_concat_take: "length (concat (take k cs)) \<le> length (concat cs)"
  by (metis append_take_drop_id concat_append length_append le_add1)

lemma length_concat_take_mono: "j \<le> k \<Longrightarrow> length (concat (take j cs)) \<le> length (concat (take k cs))"
  using length_concat_take [of j "take k cs"] by (simp add: min_def)

lemma prefixes_wait:
  assumes "length (concat ds) < n \<or> ds = []" and "n < 2 ^ 64"
  shows "\<forall>k. 0 < k \<and> k \<le> length ds \<longrightarrow> \<not> fills (word_of_nat n) (take k ds)"
proof (intro allI impI)
  fix k assume k: "0 < k \<and> k \<le> length ds"
  then have "ds \<noteq> []" by auto
  with assms(1) length_concat_take [of k ds] have less: "length (concat (take k ds)) < n" by auto
  then have "length (concat (take k ds)) mod 2 ^ 64 = length (concat (take k ds))"
    using assms(2) by (intro mod_less) simp
  with less show "\<not> fills (word_of_nat n) (take k ds)" by (simp only: fills_nat [OF assms(2)])
qed

text \<open>
  A body whose announced length is the total of its chunks is read whole: the request is
  handled when the last chunk arrives, with the chunks in their order, whatever follows it.
\<close>

lemma read_body_whole:
  assumes "length (concat (ds @ [d])) = n" and "n < 2 ^ 64" and "d \<noteq> [] \<or> ds = []"
  shows "read_body (word_of_nat n) [] (chunks (ds @ [d]) @ events) = Complete (concat (ds @ [d])) events"
proof -
  have "length (concat ds) < n \<or> ds = []" using assms(1,3) by auto
  note wait = read_body_waits [OF prefixes_wait [OF this assms(2)], of "[]" "(False, d) # events"]
  have "fills (word_of_nat n) (ds @ [d])" using assms(1,2) by (simp only: fills_nat) simp
  then have "fills (word_of_nat n - word_of_nat (length (concat ds))) [d]"
    by (simp add: fills_def algebra_simps flip: of_nat_add)
  with wait show ?thesis by (simp add: read_body_step del: read_body.simps)
qed

text \<open>C34. A chunk that goes past the announced length makes what is left wrap around: the request is not
  handled then, nor after any further chunks below 2^64 bytes; the handler keeps waiting. So a
  request with a body and no Content-Length is never answered.\<close>

theorem read_body_overrun:
  assumes "length (concat ds) < n \<or> ds = []" and "n < length (concat ds) + length d"
    and "length (concat (ds @ d # es)) < 2 ^ 64"
  shows "read_body (word_of_nat n) [] (chunks (ds @ d # es) @ events) =
    read_body (word_of_nat n - word_of_nat (length (concat (ds @ d # es)))) (concat (ds @ d # es)) events"
proof -
  let ?cs = "ds @ d # es"
  have n: "n < 2 ^ 64" using assms(2,3) by simp
  have "\<not> fills (word_of_nat n) (take k ?cs)" if k: "0 < k \<and> k \<le> length ?cs" for k
  proof (cases "k \<le> length ds")
    case True
    with prefixes_wait [OF assms(1) n] k show ?thesis by simp
  next
    case False
    then have "length (concat (take (Suc (length ds)) ?cs)) \<le> length (concat (take k ?cs))"
      by (intro length_concat_take_mono) simp
    then have "n < length (concat (take k ?cs))" using assms(2) by simp
    moreover have "length (concat (take k ?cs)) < 2 ^ 64"
      using length_concat_take [of k ?cs] assms(3) by linarith
    then have "length (concat (take k ?cs)) mod 2 ^ 64 = length (concat (take k ?cs))" by (rule mod_less)
    ultimately show ?thesis by (simp only: fills_nat [OF n])
  qed
  then show ?thesis using read_body_waits [of ?cs "word_of_nat n" "[]" events] by simp
qed

lemma read_body_overrun_witness:
  "read_body (start_reading [(''Host'', ''a'')]) [] [(False, ''{}''), (False, ''  '')] = Waiting (- 4) ''{}  ''"
proof -
  have "start_reading [(''Host'', ''a'')] = word_of_nat 0" by code_simp
  then show ?thesis using read_body_overrun [of "[]" 0 "''{}''" "[''  '']" "[]"] by simp
qed

section \<open>What a request does\<close>

lemma read_settings_pair: "read_settings s = ((m_api_key (config s), m_vip (config s)), snd (read_settings s))"
  by (simp add: read_settings_def Let_def)

lemma read_settings_simps [simp]:
  "config (snd (read_settings s)) = config s"
  "configuration_mutex (snd (read_settings s)) = configuration_mutex s"
  "ipvs_mutex (snd (read_settings s)) = ipvs_mutex s"
  "ipvs_lib (ipvs (snd (read_settings s))) = ipvs_lib (ipvs s)"
  "m_initialized (ipvs (snd (read_settings s))) = m_initialized (ipvs s)"
  by (simp_all add: read_settings_def log_with_def Let_def)

lemma report_error_simps [simp]:
  "fst (report_error m st con s) = respond st (error_body m) con"
  "config (snd (report_error m st con s)) = config s"
  "configuration_mutex (snd (report_error m st con s)) = configuration_mutex s"
  "ipvs_mutex (snd (report_error m st con s)) = ipvs_mutex s"
  "ipvs_lib (ipvs (snd (report_error m st con s))) = ipvs_lib (ipvs s)"
  "m_initialized (ipvs (snd (report_error m st con s))) = m_initialized (ipvs s)"
  by (simp_all add: report_error_def log_with_def)

text \<open>A request the checks accept: the body parses, carries the key, a host and an integer.\<close>

lemma check_request_Accepted:
  "check_request J body key = Accepted h k \<longleftrightarrow>
     (\<exists>root v. json_parse J body = Some root
        \<and> json_member J root ''api_key'' = Some v \<and> \<not> json_null J v \<and> json_equal J v (json_of_string J key)
        \<and> json_member J root ''host'' = Some h \<and> \<not> json_null J h
        \<and> json_member J root ''available_kernels'' = Some k \<and> \<not> json_null J k \<and> json_is_int J k)"
  by (auto simp: check_request_def split: option.splits if_splits)

lemma check_request_Refused:
  "check_request J body key = Refused m st \<Longrightarrow> st = bad_request \<or> st = unauthorized"
  by (auto simp: check_request_def split: option.splits if_splits)

text \<open>The update keeps the settings and the mutexes, answers, and makes at most one request.\<close>

lemma update_weight_frame:
  assumes "update_weight J L R vip h k con s = Some (con', s')"
  shows "config s' = config s \<and> configuration_mutex s' = configuration_mutex s \<and> ipvs_mutex s' = ipvs_mutex s
    \<and> (con_status con' = Some status_ok \<or> con_status con' = Some internal_server_error)
    \<and> safe (ipvs_lib (ipvs s)) (ipvs_lib (ipvs s')) \<and> m_initialized (ipvs s') = m_initialized (ipvs s)
    \<and> (\<exists>rs. sent (ipvs_lib (ipvs s')) = sent (ipvs_lib (ipvs s)) @ rs \<and> length rs \<le> 1)"
proof -
  from assms obtain host weight where hk: "json_as_string J h = Some host" "json_as_int J k = Some weight"
    by (auto simp: update_weight_def split: option.splits)
  obtain ok i where sw: "set_weight L R (c_str vip) host weight (ipvs s) = (ok, i)" by fastforce
  from assms hk sw have eq: "(con', s') = (if \<not> ok
      then report_error ''Could not set weight.'' internal_server_error con (s\<lparr>ipvs := i\<rparr>)
      else (respond status_ok ok_body con, s\<lparr>ipvs := i\<rparr>))"
    by (auto simp: update_weight_def Let_def)
  then have "con' = (if ok then respond status_ok ok_body con
      else respond internal_server_error (error_body ''Could not set weight.'') con)"
    by (metis fst_conv report_error_simps(1))
  moreover from eq have "s' = (if ok then s\<lparr>ipvs := i\<rparr>
      else snd (report_error ''Could not set weight.'' internal_server_error con (s\<lparr>ipvs := i\<rparr>)))"
    by (metis snd_conv)
  ultimately show ?thesis using set_weight_frame [OF sw] by (cases ok) (auto simp: respond_def)
qed

text \<open>The state once the settings are read, and a call in terms of it.\<close>

definition settled :: "'w server \<Rightarrow> 'w server" where
  "settled s = (snd (read_settings (s\<lparr>configuration_mutex := True\<rparr>)))\<lparr>configuration_mutex := False\<rparr>"

lemma settled_simps [simp]:
  "config (settled s) = config s" "\<not> configuration_mutex (settled s)" "ipvs_mutex (settled s) = ipvs_mutex s"
  "ipvs_lib (ipvs (settled s)) = ipvs_lib (ipvs s)"
  by (simp_all add: settled_def)

lemma handle_post_request_eq:
  "handle_post_request J L R body con s =
    (if configuration_mutex s then (Blocked, con, s)
     else case check_request J body (m_api_key (config s)) of
          Refused m st \<Rightarrow> (Returned, report_error m st con (settled s))
        | Raised \<Rightarrow> (Threw, con, settled s)
        | Accepted h k \<Rightarrow>
            if ipvs_mutex s then (Blocked, con, settled s)
            else (case update_weight J L R (m_vip (config s)) h k con ((settled s)\<lparr>ipvs_mutex := True\<rparr>) of
               None \<Rightarrow> (Threw, con, (settled s)\<lparr>ipvs_mutex := True\<rparr>)
             | Some (con, s) \<Rightarrow> (Returned, con, s\<lparr>ipvs_mutex := False\<rparr>)))"
  by (subst handle_post_request_def, subst read_settings_pair)
    (simp add: Let_def settled_def split: check.split option.split)

text \<open>A request that finds the mutexes free never blocks. When it returns it has been answered and
  both mutexes are free again; when an exception leaves it there is no answer and the kernel was
  asked for nothing. Either way the settings are the same, the mutex of the settings is free, and
  the library freed what it allocated and raised no undefined behaviour.\<close>

theorem post_request_contract:
  assumes "handle_post_request J L R body con s = (o1, con', s')"
    and "\<not> configuration_mutex s" and "\<not> ipvs_mutex s"
  shows "o1 \<noteq> Blocked \<and> config s' = config s \<and> \<not> configuration_mutex s'
    \<and> (o1 = Returned \<longrightarrow> \<not> ipvs_mutex s' \<and> con_status con' \<noteq> None)
    \<and> (o1 = Threw \<longrightarrow> con' = con \<and> ipvs_lib (ipvs s') = ipvs_lib (ipvs s))
    \<and> safe (ipvs_lib (ipvs s)) (ipvs_lib (ipvs s'))"
proof -
  note run = assms [unfolded handle_post_request_eq]
  show ?thesis
  proof (cases "check_request J body (m_api_key (config s))")
    case (Refused m st)
    with run show ?thesis
      using report_error_simps [of m st con "settled s"] by (auto simp: respond_def)
  next
    case Raised
    with run show ?thesis by auto
  next
    case (Accepted h k)
    show ?thesis
    proof (cases "update_weight J L R (m_vip (config s)) h k con ((settled s)\<lparr>ipvs_mutex := True\<rparr>)")
      case None
      with run Accepted show ?thesis by auto
    next
      case (Some r)
      obtain c t where "r = (c, t)" by fastforce
      with run Accepted Some update_weight_frame [of J L R "m_vip (config s)" h k con "(settled s)\<lparr>ipvs_mutex := True\<rparr>" c t]
      show ?thesis by auto
    qed
  qed
qed

section \<open>A JSON library to try requests on\<close>

text \<open>Values with the members the requests use; the texts are looked up in a table.\<close>

datatype json = JNull | JInt i32 | JString string | JArray | JObject "(string \<times> json) list"

definition sample_json :: "(string \<times> json) list \<Rightarrow> json jsoncpp" where
  "sample_json texts = \<lparr>
     json_parse = map_of texts,
     json_member = (\<lambda>v k. case v of JObject ms \<Rightarrow> (case map_of ms k of Some m \<Rightarrow> Some m | None \<Rightarrow> Some JNull)
                               | JNull \<Rightarrow> Some JNull | _ \<Rightarrow> None),
     json_null = (\<lambda>v. v = JNull),
     json_of_string = JString,
     json_equal = (\<lambda>a b. a = b),
     json_is_int = (\<lambda>v. case v of JInt i \<Rightarrow> True | _ \<Rightarrow> False),
     json_as_string = (\<lambda>v. case v of JString t \<Rightarrow> Some t | JNull \<Rightarrow> Some [] | JInt i \<Rightarrow> Some (dec_of_int (sint i)) | _ \<Rightarrow> None),
     json_as_int = (\<lambda>v. case v of JInt i \<Rightarrow> Some i | _ \<Rightarrow> None)\<rparr>"

definition sample_texts :: "(string \<times> json) list" where
  "sample_texts =
     [(''good'', JObject [(''api_key'', JString ''k''), (''host'', JString ''web1''), (''available_kernels'', JInt 7)]),
      (''array'', JObject [(''api_key'', JString ''k''), (''host'', JArray), (''available_kernels'', JInt 7)]),
      (''thief'', JObject [(''api_key'', JString ''x''), (''host'', JString ''web1''), (''available_kernels'', JInt 7)])]"

definition sample_server :: "kernel server" where
  "sample_server = \<lparr>
     config = configuration_manager\<lparr>m_api_key := ''k'', m_vip := ''10.0.0.1:80''\<rparr>,
     configuration_mutex = False, ipvs_mutex = False, ipvs = sample_interface\<rparr>"

abbreviation (input) sample_post :: "string \<Rightarrow> kernel server \<Rightarrow> outcome \<times> connection \<times> kernel server" where
  "sample_post body \<equiv> handle_post_request (sample_json sample_texts) (sample_sys False) sample_resolver body connection_start"

text \<open>A call as the triple it returns, for the witnesses.\<close>

lemma sample_post_run:
  "sample_post body s = (fst (sample_post body s), fst (snd (sample_post body s)), snd (snd (sample_post body s)))"
  by simp

lemma sample_free: "\<not> configuration_mutex sample_server" "\<not> ipvs_mutex sample_server"
  by (simp_all add: sample_server_def)


section \<open>Who may change a weight, and what the answer says\<close>

text \<open>A call that reaches the kernel passed the checks and made the update.\<close>

lemma post_request_update:
  assumes "handle_post_request J L R body con s = (o1, con', s')"
  shows "ipvs_lib (ipvs s') = ipvs_lib (ipvs s)
    \<or> (\<exists>h k t u. check_request J body (m_api_key (config s)) = Accepted h k
         \<and> ipvs_lib (ipvs t) = ipvs_lib (ipvs s) \<and> ipvs_lib (ipvs s') = ipvs_lib (ipvs u)
         \<and> update_weight J L R (m_vip (config s)) h k con t = Some (con', u))"
proof (cases "configuration_mutex s \<or> ipvs_mutex s")
  case True
  with assms [unfolded handle_post_request_eq] show ?thesis
    by (auto simp: prod_eq_iff split: if_splits check.splits)
next
  case False
  note run = assms [unfolded handle_post_request_eq]
  show ?thesis
  proof (cases "check_request J body (m_api_key (config s))")
    case (Accepted h k)
    show ?thesis
    proof (cases "update_weight J L R (m_vip (config s)) h k con ((settled s)\<lparr>ipvs_mutex := True\<rparr>)")
      case None
      with run False Accepted show ?thesis by auto
    next
      case (Some r)
      obtain c u where "r = (c, u)" by fastforce
      with run False Accepted Some show ?thesis
        by (intro disjI2 exI [of _ h] exI [of _ k] exI [of _ "(settled s)\<lparr>ipvs_mutex := True\<rparr>"] exI [of _ u]) auto
    qed
  qed (use run False in \<open>auto simp: prod_eq_iff\<close>)
qed

text \<open>The kernel is asked for something only by a request whose body parses, whose api_key member
  is there and equals the configured key, and which names a host and an integer; and then it is
  asked once.\<close>

theorem update_needs_key:
  assumes "handle_post_request J L R body con s = (o1, con', s')"
    and "sent (ipvs_lib (ipvs s')) \<noteq> sent (ipvs_lib (ipvs s))"
  shows "(\<exists>root v h k. json_parse J body = Some root
      \<and> json_member J root ''api_key'' = Some v \<and> \<not> json_null J v
      \<and> json_equal J v (json_of_string J (m_api_key (config s)))
      \<and> json_member J root ''host'' = Some h \<and> \<not> json_null J h
      \<and> json_member J root ''available_kernels'' = Some k \<and> json_is_int J k)
    \<and> (\<exists>r. sent (ipvs_lib (ipvs s')) = sent (ipvs_lib (ipvs s)) @ [r])"
proof -
  from post_request_update [OF assms(1)] assms(2)
  obtain h k t u where c: "check_request J body (m_api_key (config s)) = Accepted h k"
    and t: "ipvs_lib (ipvs t) = ipvs_lib (ipvs s)" "ipvs_lib (ipvs s') = ipvs_lib (ipvs u)"
    and u: "update_weight J L R (m_vip (config s)) h k con t = Some (con', u)"
    by auto
  from update_weight_frame [OF u] t obtain rs where
    "sent (ipvs_lib (ipvs s')) = sent (ipvs_lib (ipvs s)) @ rs" "length rs \<le> 1" by auto
  moreover from this assms(2) have "rs \<noteq> []" by auto
  ultimately have "\<exists>r. sent (ipvs_lib (ipvs s')) = sent (ipvs_lib (ipvs s)) @ [r]"
    by (cases rs) auto
  then show ?thesis using c [unfolded check_request_Accepted] by blast
qed

text \<open>The log has no part in setting a weight.\<close>

lemma set_weight_log: "fst (set_weight L R vip host w (i\<lparr>ipvs_log := l\<rparr>)) = fst (set_weight L R vip host w i)"
  using set_weight_cases [OF prod.collapse [symmetric], of L R vip host w i]
    set_weight_cases [OF prod.collapse [symmetric], of L R vip host w "i\<lparr>ipvs_log := l\<rparr>"]
  by (auto split: option.splits)

lemma read_settings_ipvs: "\<exists>l. ipvs (snd (read_settings s)) = (ipvs s)\<lparr>ipvs_log := l\<rparr>"
  by (auto simp: read_settings_def log_with_def Let_def)

lemma update_weight_status:
  assumes "update_weight J L R vip h k con s = Some (con', s')"
  shows "\<exists>host w. json_as_string J h = Some host \<and> json_as_int J k = Some w
    \<and> con_status con' = Some (if fst (set_weight L R (c_str vip) host w (ipvs s)) then status_ok else internal_server_error)"
  using assms
  by (auto simp: update_weight_def report_error_def respond_def Let_def split: option.splits prod.splits if_splits)

text \<open>C11. The answer tells what happened: the status is ok exactly when the request was accepted and the
  kernel took the new weight, and unauthorized exactly when the body parses and its api_key is
  null, missing or not the configured one.\<close>

theorem answer_tells_outcome:
  assumes "handle_post_request J L R body con s = (o1, con', s')"
    and "\<not> configuration_mutex s" and "\<not> ipvs_mutex s" and "con_status con = None"
  shows "(con_status con' = Some status_ok \<longleftrightarrow>
      (\<exists>h k host w. check_request J body (m_api_key (config s)) = Accepted h k
         \<and> json_as_string J h = Some host \<and> json_as_int J k = Some w
         \<and> fst (set_weight L R (c_str (m_vip (config s))) host w (ipvs s))))
    \<and> (con_status con' = Some unauthorized \<longleftrightarrow>
      (\<exists>root v. json_parse J body = Some root \<and> json_member J root ''api_key'' = Some v
         \<and> (json_null J v \<or> \<not> json_equal J v (json_of_string J (m_api_key (config s))))))"
proof -
  let ?key = "m_api_key (config s)"
  obtain l where l: "ipvs (settled s) = (ipvs s)\<lparr>ipvs_log := l\<rparr>"
    using read_settings_ipvs [of "s\<lparr>configuration_mutex := True\<rparr>"] by (auto simp: settled_def)
  note run = assms(1-3) [unfolded handle_post_request_eq]
  have un: "(\<exists>m. check_request J body ?key = Refused m unauthorized) \<longleftrightarrow>
      (\<exists>root v. json_parse J body = Some root \<and> json_member J root ''api_key'' = Some v
         \<and> (json_null J v \<or> \<not> json_equal J v (json_of_string J ?key)))"
    by (auto simp: check_request_def split: option.splits if_splits)
  show ?thesis
  proof (cases "check_request J body ?key")
    case (Refused m st)
    with run have "con_status con' = Some st" by (auto simp: report_error_def respond_def)
    with Refused check_request_Refused [OF Refused] un [symmetric] show ?thesis by auto
  next
    case Raised
    with run assms(4) un [symmetric] show ?thesis by auto
  next
    case (Accepted h k)
    show ?thesis
    proof (cases "update_weight J L R (m_vip (config s)) h k con ((settled s)\<lparr>ipvs_mutex := True\<rparr>)")
      case None
      with run Accepted have "con' = con" by simp
      moreover have "json_as_string J h = None \<or> json_as_int J k = None"
        using None by (auto simp: update_weight_def Let_def split: option.splits prod.splits)
      ultimately show ?thesis using Accepted assms(4) un [symmetric] by auto
    next
      case (Some r)
      obtain c u where r: "r = (c, u)" by fastforce
      with run Accepted Some have "con' = c" by simp
      with update_weight_status [OF Some [unfolded r]] Accepted un [symmetric] l show ?thesis
        by (auto simp: set_weight_log split: if_splits)
    qed
  qed
qed

lemma answer_tells_outcome_witness:
  "con_status (fst (snd (sample_post ''thief'' sample_server))) = Some unauthorized"
proof -
  have "con_status connection_start = None" by (simp add: connection_start_def)
  from answer_tells_outcome [OF sample_post_run sample_free this, of "''thief''"] show ?thesis
    by (simp add: sample_json_def sample_texts_def sample_server_def)
qed

end
