(* ===== verification/HttpServer.thy ===== *)
theory HttpServer
  imports HttpRequest
begin

text \<open>
  \<^verbatim>\<open>src/http_server.cpp\<close>: the server object and its threads. Starting initialises the
  kernel interface under its mutex, sets SSL up, creates the server of cpp-netlib (a
  parameter) and runs it until it is stopped. While it runs, the thread pool interleaves the
  handlers of all connections: the second part of the theory cuts a handler at its mutex
  operations and lets any handler take the next step.
\<close>

section \<open>Starting and stopping\<close>

text \<open>The options the server is created with; the SSL context by the files it was loaded from.\<close>

record server_options =
  opt_address :: string
  opt_port :: string
  opt_reuse_address :: bool
  opt_threads :: i32
  opt_context :: "(string \<times> string \<times> string) option"

record http_server =
  m_listen :: string
  m_listen_port :: i32
  m_num_threads :: i32
  m_server :: "server_options option"

definition new_http_server :: "string \<Rightarrow> i32 \<Rightarrow> i32 \<Rightarrow> http_server" where
  "new_http_server listen_address port threads =
     \<lparr>m_listen = listen_address, m_listen_port = port, m_num_threads = threads, m_server = None\<rparr>"

text \<open>
  cpp-netlib and the SSL library: whether the three files load (they throw otherwise), and how
  a run ends: with an exception, or by returning, after a SIGINT or SIGTERM or not.
\<close>

datatype run_end = Run_Threw | Run_Returned bool

record 'w netlib =
  load_ssl :: "string \<Rightarrow> string \<Rightarrow> string \<Rightarrow> bool"
  server_run :: "server_options \<Rightarrow> 'w server \<Rightarrow> run_end \<times> 'w server"

text \<open>
  Stopping deletes the server object. The signal handler that \<^verbatim>\<open>start\<close> installs stops the server
  while \<^verbatim>\<open>m_server->run()\<close> has not returned, so it deletes an object whose member function is
  running; the model takes that deletion to have no effect but on \<open>m_server\<close>.
\<close>

definition server_stop :: "http_server \<Rightarrow> 'w server \<Rightarrow> http_server \<times> 'w server" where
  "server_stop h s =
     (if m_server h \<noteq> None then (h\<lparr>m_server := None\<rparr>, log_with log_message ''Server stop.'' s) else (h, s))"

text \<open>The destructor.\<close>

abbreviation (input) destroy_http_server :: "http_server \<Rightarrow> 'w server \<Rightarrow> http_server \<times> 'w server" where
  "destroy_http_server \<equiv> server_stop"

datatype start_end = Start_Blocked | Start_Threw | Start_Returned bool

definition ssl_context :: "'w netlib \<Rightarrow> 'w server \<Rightarrow> (string \<times> string \<times> string) option option \<times> 'w server" where
  "ssl_context N s =
     (if get_ssl (config s)
      then (let s = log_with log_message ''Enabling SSL.'' s;
                cert = get_ssl_cert_chain_file (config s); key = get_ssl_key_file (config s); dh = get_ssl_dh_file (config s)
            in (if load_ssl N cert key dh then Some (Some (cert, key, dh)) else None, s))
      else (Some None, s))"

text \<open>Creating the server object and running it; a signal stops it from within the run.\<close>

definition run_server ::
  "'w netlib \<Rightarrow> (string \<times> string \<times> string) option \<Rightarrow> http_server \<Rightarrow> 'w server \<Rightarrow> start_end \<times> http_server \<times> 'w server" where
  "run_server N ctx h s =
     (let opts = \<lparr>opt_address = m_listen h, opt_port = str_from_number (sint (m_listen_port h)),
                  opt_reuse_address = True, opt_threads = m_num_threads h, opt_context = ctx\<rparr>;
          h = h\<lparr>m_server := Some opts\<rparr>;
          s = log_with log_message ''Server start.'' s
      in case server_run N opts s of
           (Run_Threw, s) \<Rightarrow> (Start_Threw, h, s)
         | (Run_Returned signal, s) \<Rightarrow>
             (let (h, s) = (if signal then server_stop h s else (h, s)) in (Start_Returned True, h, s)))"

definition server_start ::
  "('w, 'm, 'a) sys \<Rightarrow> 'w modprobe \<Rightarrow> 'w netlib \<Rightarrow> http_server \<Rightarrow> 'w server \<Rightarrow> start_end \<times> http_server \<times> 'w server" where
  "server_start L run N h s =
     (if ipvs_mutex s then (Start_Blocked, h, s)
      else let s = s\<lparr>ipvs_mutex := True\<rparr>; (ok, i) = init L run (ipvs s); s = s\<lparr>ipvs := i, ipvs_mutex := False\<rparr>
      in if \<not> ok then (Start_Returned False, h, s)
      else let (h, s) = (if m_server h \<noteq> None then server_stop h s else (h, s));
               (ctx, s) = ssl_context N s
      in case ctx of None \<Rightarrow> (Start_Threw, h, s) | Some ctx \<Rightarrow> run_server N ctx h s)"

section \<open>The handlers of the connections\<close>

text \<open>
  Where a handler is: waiting for a chunk, about to lock a mutex, holding one, between the two,
  or done (answered, dropped on a read error, left by an exception, which may hold the mutex of
  the wrapper).
\<close>

datatype 'j phase = Reading u64 | Lock_Config | In_Config | Checking string string
  | Lock_Ipvs string 'j 'j | In_Ipvs string 'j 'j | Finished | Abandoned | Failed | Failed_Locked

record 'j handler =
  h_phase :: "'j phase"
  h_body :: string
  h_con :: connection

definition new_handler :: "(string \<times> string) list \<Rightarrow> 'j handler" where
  "new_handler headers =
     \<lparr>h_phase = Reading (start_reading headers), h_body = [], h_con = connection_start\<rparr>"

text \<open>The read callback, for a handler that waits for a chunk.\<close>

definition receive :: "bool \<Rightarrow> string \<Rightarrow> u64 \<Rightarrow> 'j handler \<Rightarrow> 'j handler" where
  "receive error chunk left h =
     (case handle_post_read error chunk left (h_body h) of
        (Stop, body) \<Rightarrow> h\<lparr>h_phase := Abandoned\<rparr>
      | (Read_Chunk left, body) \<Rightarrow> h\<lparr>h_phase := Reading left, h_body := body\<rparr>
      | (Handle, body) \<Rightarrow> h\<lparr>h_phase := Lock_Config, h_body := body\<rparr>)"

text \<open>
  The next step of a handler that works on its request; None when it has none now. What a handler
  does while it holds a mutex is one step: no other handler touches that data meanwhile. An
  exception that leaves a handler is taken to end in cpp-netlib, whose threads go on; a mutex
  locked at that moment stays locked.
\<close>

definition advance ::
  "'j jsoncpp \<Rightarrow> ('w, 'm, 'a) sys \<Rightarrow> resolver \<Rightarrow> 'w server \<times> 'j handler \<Rightarrow> ('w server \<times> 'j handler) option" where
  "advance J L R = (\<lambda>(s, h).
     case h_phase h of
       Lock_Config \<Rightarrow>
         if configuration_mutex s then None
         else Some (s\<lparr>configuration_mutex := True\<rparr>, h\<lparr>h_phase := In_Config\<rparr>)
     | In_Config \<Rightarrow>
         (let ((c_api_key, c_vip), s) = read_settings s
          in Some (s\<lparr>configuration_mutex := False\<rparr>, h\<lparr>h_phase := Checking c_api_key c_vip\<rparr>))
     | Checking c_api_key c_vip \<Rightarrow>
         (case check_request J (h_body h) c_api_key of
            Refused message st \<Rightarrow>
              (let (con, s) = report_error message st (h_con h) s
               in Some (s, h\<lparr>h_phase := Finished, h_con := con\<rparr>))
          | Raised \<Rightarrow> Some (s, h\<lparr>h_phase := Failed\<rparr>)
          | Accepted hostname kernels \<Rightarrow> Some (s, h\<lparr>h_phase := Lock_Ipvs c_vip hostname kernels\<rparr>))
     | Lock_Ipvs c_vip hostname kernels \<Rightarrow>
         if ipvs_mutex s then None
         else Some (s\<lparr>ipvs_mutex := True\<rparr>, h\<lparr>h_phase := In_Ipvs c_vip hostname kernels\<rparr>)
     | In_Ipvs c_vip hostname kernels \<Rightarrow>
         (case update_weight J L R c_vip hostname kernels (h_con h) s of
            None \<Rightarrow> Some (s, h\<lparr>h_phase := Failed_Locked\<rparr>)
          | Some (con, s) \<Rightarrow> Some (s\<lparr>ipvs_mutex := False\<rparr>, h\<lparr>h_phase := Finished, h_con := con\<rparr>))
     | _ \<Rightarrow> None)"

text \<open>One handler working, and one step of the whole server: work, a chunk, or a new connection.\<close>

inductive work_step ::
  "'j jsoncpp \<Rightarrow> ('w, 'm, 'a) sys \<Rightarrow> resolver \<Rightarrow> 'w server \<times> 'j handler list \<Rightarrow> 'w server \<times> 'j handler list \<Rightarrow> bool"
  for J L R where
  work: "i < length hs \<Longrightarrow> advance J L R (s, hs ! i) = Some (s', h') \<Longrightarrow> work_step J L R (s, hs) (s', hs[i := h'])"

inductive server_step ::
  "'j jsoncpp \<Rightarrow> ('w, 'm, 'a) sys \<Rightarrow> resolver \<Rightarrow> 'w server \<times> 'j handler list \<Rightarrow> 'w server \<times> 'j handler list \<Rightarrow> bool"
  for J L R where
  connect: "server_step J L R (s, hs) (s, hs @ [new_handler headers])"
| chunk: "i < length hs \<Longrightarrow> h_phase (hs ! i) = Reading left \<Longrightarrow>
    server_step J L R (s, hs) (s, hs[i := receive error bytes left (hs ! i)])"
| working: "work_step J L R c c' \<Longrightarrow> server_step J L R c c'"

inductive_cases work_stepE: "work_step J L R (s, hs) c"
inductive_cases server_stepE: "server_step J L R (s, hs) c"

section \<open>What the mutexes promise\<close>

text \<open>
  A mutex guards a section of a handler when entering it needs the mutex free and locks it,
  leaving it frees the mutex, and no other step touches the mutex. Then whatever the
  interleaving is, the mutex is locked exactly when a handler is inside, and there is one at most.
\<close>

locale mutex_guard =
  fixes adv :: "'s \<times> 'h \<Rightarrow> ('s \<times> 'h) option"
    and locked :: "'s \<Rightarrow> bool"
    and inside :: "'h \<Rightarrow> bool"
  assumes enter: "adv (s, h) = Some (s', h') \<Longrightarrow> \<not> inside h \<Longrightarrow> inside h' \<Longrightarrow> \<not> locked s \<and> locked s'"
    and leave: "adv (s, h) = Some (s', h') \<Longrightarrow> inside h \<Longrightarrow> \<not> inside h' \<Longrightarrow> \<not> locked s'"
    and keep: "adv (s, h) = Some (s', h') \<Longrightarrow> inside h = inside h' \<Longrightarrow> locked s' = locked s"
begin

lemma count_step:
  assumes "length (filter inside hs) = of_bool (locked s)"
    and "i < length hs" and "adv (s, hs ! i) = Some (s', h')"
  shows "length (filter inside (hs[i := h'])) = of_bool (locked s')"
proof -
  have upd: "length (filter inside (hs[i := h'])) + (if inside (hs ! i) then 1 else 0)
      = length (filter inside hs) + (if inside h' then 1 else 0)"
    by (rule length_filter_update [OF assms(2)])
  consider "\<not> inside (hs ! i)" "inside h'" | "inside (hs ! i)" "\<not> inside h'" | "inside (hs ! i) = inside h'"
    by blast
  then show ?thesis
  proof cases
    case 1
    with upd enter [OF assms(3)] assms(1) show ?thesis by simp
  next
    case 2
    have "0 < length (filter inside hs)" using assms(2) 2(1) by (rule length_filter_pos)
    with 2 upd leave [OF assms(3)] assms(1) show ?thesis by (cases "locked s") auto
  next
    case 3
    with upd keep [OF assms(3)] assms(1) show ?thesis by auto
  qed
qed

lemma guarded_exclusive:
  assumes "length (filter inside hs) = of_bool (locked s)"
    and "i < length hs" and "j < length hs" and "inside (hs ! i)" and "inside (hs ! j)"
  shows "i = j \<and> locked s"
proof (rule conjI, rule ccontr)
  assume "i \<noteq> j"
  have "card {k. k < length hs \<and> inside (hs ! k)} \<le> 1"
    using assms(1) by (simp add: length_filter_conv_card)
  moreover have "card {i, j} \<le> card {k. k < length hs \<and> inside (hs ! k)}"
    using assms by (intro card_mono) auto
  ultimately show False using \<open>i \<noteq> j\<close> by simp
next
  show "locked s"
    using assms(1) length_filter_pos [OF assms(2), of inside] assms(4) by (cases "locked s") auto
qed

end

fun in_config :: "'j handler \<Rightarrow> bool" where
  "in_config h = (case h_phase h of In_Config \<Rightarrow> True | _ \<Rightarrow> False)"

fun in_ipvs :: "'j handler \<Rightarrow> bool" where
  "in_ipvs h = (case h_phase h of In_Ipvs _ _ _ \<Rightarrow> True | Failed_Locked \<Rightarrow> True | _ \<Rightarrow> False)"

text \<open>The cases of a step.\<close>

lemma advance_cases:
  assumes "advance J L R (s, h) = Some (s', h')"
  obtains (lock_config) "h_phase h = Lock_Config" "\<not> configuration_mutex s"
      "s' = s\<lparr>configuration_mutex := True\<rparr>" "h' = h\<lparr>h_phase := In_Config\<rparr>"
  | (config) "h_phase h = In_Config" "s' = (snd (read_settings s))\<lparr>configuration_mutex := False\<rparr>"
      "h' = h\<lparr>h_phase := Checking (m_api_key (config s)) (m_vip (config s))\<rparr>"
  | (refused) key vip m st where "h_phase h = Checking key vip" "check_request J (h_body h) key = Refused m st"
      "s' = snd (report_error m st (h_con h) s)"
      "h' = h\<lparr>h_phase := Finished, h_con := respond st (error_body m) (h_con h)\<rparr>"
  | (raised) key vip where "h_phase h = Checking key vip" "check_request J (h_body h) key = Raised"
      "s' = s" "h' = h\<lparr>h_phase := Failed\<rparr>"
  | (accepted) key vip a b where "h_phase h = Checking key vip" "check_request J (h_body h) key = Accepted a b"
      "s' = s" "h' = h\<lparr>h_phase := Lock_Ipvs vip a b\<rparr>"
  | (lock_ipvs) vip a b where "h_phase h = Lock_Ipvs vip a b" "\<not> ipvs_mutex s"
      "s' = s\<lparr>ipvs_mutex := True\<rparr>" "h' = h\<lparr>h_phase := In_Ipvs vip a b\<rparr>"
  | (threw) vip a b where "h_phase h = In_Ipvs vip a b" "update_weight J L R vip a b (h_con h) s = None"
      "s' = s" "h' = h\<lparr>h_phase := Failed_Locked\<rparr>"
  | (updated) vip a b con t where "h_phase h = In_Ipvs vip a b"
      "update_weight J L R vip a b (h_con h) s = Some (con, t)"
      "s' = t\<lparr>ipvs_mutex := False\<rparr>" "h' = h\<lparr>h_phase := Finished, h_con := con\<rparr>"
proof (cases "h_phase h")
  case In_Config
  with assms read_settings_pair [of s] show ?thesis
    by (auto simp: advance_def split: prod.splits intro: config)
next
  case (Checking key vip)
  with assms show ?thesis
    by (auto simp: advance_def report_error_def split: check.splits intro: refused raised accepted)
next
  case Lock_Config
  with assms show ?thesis by (intro lock_config) (auto simp: advance_def split: if_splits)
next
  case (Lock_Ipvs vip a b)
  with assms show ?thesis by (intro lock_ipvs) (auto simp: advance_def split: if_splits)
next
  case (In_Ipvs vip a b)
  show ?thesis
  proof (cases "update_weight J L R vip a b (h_con h) s")
    case None
    with In_Ipvs assms show ?thesis by (intro threw) (simp_all add: advance_def)
  next
    case (Some r)
    obtain con t where "r = (con, t)" by fastforce
    with Some In_Ipvs assms show ?thesis by (intro updated [of vip a b con t]) (simp_all add: advance_def)
  qed
qed (use assms in \<open>simp_all add: advance_def\<close>)

interpretation cfg: mutex_guard "advance J L R" configuration_mutex in_config
  for J :: "'j jsoncpp" and L :: "('w, 'm, 'a) sys" and R
  by unfold_locales (erule advance_cases; auto dest: update_weight_frame)+

interpretation wrp: mutex_guard "advance J L R" ipvs_mutex in_ipvs
  for J :: "'j jsoncpp" and L :: "('w, 'm, 'a) sys" and R
  by unfold_locales (erule advance_cases; auto dest: update_weight_frame)+

section \<open>Every interleaving keeps the mutexes\<close>

definition guarded :: "'w server \<times> 'j handler list \<Rightarrow> bool" where
  "guarded c \<longleftrightarrow>
     length (filter in_config (snd c)) = of_bool (configuration_mutex (fst c))
   \<and> length (filter in_ipvs (snd c)) = of_bool (ipvs_mutex (fst c))"

lemma guarded_start: "\<not> configuration_mutex s \<Longrightarrow> \<not> ipvs_mutex s \<Longrightarrow> guarded (s, [])"
  by (simp add: guarded_def)

lemma receive_outside:
  "\<not> in_config (receive error c left h)" "\<not> in_ipvs (receive error c left h)"
  by (auto simp: receive_def split: prod.split read_next.split)

lemma new_handler_outside: "\<not> in_config (new_handler hds)" "\<not> in_ipvs (new_handler hds)"
  by (simp_all add: new_handler_def)

lemma guarded_work: "work_step J L R c c' \<Longrightarrow> guarded c \<Longrightarrow> guarded c'"
proof (induction rule: work_step.induct)
  case (work i hs s s' h')
  then show ?case
    using cfg.count_step [OF _ work(1,2)] wrp.count_step [OF _ work(1,2)]
    unfolding guarded_def fst_conv snd_conv by blast
qed

lemma guarded_step: "server_step J L R c c' \<Longrightarrow> guarded c \<Longrightarrow> guarded c'"
proof (induction rule: server_step.induct)
  case (connect s hs headers)
  then show ?case by (simp add: guarded_def new_handler_outside del: in_config.simps in_ipvs.simps)
next
  case (chunk i hs left s error bytes)
  let ?h = "receive error bytes left (hs ! i)"
  have "\<not> in_config (hs ! i)" "\<not> in_ipvs (hs ! i)" using chunk(2) by simp_all
  then have "length (filter in_config (hs[i := ?h])) = length (filter in_config hs)"
    and "length (filter in_ipvs (hs[i := ?h])) = length (filter in_ipvs hs)"
    using length_filter_update [OF chunk(1), of in_config ?h] length_filter_update [OF chunk(1), of in_ipvs ?h]
    by (simp_all add: receive_outside del: in_config.simps in_ipvs.simps)
  with chunk show ?case by (simp add: guarded_def)
next
  case (working c c')
  then show ?case by (simp add: guarded_work)
qed

lemma guarded_reachable: "(server_step J L R)\<^sup>*\<^sup>* c c' \<Longrightarrow> guarded c \<Longrightarrow> guarded c'"
  by (induction rule: rtranclp_induct) (auto intro: guarded_step)

text \<open>C6. Whatever the connections do and in whatever order their handlers run, at most one handler is
  inside the section of each mutex, and a mutex is locked exactly when a handler is inside it.\<close>

theorem handlers_exclude_each_other:
  assumes "(server_step J L R)\<^sup>*\<^sup>* (s0, []) (s, hs)" and "\<not> configuration_mutex s0" and "\<not> ipvs_mutex s0"
  shows "(configuration_mutex s \<longleftrightarrow> (\<exists>i < length hs. in_config (hs ! i)))
    \<and> (ipvs_mutex s \<longleftrightarrow> (\<exists>i < length hs. in_ipvs (hs ! i)))
    \<and> (\<forall>i < length hs. \<forall>j < length hs.
         in_config (hs ! i) \<and> in_config (hs ! j) \<or> in_ipvs (hs ! i) \<and> in_ipvs (hs ! j) \<longrightarrow> i = j)"
proof -
  from guarded_reachable [OF assms(1) guarded_start [OF assms(2,3)]]
  have c: "length (filter in_config hs) = of_bool (configuration_mutex s)"
    and w: "length (filter in_ipvs hs) = of_bool (ipvs_mutex s)" by (simp_all add: guarded_def)
  have some: "0 < length (filter P hs) \<longleftrightarrow> (\<exists>i < length hs. P (hs ! i))" for P
    by (fastforce simp: filter_empty_conv in_set_conv_nth)
  have "configuration_mutex s \<longleftrightarrow> (\<exists>i < length hs. in_config (hs ! i))"
    and "ipvs_mutex s \<longleftrightarrow> (\<exists>i < length hs. in_ipvs (hs ! i))"
    unfolding some [symmetric] c w by simp_all
  moreover have "i < length hs \<Longrightarrow> j < length hs \<Longrightarrow> in_config (hs ! i) \<Longrightarrow> in_config (hs ! j) \<Longrightarrow> i = j" for i j
    using cfg.guarded_exclusive [OF c] by blast
  moreover have "i < length hs \<Longrightarrow> j < length hs \<Longrightarrow> in_ipvs (hs ! i) \<Longrightarrow> in_ipvs (hs ! j) \<Longrightarrow> i = j" for i j
    using wrp.guarded_exclusive [OF w] by blast
  ultimately show ?thesis by blast
qed

section \<open>A run to try\<close>

text \<open>Handlers working in a given order, and a connection whose whole body arrived.\<close>

fun run_works ::
  "'j jsoncpp \<Rightarrow> ('w, 'm, 'a) sys \<Rightarrow> resolver \<Rightarrow> nat list \<Rightarrow> 'w server \<times> 'j handler list
     \<Rightarrow> ('w server \<times> 'j handler list) option" where
  "run_works J L R [] c = Some c"
| "run_works J L R (i # is) (s, hs) =
     (if i < length hs
      then (case advance J L R (s, hs ! i) of
              Some (s', h') \<Rightarrow> run_works J L R is (s', hs[i := h'])
            | None \<Rightarrow> None)
      else None)"

lemma run_works_steps: "run_works J L R is c = Some c' \<Longrightarrow> (work_step J L R)\<^sup>*\<^sup>* c c'"
proof (induction "is" arbitrary: c)
  case Nil
  then show ?case by simp
next
  case (Cons i "is")
  obtain s hs where "c = (s, hs)" by fastforce
  with Cons show ?case
    by (auto split: if_splits option.splits intro: work_step.work converse_rtranclp_into_rtranclp)
qed

lemma works_server_steps: "(work_step J L R)\<^sup>*\<^sup>* c c' \<Longrightarrow> (server_step J L R)\<^sup>*\<^sup>* c c'"
  by (induction rule: rtranclp_induct) (auto intro: server_step.working rtranclp.rtrancl_into_rtrancl)

definition posted :: "string \<Rightarrow> 'j handler" where
  "posted body = \<lparr>h_phase = Lock_Config, h_body = body, h_con = connection_start\<rparr>"

lemma receive_all:
  "start_reading headers = word_of_nat (length body) \<Longrightarrow>
   receive False body (start_reading headers) (new_handler headers) = posted body"
  by (simp add: receive_def handle_post_read_def new_handler_def posted_def)

lemma post_arrives:
  assumes "start_reading headers = word_of_nat (length body)"
  shows "(server_step J L R)\<^sup>*\<^sup>* (s, hs) (s, hs @ [posted body])"
proof -
  let ?h = "new_handler headers"
  have "server_step J L R (s, hs @ [?h])
      (s, (hs @ [?h])[length hs := receive False body (start_reading headers) ((hs @ [?h]) ! length hs)])"
    by (rule server_step.chunk) (simp_all add: new_handler_def)
  then have "server_step J L R (s, hs @ [?h]) (s, hs @ [posted body])"
    by (simp add: receive_all [OF assms])
  with server_step.connect [of J L R s hs headers] show ?thesis by (meson r_into_rtranclp rtranclp_trans)
qed

abbreviation (input) sample_work :: "nat list \<Rightarrow> kernel server \<times> json handler list \<Rightarrow> (kernel server \<times> json handler list) option" where
  "sample_work \<equiv> run_works (sample_json sample_texts) (sample_sys False) sample_resolver"

abbreviation (input) sample_steps :: "kernel server \<times> json handler list \<Rightarrow> kernel server \<times> json handler list \<Rightarrow> bool" where
  "sample_steps \<equiv> (server_step (sample_json sample_texts) (sample_sys False) sample_resolver)\<^sup>*\<^sup>*"

lemma sample_posts:
  assumes "sample_work is (sample_server, [posted ''good'', posted body]) = Some c" and "length body = 5 \<or> length body = 4"
  shows "sample_steps (sample_server, []) c"
proof -
  have "start_reading [(''content-length'', ''4'')] = word_of_nat 4" "start_reading [(''content-length'', ''5'')] = word_of_nat 5"
    by code_simp+
  then have len: "start_reading [(''content-length'', ''4'')] = word_of_nat (length ''good'')"
    "\<exists>hds. start_reading hds = word_of_nat (length body)"
    using assms(2) by (simp, metis of_nat_numeral)
  have "sample_steps (sample_server, []) (sample_server, [posted ''good''])"
    using post_arrives [OF len(1), of "sample_json sample_texts" "sample_sys False" sample_resolver sample_server "[]"]
    by simp
  moreover from len(2) post_arrives have
    "sample_steps (sample_server, [posted ''good'']) (sample_server, [posted ''good''] @ [posted body])" by blast
  moreover have "sample_steps (sample_server, [posted ''good''] @ [posted body]) c"
    using works_server_steps [OF run_works_steps [OF assms(1)]] by simp
  ultimately show ?thesis by (meson rtranclp_trans)
qed

lemma sample_two:
  assumes "map_option f (sample_work is (sample_server, [posted ''good'', posted body])) = Some x"
    and "length body = 5 \<or> length body = 4"
  shows "\<exists>s hs. sample_steps (sample_server, []) (s, hs) \<and> f (s, hs) = x"
proof -
  obtain s hs where c: "sample_work is (sample_server, [posted ''good'', posted body]) = Some (s, hs)" "f (s, hs) = x"
    using assms(1) by (auto simp: map_option_eq_Some)
  from sample_posts [OF c(1) assms(2)] c(2) show ?thesis by blast
qed

lemma handlers_exclude_each_other_witness:
  "\<exists>s hs. sample_steps (sample_server, []) (s, hs) \<and> ipvs_mutex s \<and> length hs = 2
     \<and> in_ipvs (hs ! 0) \<and> \<not> in_ipvs (hs ! 1)"
proof -
  have run: "map_option (\<lambda>(s, hs). (length hs, in_ipvs (hs ! 0)))
      (sample_work [0, 0, 0, 0, 1, 1, 1] (sample_server, [posted ''good'', posted ''good''])) = Some (2, True)"
    by code_simp
  from sample_two [OF run] obtain s hs where sh: "sample_steps (sample_server, []) (s, hs)"
    "length hs = 2" "in_ipvs (hs ! 0)" by auto
  note ex = handlers_exclude_each_other [OF sh(1) sample_free]
  from ex sh have "ipvs_mutex s" by (metis zero_less_numeral)
  moreover have "\<not> in_ipvs (hs ! 1)"
  proof
    assume "in_ipvs (hs ! 1)"
    moreover have "0 < length hs" "1 < length hs" using sh(2) by simp_all
    ultimately have "(0 :: nat) = 1" using ex sh(3) by blast
    then show False by simp
  qed
  ultimately show ?thesis using sh by blast
qed

end
