(* ===== verification/HttpProperties.thy ===== *)
theory HttpProperties
  imports HttpServer
begin

text \<open>
  What the interleaved handlers of \<^verbatim>\<open>src/http_server.cpp\<close> do: every request is worked off in at
  most five steps of its handler, with the answer its checks call for; the kernel is asked at most once for each accepted request; and an exception inside
  the section of the wrapper stops every later update.
\<close>

section \<open>What every handler remembers\<close>

text \<open>
  The settings never change; a handler past the checks carries the request its body states;
  a finished one has answered with the status its checks or its update call for; one that failed
  met a member access that raises, or, inside the section of the wrapper, a value that cannot be
  converted.
\<close>

fun convertible :: "'j jsoncpp \<Rightarrow> 'j \<Rightarrow> 'j \<Rightarrow> bool" where
  "convertible J a b \<longleftrightarrow> json_as_string J a \<noteq> None \<and> json_as_int J b \<noteq> None"

fun handler_ok :: "'j jsoncpp \<Rightarrow> configuration \<Rightarrow> 'j handler \<Rightarrow> bool" where
  "handler_ok J cfg h \<longleftrightarrow>
     (case h_phase h of
        Checking key vip \<Rightarrow> key = m_api_key cfg \<and> vip = m_vip cfg
      | Lock_Ipvs vip a b \<Rightarrow> vip = m_vip cfg \<and> check_request J (h_body h) (m_api_key cfg) = Accepted a b
      | In_Ipvs vip a b \<Rightarrow> vip = m_vip cfg \<and> check_request J (h_body h) (m_api_key cfg) = Accepted a b
      | Failed_Locked \<Rightarrow> (case check_request J (h_body h) (m_api_key cfg) of
                            Accepted a b \<Rightarrow> \<not> convertible J a b | _ \<Rightarrow> False)
      | Failed \<Rightarrow> check_request J (h_body h) (m_api_key cfg) = Raised
      | Finished \<Rightarrow> (case check_request J (h_body h) (m_api_key cfg) of
                       Refused m st \<Rightarrow> con_status (h_con h) = Some st
                     | Raised \<Rightarrow> False
                     | Accepted a b \<Rightarrow> con_status (h_con h) \<in> {Some status_ok, Some internal_server_error})
      | _ \<Rightarrow> True)"

lemma handler_ok_advance:
  assumes "advance J L R (s, h) = Some (s', h')" and "handler_ok J (config s) h"
  shows "handler_ok J (config s) h' \<and> config s' = config s"
  using assms(1)
proof (cases rule: advance_cases)
  case (threw vip a b)
  moreover have "\<not> convertible J a b"
    using threw(2) by (auto simp: update_weight_def Let_def split: option.splits prod.splits)
  ultimately show ?thesis using assms(2) by simp
next
  case (updated vip a b con t)
  have "check_request J (h_body h) (m_api_key (config s)) = Accepted a b" using assms(2) updated(1) by simp
  with update_weight_frame [OF updated(2)] updated(3,4) show ?thesis by auto
qed (use assms(2) in \<open>auto simp: respond_def\<close>)

definition conf_ok :: "'j jsoncpp \<Rightarrow> configuration \<Rightarrow> 'w server \<times> 'j handler list \<Rightarrow> bool" where
  "conf_ok J cfg c \<longleftrightarrow> config (fst c) = cfg \<and> list_all (handler_ok J cfg) (snd c)"

lemma list_all_update: "list_all P xs \<Longrightarrow> P y \<Longrightarrow> list_all P (xs[i := y])"
  by (auto simp: list_all_iff dest: set_update_subset_insert [THEN subsetD])

lemma conf_ok_work: "work_step J L R c c' \<Longrightarrow> conf_ok J cfg c \<Longrightarrow> conf_ok J cfg c'"
proof (induction rule: work_step.induct)
  case (work i hs s s' h')
  then have "handler_ok J (config s) (hs ! i)" by (auto simp: conf_ok_def list_all_length)
  with handler_ok_advance [OF work(2)] work(3) show ?case
    by (auto simp: conf_ok_def intro!: list_all_update)
qed

lemma conf_ok_step: "server_step J L R c c' \<Longrightarrow> conf_ok J cfg c \<Longrightarrow> conf_ok J cfg c'"
proof (induction rule: server_step.induct)
  case (connect s hs headers)
  then show ?case by (simp add: conf_ok_def new_handler_def)
next
  case (chunk i hs left s error bytes)
  then show ?case
    by (auto simp: conf_ok_def receive_def intro!: list_all_update split: prod.split read_next.split)
next
  case (working c c')
  then show ?case by (simp add: conf_ok_work)
qed

lemma conf_ok_reachable: "(server_step J L R)\<^sup>*\<^sup>* c c' \<Longrightarrow> conf_ok J cfg c \<Longrightarrow> conf_ok J cfg c'"
  by (induction rule: rtranclp_induct) (auto intro: conf_ok_step)

lemma conf_ok_start: "conf_ok J (config s) (s, [])"
  by (simp add: conf_ok_def)

section \<open>Every request is worked off\<close>

text \<open>How many steps a handler still has, at most.\<close>

fun work_left :: "'j phase \<Rightarrow> nat" where
  "work_left Lock_Config = 5"
| "work_left In_Config = 4"
| "work_left (Checking _ _) = 3"
| "work_left (Lock_Ipvs _ _ _) = 2"
| "work_left (In_Ipvs _ _ _) = 1"
| "work_left _ = 0"

definition busy :: "'j handler \<Rightarrow> bool" where
  "busy h \<longleftrightarrow> work_left (h_phase h) > 0"

definition total_work :: "'j handler list \<Rightarrow> nat" where
  "total_work hs = sum_list (map (\<lambda>h. work_left (h_phase h)) hs)"

lemma advance_work_left: "advance J L R (s, h) = Some (s', h') \<Longrightarrow> work_left (h_phase h') < work_left (h_phase h)"
  by (erule advance_cases) simp_all

text \<open>A handler that works ends answered or failed, or goes on working.\<close>

lemma advance_busy:
  "advance J L R (s, h) = Some (s', h') \<Longrightarrow>
   busy h \<and> h_body h' = h_body h \<and> (busy h' \<or> h_phase h' \<in> {Finished, Failed, Failed_Locked})"
  by (erule advance_cases) (simp_all add: busy_def)

lemma work_step_total: "work_step J L R c c' \<Longrightarrow> total_work (snd c') < total_work (snd c)"
proof (induction rule: work_step.induct)
  case (work i hs s s' h')
  let ?w = "\<lambda>h. work_left (h_phase h)"
  have "?w (hs ! i) \<le> total_work hs"
    unfolding total_work_def using work(1) by (intro member_le_sum_list) auto
  moreover have "total_work (hs[i := h']) = total_work hs + ?w h' - ?w (hs ! i)"
    unfolding total_work_def using work(1) by (simp add: map_update sum_list_update)
  ultimately show ?case using advance_work_left [OF work(2)] by simp
qed

lemma total_work_bound: "total_work hs \<le> 5 * length hs"
proof (induction hs)
  case Nil
  then show ?case by (simp add: total_work_def)
next
  case (Cons h hs)
  have "work_left (h_phase h) \<le> 5" by (cases "h_phase h") simp_all
  with Cons show ?case by (simp add: total_work_def)
qed

lemma work_steps_bound: "(work_step J L R ^^ n) c c' \<Longrightarrow> n + total_work (snd c') \<le> total_work (snd c)"
proof (induction n arbitrary: c')
  case 0
  then show ?case by simp
next
  case (Suc n)
  from Suc.prems obtain d where "(work_step J L R ^^ n) c d" "work_step J L R d c'" by auto
  with Suc.IH work_step_total [of J L R d c'] show ?case by fastforce
qed

text \<open>No deadlock: with a handler at work some handler has a step, as long as none failed inside.\<close>

lemma no_deadlock:
  assumes "guarded (s, hs)" and "\<forall>h \<in> set hs. h_phase h \<noteq> Failed_Locked"
    and "i < length hs" and "busy (hs ! i)"
  shows "\<exists>c'. work_step J L R (s, hs) c'"
proof -
  have step: "\<exists>c'. work_step J L R (s, hs) c'" if "j < length hs" "advance J L R (s, hs ! j) \<noteq> None" for j
    using that by (auto intro: work_step.work)
  show ?thesis
  proof (cases "\<exists>j < length hs. in_config (hs ! j) \<or> in_ipvs (hs ! j)")
    case True
    then obtain j where j: "j < length hs" "in_config (hs ! j) \<or> in_ipvs (hs ! j)" by blast
    then have "advance J L R (s, hs ! j) \<noteq> None"
      using assms(2) by (auto simp: advance_def split: phase.splits prod.splits option.splits)
    with j(1) step show ?thesis by blast
  next
    case False
    then have "filter in_config hs = []" "filter in_ipvs hs = []"
      by (auto simp: filter_empty_conv in_set_conv_nth)
    then have "\<not> configuration_mutex s" "\<not> ipvs_mutex s"
      using assms(1) by (simp_all add: guarded_def split: if_splits)
    moreover have "\<not> in_config (hs ! i)" "\<not> in_ipvs (hs ! i)" using False assms(3) by auto
    ultimately have "advance J L R (s, hs ! i) \<noteq> None"
      using assms(4) by (cases "h_phase (hs ! i)")
        (auto simp: advance_def busy_def split: check.splits prod.splits)
    with assms(3) step show ?thesis by blast
  qed
qed

lemma works_progress:
  assumes "(work_step J L R)\<^sup>*\<^sup>* (s, hs) (t, hs')"
  shows "length hs' = length hs \<and> (\<forall>j < length hs. h_body (hs' ! j) = h_body (hs ! j) \<and> (busy (hs ! j) \<longrightarrow>
    busy (hs' ! j) \<or> h_phase (hs' ! j) \<in> {Finished, Failed, Failed_Locked}))"
  using assms
proof (induction rule: rtranclp_induct2)
  case refl
  then show ?case by simp
next
  case (step t1 hs1 t2 hs2)
  from step.hyps(2) obtain i h' where i: "i < length hs1" "advance J L R (t1, hs1 ! i) = Some (t2, h')"
    and hs2: "hs2 = hs1[i := h']" by (auto elim: work_stepE)
  have "h_body (hs2 ! j) = h_body (hs1 ! j)"
    and "busy (hs1 ! j) \<or> h_phase (hs1 ! j) \<in> {Finished, Failed, Failed_Locked} \<Longrightarrow>
      busy (hs2 ! j) \<or> h_phase (hs2 ! j) \<in> {Finished, Failed, Failed_Locked}" for j
    using i advance_busy [OF i(2)] by (cases "j = i"; auto simp: hs2)+
  with step.IH show ?case by (auto simp: hs2)
qed

lemma conf_ok_no_failure:
  assumes "conf_ok J cfg (s, hs)"
    and conv: "\<And>body a b. check_request J body (m_api_key cfg) = Accepted a b \<Longrightarrow> convertible J a b"
  shows "\<forall>h \<in> set hs. h_phase h \<noteq> Failed_Locked"
proof (intro ballI notI)
  fix h assume h: "h \<in> set hs" "h_phase h = Failed_Locked"
  with assms(1) have "handler_ok J cfg h" by (simp add: conf_ok_def list_all_iff del: handler_ok.simps)
  with h(2) conv [of "h_body h"] show False
    by (cases "check_request J (h_body h) (m_api_key cfg)") (simp_all del: convertible.simps)
qed

text \<open>C10. When the conversions of accepted values cannot fail, every request whose body has arrived is
  worked off whatever the schedule is: the handlers have at most five steps each, and when none of
  them has a step left, each request that fails a check has been answered with the status of that
  check, each accepted one with the status of success or of a failed update, and only a request
  whose member access raises an exception has been dropped without an answer.\<close>

theorem requests_are_worked_off:
  assumes "(server_step J L R)\<^sup>*\<^sup>* (s0, []) (s, hs)" and "\<not> configuration_mutex s0" and "\<not> ipvs_mutex s0"
    and conv: "\<And>body a b. check_request J body (m_api_key (config s0)) = Accepted a b \<Longrightarrow> convertible J a b"
  shows "(\<forall>n c. (work_step J L R ^^ n) (s, hs) c \<longrightarrow> n \<le> 5 * length hs)
    \<and> (\<forall>t hs'. (work_step J L R)\<^sup>*\<^sup>* (s, hs) (t, hs') \<and> \<not> (\<exists>c. work_step J L R (t, hs') c) \<longrightarrow>
         length hs' = length hs
         \<and> (\<forall>i < length hs. busy (hs ! i) \<longrightarrow>
              (case check_request J (h_body (hs ! i)) (m_api_key (config s0)) of
                 Refused m st \<Rightarrow> h_phase (hs' ! i) = Finished \<and> con_status (h_con (hs' ! i)) = Some st
               | Raised \<Rightarrow> h_phase (hs' ! i) = Failed
               | Accepted a b \<Rightarrow> h_phase (hs' ! i) = Finished
                   \<and> con_status (h_con (hs' ! i)) \<in> {Some status_ok, Some internal_server_error})))"
proof (intro conjI allI impI)
  fix n c assume "(work_step J L R ^^ n) (s, hs) c"
  from work_steps_bound [OF this] total_work_bound [of hs] show "n \<le> 5 * length hs" by simp
next
  fix t hs' i
  assume run: "(work_step J L R)\<^sup>*\<^sup>* (s, hs) (t, hs') \<and> \<not> (\<exists>c. work_step J L R (t, hs') c)"
  then have reach: "(server_step J L R)\<^sup>*\<^sup>* (s0, []) (t, hs')"
    using assms(1) works_server_steps by (metis rtranclp_trans)
  note progress = works_progress [OF conjunct1 [OF run]]
  then show "length hs' = length hs" by simp
  assume i: "i < length hs" "busy (hs ! i)"
  have ok: "conf_ok J (config s0) (t, hs')" by (rule conf_ok_reachable [OF reach conf_ok_start])
  have none: "\<forall>h \<in> set hs'. h_phase h \<noteq> Failed_Locked"
    by (rule conf_ok_no_failure [OF ok]) (rule conv)
  from progress i have phase: "busy (hs' ! i) \<or> h_phase (hs' ! i) \<in> {Finished, Failed, Failed_Locked}"
    and body: "h_body (hs' ! i) = h_body (hs ! i)" by blast+
  have "i < length hs'" using i progress by simp
  moreover from this have "\<not> busy (hs' ! i)"
    using no_deadlock [OF guarded_reachable [OF reach guarded_start [OF assms(2,3)]] none] run by blast
  moreover have "h_phase (hs' ! i) \<noteq> Failed_Locked" using none calculation(1) by simp
  moreover have "handler_ok J (config s0) (hs' ! i)" using ok calculation(1) by (simp add: conf_ok_def list_all_length)
  ultimately show "case check_request J (h_body (hs ! i)) (m_api_key (config s0)) of
      Refused m st \<Rightarrow> h_phase (hs' ! i) = Finished \<and> con_status (h_con (hs' ! i)) = Some st
    | Raised \<Rightarrow> h_phase (hs' ! i) = Failed
    | Accepted a b \<Rightarrow> h_phase (hs' ! i) = Finished
        \<and> con_status (h_con (hs' ! i)) \<in> {Some status_ok, Some internal_server_error}"
    using phase body by (elim disjE insertE; simp split: check.splits)
qed

section \<open>What reaches the kernel\<close>

text \<open>A body that parses and whose api_key member is there and equals the configured key.\<close>

definition authorised :: "'j jsoncpp \<Rightarrow> configuration \<Rightarrow> string \<Rightarrow> bool" where
  "authorised J cfg body \<longleftrightarrow>
     (case json_parse J body of
        None \<Rightarrow> False
      | Some root \<Rightarrow>
          (case json_member J root ''api_key'' of
             None \<Rightarrow> False
           | Some v \<Rightarrow> \<not> json_null J v \<and> json_equal J v (json_of_string J (m_api_key cfg))))"

lemma accepted_authorised: "check_request J body (m_api_key cfg) = Accepted a b \<Longrightarrow> authorised J cfg body"
  by (auto simp: check_request_Accepted authorised_def)

definition served :: "'j jsoncpp \<Rightarrow> configuration \<Rightarrow> 'j handler \<Rightarrow> bool" where
  "served J cfg h \<longleftrightarrow> h_phase h = Finished \<and> authorised J cfg (h_body h)"

abbreviation (input) requests :: "'w server \<Rightarrow> request list" where
  "requests s \<equiv> sent (ipvs_lib (ipvs s))"

lemma advance_requests:
  assumes "advance J L R (s, h) = Some (s', h')" and "handler_ok J (config s) h"
  shows "\<not> served J cfg h \<and> prefix (requests s) (requests s')
    \<and> length (requests s') \<le> length (requests s) + (if served J (config s) h' then 1 else 0)"
  using assms(1)
proof (cases rule: advance_cases)
  case (updated vip a b con t)
  with update_weight_frame [OF updated(2)] assms(2) accepted_authorised [of J "h_body h" "config s" a b]
  show ?thesis by (auto simp: served_def)
qed (simp_all add: served_def)

lemma requests_step:
  assumes "server_step J L R c c'" and "conf_ok J cfg c"
    and "length (requests (fst c)) \<le> n + length (filter (served J cfg) (snd c))"
  shows "length (requests (fst c')) \<le> n + length (filter (served J cfg) (snd c'))
    \<and> prefix (requests (fst c)) (requests (fst c'))"
  using assms
proof (induction rule: server_step.induct)
  case (connect s hs headers)
  then show ?case by simp
next
  case (chunk i hs left s error bytes)
  have "\<not> served J cfg (hs ! i)" using chunk(2) by (simp add: served_def)
  with length_filter_update [OF chunk(1), of "served J cfg" "receive error bytes left (hs ! i)"] chunk
  show ?case by auto
next
  case (working c c')
  from working(1) obtain i s hs s' h' where c: "c = (s, hs)" "c' = (s', hs[i := h'])"
    and i: "i < length hs" "advance J L R (s, hs ! i) = Some (s', h')"
    by (auto elim: work_step.cases)
  have "handler_ok J (config s) (hs ! i)" and cfg: "config s = cfg"
    using working(2) i(1) c by (auto simp: conf_ok_def list_all_length)
  from advance_requests [OF i(2) this(1), of cfg] cfg working(3) c
    length_filter_update [OF i(1), of "served J cfg" h']
  show ?case by (auto split: if_splits)
qed

text \<open>C5. However the requests interleave, the kernel has been asked for at most one thing for each
  handler that finished a request carrying the configured key, and the settings have not changed.\<close>

theorem kernel_requests_are_authorised:
  assumes "(server_step J L R)\<^sup>*\<^sup>* (s0, []) (s, hs)"
  shows "config s = config s0 \<and> prefix (requests s0) (requests s)
    \<and> length (requests s) \<le> length (requests s0) + length (filter (served J (config s0)) hs)"
  using assms
proof (induction rule: rtranclp_induct2)
  case refl
  then show ?case by simp
next
  case (step s1 hs1 s2 hs2)
  have ok: "conf_ok J (config s0) (s1, hs1)" "conf_ok J (config s0) (s2, hs2)"
    using conf_ok_reachable [OF step.hyps(1) conf_ok_start]
      conf_ok_step [OF step.hyps(2) conf_ok_reachable [OF step.hyps(1) conf_ok_start]] by simp_all
  with requests_step [OF step.hyps(2) ok(1), of "length (requests s0)"] step.IH show ?case
    by (auto simp: conf_ok_def)
qed

text \<open>Whatever the handlers do, the library frees what it allocates and stays defined.\<close>

lemma advance_safe:
  assumes "advance J L R (s, h) = Some (s', h')"
  shows "safe (ipvs_lib (ipvs s)) (ipvs_lib (ipvs s')) \<and> m_initialized (ipvs s') = m_initialized (ipvs s)"
  using assms
proof (cases rule: advance_cases)
  case (updated vip a b con t)
  with update_weight_frame [OF updated(2)] show ?thesis by simp
qed simp_all

lemma server_steps_safe:
  assumes "(server_step J L R)\<^sup>*\<^sup>* (s, hs) (t, hs')"
  shows "safe (ipvs_lib (ipvs s)) (ipvs_lib (ipvs t)) \<and> m_initialized (ipvs t) = m_initialized (ipvs s)"
  using assms
proof (induction rule: rtranclp_induct2)
  case refl
  then show ?case by simp
next
  case (step t1 hs1 t2 hs2)
  from step.hyps(2) have "safe (ipvs_lib (ipvs t1)) (ipvs_lib (ipvs t2)) \<and> m_initialized (ipvs t2) = m_initialized (ipvs t1)"
    by (auto elim!: server_stepE work_stepE dest: advance_safe)
  with step.IH show ?case by (auto intro: safe_trans)
qed

section \<open>After an exception inside the section of the wrapper\<close>

definition waits_ipvs :: "'j handler \<Rightarrow> bool" where
  "waits_ipvs h \<longleftrightarrow> (case h_phase h of Lock_Ipvs _ _ _ \<Rightarrow> True | _ \<Rightarrow> False)"

lemma advance_locked_out:
  assumes "advance J L R (s, h) = Some (s', h')" and "ipvs_mutex s" and "\<not> in_ipvs h"
  shows "ipvs_lib (ipvs s') = ipvs_lib (ipvs s) \<and> \<not> waits_ipvs h"
  using assms(1)
  by (cases rule: advance_cases) (use assms(2,3) in \<open>auto simp: waits_ipvs_def\<close>)

lemma failed_step:
  assumes "server_step J L R c c'" and "guarded c" and "i < length (snd c)" and "h_phase (snd c ! i) = Failed_Locked"
  shows "length (snd c) \<le> length (snd c') \<and> h_phase (snd c' ! i) = Failed_Locked
    \<and> ipvs_lib (ipvs (fst c')) = ipvs_lib (ipvs (fst c))
    \<and> (\<forall>j < length (snd c). waits_ipvs (snd c ! j) \<longrightarrow> snd c' ! j = snd c ! j)"
  using assms
proof (induction rule: server_step.induct)
  case (connect s hs headers)
  then show ?case by (simp add: nth_append)
next
  case (chunk k hs left s error bytes)
  then show ?case by (auto simp: nth_list_update waits_ipvs_def)
next
  case (working c c')
  from working(1) obtain k s hs s' h' where c: "c = (s, hs)" "c' = (s', hs[k := h'])"
    and k: "k < length hs" "advance J L R (s, hs ! k) = Some (s', h')"
    by (auto elim: work_step.cases)
  have inside: "in_ipvs (hs ! i)" "i < length hs" using working(3,4) c by simp_all
  have count: "length (filter in_ipvs hs) = of_bool (ipvs_mutex s)"
    using working(2) c by (simp add: guarded_def)
  have "k \<noteq> i" using k(2) working(4) c by (auto simp: advance_def)
  with wrp.guarded_exclusive [OF count k(1) inside(2) _ inside(1)] have "\<not> in_ipvs (hs ! k)" by blast
  moreover have "ipvs_mutex s" using wrp.guarded_exclusive [OF count inside(2) inside(2) inside(1) inside(1)] by blast
  ultimately have "ipvs_lib (ipvs s') = ipvs_lib (ipvs s)" "\<not> waits_ipvs (hs ! k)"
    using advance_locked_out [OF k(2)] by blast+
  moreover from this have "hs[k := h'] ! j = hs ! j" if "waits_ipvs (hs ! j)" for j
    using that by (cases "j = k") auto
  ultimately show ?case using c \<open>k \<noteq> i\<close> working(4) by simp
qed

text \<open>C18. Once a handler has been left by an exception while it held the mutex of the wrapper (an
  accepted request whose host or count does not convert), nothing that happens later asks the
  kernel for anything, and every handler that waits for the mutex waits for good.\<close>

theorem failure_stops_updates:
  assumes "(server_step J L R)\<^sup>*\<^sup>* (s0, []) (s, hs)" and "\<not> configuration_mutex s0" and "\<not> ipvs_mutex s0"
    and "i < length hs" and "h_phase (hs ! i) = Failed_Locked"
    and "(server_step J L R)\<^sup>*\<^sup>* (s, hs) (t, hs')"
  shows "ipvs_lib (ipvs t) = ipvs_lib (ipvs s)
    \<and> (\<forall>j < length hs. waits_ipvs (hs ! j) \<longrightarrow> hs' ! j = hs ! j)"
proof -
  have g: "guarded (s, hs)" by (rule guarded_reachable [OF assms(1) guarded_start [OF assms(2,3)]])
  from assms(6) have "length hs \<le> length hs' \<and> h_phase (hs' ! i) = Failed_Locked
      \<and> ipvs_lib (ipvs t) = ipvs_lib (ipvs s) \<and> (\<forall>j < length hs. waits_ipvs (hs ! j) \<longrightarrow> hs' ! j = hs ! j)"
  proof (induction rule: rtranclp_induct2)
    case refl
    then show ?case using assms(5) by simp
  next
    case (step t1 hs1 t2 hs2)
    have "guarded (t1, hs1)" by (rule guarded_reachable [OF step.hyps(1) g])
    moreover have "i < length hs1" using step.IH assms(4) by simp
    ultimately have next_step: "length hs1 \<le> length hs2" "h_phase (hs2 ! i) = Failed_Locked"
      "ipvs_lib (ipvs t2) = ipvs_lib (ipvs t1)"
      "\<forall>j < length hs1. waits_ipvs (hs1 ! j) \<longrightarrow> hs2 ! j = hs1 ! j"
      using failed_step [OF step.hyps(2), of i] step.IH by simp_all
    then show ?case using step.IH by (auto simp: less_le_trans)
  qed
  then show ?thesis by blast
qed

section \<open>The properties at work\<close>

lemma requests_are_worked_off_witness:
  "\<not> (\<exists>c. (work_step (sample_json [hd sample_texts]) (sample_sys False) sample_resolver ^^ 6)
        (sample_server, [posted ''good'']) c)"
proof -
  let ?J = "sample_json [hd sample_texts]"
  have "start_reading [(''content-length'', ''4'')] = word_of_nat (length ''good'')" by code_simp
  from post_arrives [OF this, of ?J "sample_sys False" sample_resolver sample_server "[]"]
  have reach: "(server_step ?J (sample_sys False) sample_resolver)\<^sup>*\<^sup>* (sample_server, []) (sample_server, [posted ''good''])"
    by simp
  have conv: "convertible ?J a b" if "check_request ?J body (m_api_key (config sample_server)) = Accepted a b" for body a b
    using that by (auto simp: check_request_Accepted sample_json_def sample_texts_def split: if_splits)
  from requests_are_worked_off [OF reach sample_free conv] show ?thesis by fastforce
qed

lemma kernel_requests_are_authorised_witness:
  "\<exists>s hs. sample_steps (sample_server, []) (s, hs) \<and> length (requests s) = 1
     \<and> length (filter (served (sample_json sample_texts) (config sample_server)) hs) \<ge> 1"
proof -
  have run: "map_option (\<lambda>(s, hs). length (requests s)) (sample_work [0, 0, 0, 0, 0, 1, 1, 1]
      (sample_server, [posted ''good'', posted ''thief''])) = Some 1"
    by code_simp
  from sample_two [OF run] obtain s hs where sh: "sample_steps (sample_server, []) (s, hs)" "length (requests s) = 1"
    by auto
  have "requests sample_server = []" by (simp add: sample_server_def sample_interface_def lib_start_def)
  with kernel_requests_are_authorised [OF sh(1)] sh show ?thesis by auto
qed

lemma failure_stops_updates_witness:
  "\<exists>s hs. sample_steps (sample_server, []) (s, hs) \<and> waits_ipvs (hs ! 0) \<and> h_phase (hs ! 1) = Failed_Locked
     \<and> (hs @ [new_handler []]) ! 0 = hs ! 0"
proof -
  have run: "map_option (\<lambda>(s, hs). (length hs, waits_ipvs (hs ! 0), h_phase (hs ! 1)))
      (sample_work [1, 1, 1, 1, 1, 0, 0, 0] (sample_server, [posted ''good'', posted ''array'']))
      = Some (2, True, Failed_Locked)"
    by code_simp
  from sample_two [OF run] obtain s hs where sh: "sample_steps (sample_server, []) (s, hs)"
    "length hs = 2" "waits_ipvs (hs ! 0)" "h_phase (hs ! 1) = Failed_Locked" by auto
  have "sample_steps (s, hs) (s, hs @ [new_handler []])" by (intro r_into_rtranclp server_step.connect)
  from failure_stops_updates [OF sh(1) sample_free _ sh(4) this] sh
  have "(hs @ [new_handler []]) ! 0 = hs ! 0" by simp
  with sh show ?thesis by blast
qed

end
