(* ===== verification/Program.thy ===== *)
theory Program
  imports HttpProperties
begin

text \<open>
  \<^verbatim>\<open>src/ipvshttpd.cpp\<close>: the daemon's \<^verbatim>\<open>main\<close>, from its arguments to its exit code;
  \<^verbatim>\<open>src/file_tools.cpp\<close>, whether a file exists; and \<^verbatim>\<open>src/rate_test.cpp\<close>, the small
  program that sets one weight. The operating system (which files exist and open, what
  \<^verbatim>\<open>fork\<close> returns) is the record \<open>os\<close>.
\<close>

section \<open>The operating system\<close>

record os =
  stat_ok :: "string \<Rightarrow> bool"
  file_contents :: "string \<Rightarrow> string option"
  fork_result :: int
  getpid :: int
  can_write :: "string \<Rightarrow> bool"
  can_remove :: "string \<Rightarrow> bool"

definition file_exists :: "os \<Rightarrow> string \<Rightarrow> bool" where
  "file_exists OS filename = stat_ok OS (c_str filename)"

text \<open>
  What the serving process does, in its order: it writes a file, calls \<^verbatim>\<open>server.start()\<close>, has that
  call return and the server stopped, removes a file.
\<close>

datatype action = Wrote string string | Started | Stopped | Removed string

section \<open>Usage\<close>

definition usage_lines :: "string \<Rightarrow> string list" where
  "usage_lines program_name =
     [program_name @ [TAB] @ ''[-c <config filename>] [-f] [-l (DEBUG|INFO|ERROR|NONE)] '',
      [TAB, TAB] @ ''[-L (STDOUT|SYSLOG|NONE)] [-p <pidfile filename>] '',
      [],
      ''-c <file>'' @ [TAB] @ ''Configuration file (followed by path to configfile).'',
      ''-f'' @ [TAB, TAB] @ ''Keep in foreground (prevents daemonizing, droppingprivileges).'',
      ''-l <level>'' @ [TAB] @ ''Logging level (one of DEBUG, INFO, ERROR or NONE)'',
      ''-L <sink>'' @ [TAB] @ ''Log sinks (comma-separated list of log sinks (stdout, syslog, or none)'',
      ''-p <file>'' @ [TAB] @ ''Writes out a PIDfile with given filename.'']"

definition usage :: "string \<Rightarrow> log_state \<Rightarrow> log_state" where
  "usage program_name l = fold (\<lambda>line. emit (StdOut line)) (usage_lines program_name) l"

section \<open>Log level and log sinks\<close>

definition parse_log_sink :: "string \<Rightarrow> log_state \<Rightarrow> bool \<times> log_state" where
  "parse_log_sink selected l =
     (if selected \<noteq> ''none'' \<and> selected \<noteq> ''syslog'' \<and> selected \<noteq> ''stdout''
      then (False, log_error (''Invalid log sink: '' @ selected) l)
      else let l = (if selected = ''none'' then l\<lparr>active_log_sinks := active_log_sinks l OR LOG_SINK_NONE\<rparr> else l);
               l = (if selected = ''stdout'' then l\<lparr>active_log_sinks := active_log_sinks l OR LOG_SINK_STD\<rparr> else l);
               l = (if selected = ''syslog'' then l\<lparr>active_log_sinks := active_log_sinks l OR LOG_SINK_SYSLOG\<rparr> else l)
           in (True, l))"

definition parse_log_level :: "string \<Rightarrow> log_state \<Rightarrow> bool \<times> log_state" where
  "parse_log_level choice l =
     (if choice = ''none'' then (True, l\<lparr>logging_level := LOG_LEVEL_NONE\<rparr>)
      else if choice = ''error'' then (True, l\<lparr>logging_level := LOG_LEVEL_ERROR\<rparr>)
      else if choice = ''info'' then (True, l\<lparr>logging_level := LOG_LEVEL_INFO\<rparr>)
      else if choice = ''debug'' then (True, l\<lparr>logging_level := LOG_LEVEL_DEBUG\<rparr>)
      else (False, log_error (''Unknown log level: '' @ choice) l))"

text \<open>The loop over the pieces of a comma-separated list; it ends at the first invalid one.\<close>

fun parse_log_sinks :: "string list \<Rightarrow> log_state \<Rightarrow> bool \<times> log_state" where
  "parse_log_sinks [] l = (True, l)"
| "parse_log_sinks (piece # pieces) l =
     (let (ok, l) = parse_log_sink (str_to_lower piece) l
      in if \<not> ok then (False, l) else parse_log_sinks pieces l)"

text \<open>The call of \<^verbatim>\<open>str_split\<close> with a comma and no limit, which always returns.\<close>

definition split_sinks :: "string \<Rightarrow> string list" where
  "split_sinks s = (case str_split s '','' (-1) of Some pieces \<Rightarrow> pieces | None \<Rightarrow> [])"

section \<open>The arguments\<close>

record options =
  config_file :: string
  pid_file :: string
  config_is_set :: bool
  log_level_set :: bool
  log_sinks_set :: bool
  daemonize :: bool

definition default_options :: options where
  "default_options = \<lparr>config_file = ''/etc/sysconfig/ipvshttpd.conf'', pid_file = [], config_is_set = False,
     log_level_set = False, log_sinks_set = False, daemonize = True\<rparr>"

text \<open>An option without its argument, and the report of it; None is the return of 1.\<close>

definition no_argument :: "string \<Rightarrow> bool" where
  "no_argument next_opt \<longleftrightarrow> next_opt = [] \<or> str_starts_with ''-'' next_opt"

definition bad_usage :: "string \<Rightarrow> string \<Rightarrow> log_state \<Rightarrow> options option \<times> log_state" where
  "bad_usage program_name message l = (None, usage program_name (log_error message l))"

function parse_args :: "string \<Rightarrow> string list \<Rightarrow> options \<Rightarrow> log_state \<Rightarrow> options option \<times> log_state" where
  "parse_args prog [] p l = (Some p, l)"
| "parse_args prog (curr_opt # rest) p l =
     (let next_opt = (case rest of [] \<Rightarrow> [] | a # _ \<Rightarrow> a)
      in if curr_opt = ''-f'' then parse_args prog rest (p\<lparr>daemonize := False\<rparr>) l
         else if curr_opt = ''-l'' then
           (if no_argument next_opt then bad_usage prog ''Missing argument to -l option.'' l
            else let (ok, l) = parse_log_level (str_to_lower next_opt) l
                 in if \<not> ok then (None, l) else parse_args prog (tl rest) (p\<lparr>log_level_set := True\<rparr>) l)
         else if curr_opt = ''-L'' then
           (if no_argument next_opt then bad_usage prog ''Missing argument(s) to -L option.'' l
            else let (ok, l) = parse_log_sinks (split_sinks next_opt) l
                 in if \<not> ok then (None, l) else parse_args prog (tl rest) (p\<lparr>log_sinks_set := True\<rparr>) l)
         else if curr_opt = ''-c'' then
           (if no_argument next_opt then bad_usage prog ''Missing argument to -c option.'' l
            else parse_args prog (tl rest) (p\<lparr>config_file := next_opt, config_is_set := True\<rparr>) l)
         else if curr_opt = ''-p'' then
           (if no_argument next_opt then bad_usage prog ''Missing argument to -p option.'' l
            else parse_args prog (tl rest) (p\<lparr>pid_file := next_opt\<rparr>) l)
         else bad_usage prog (''Unknown option: '' @ curr_opt) l)"
  by pat_completeness auto
termination
  by (relation "measure (\<lambda>(prog, args, p, l). length args)") (auto simp: less_Suc_eq_le)

section \<open>Starting\<close>

definition load_configuration ::
  "os \<Rightarrow> options \<Rightarrow> configuration \<Rightarrow> log_state \<Rightarrow> bool \<times> configuration \<times> log_state" where
  "load_configuration OS p c l =
     (let (ok, c, l) = config_open (config_file p) (file_contents OS (c_str (config_file p))) c l
      in if \<not> ok then (False, c, log_error ''Could not load configuration file.'' l)
      else let (ok, l) = (if \<not> log_level_set p \<and> get_log_verbosity c \<noteq> []
                          then parse_log_level (get_log_verbosity c) l else (True, l))
      in if \<not> ok then (False, c, l)
      else let (ok, l) = (if \<not> log_sinks_set p \<and> get_log_sinks c \<noteq> []
                          then parse_log_sinks (split_sinks (get_log_sinks c)) l else (True, l))
      in (ok, c, l))"

text \<open>Arguments and configuration; None is a return of 1.\<close>

definition with_log :: "log_state \<Rightarrow> 'w server \<Rightarrow> 'w server" where
  "with_log l s = s\<lparr>ipvs := (ipvs s)\<lparr>ipvs_log := l\<rparr>\<rparr>"

definition startup :: "os \<Rightarrow> string \<Rightarrow> string list \<Rightarrow> 'w server \<Rightarrow> options option \<times> 'w server" where
  "startup OS prog args s =
     (let l = (ipvs_log (ipvs s))\<lparr>logging_level := LOG_LEVEL_ERROR, active_log_sinks := LOG_SINK_STD\<rparr>;
          (p, l) = parse_args prog args default_options l
      in case p of
           None \<Rightarrow> (None, with_log l s)
         | Some p \<Rightarrow>
             (if config_is_set p \<or> file_exists OS (config_file p)
              then (let (ok, c, l) = load_configuration OS p (config s) l
                    in (if ok then Some p else None, with_log l (s\<lparr>config := c\<rparr>)))
              else (Some p, with_log l s)))"

section \<open>main\<close>

text \<open>
  How the program ends: with an exit code, by an exception nobody catches, or not at all. On
  the way out of \<^verbatim>\<open>main\<close> the server object is stopped and then the wrapper destroyed.
\<close>

datatype exit = Exit int | Terminated | Hangs

type_synonym 'w run_result = "exit \<times> 'w server \<times> action list"

definition leave :: "('w, 'm, 'a) sys \<Rightarrow> int \<Rightarrow> http_server \<Rightarrow> 'w server \<Rightarrow> action list \<Rightarrow> 'w run_result" where
  "leave L code h s fs =
     (let (h, s) = destroy_http_server h s in (Exit code, s\<lparr>ipvs := destroy L (ipvs s)\<rparr>, fs))"

text \<open>From the pid file on, in the process that serves.\<close>

definition serve ::
  "os \<Rightarrow> 'w netlib \<Rightarrow> ('w, 'm, 'a) sys \<Rightarrow> 'w modprobe \<Rightarrow> options \<Rightarrow> http_server \<Rightarrow> 'w server \<Rightarrow> 'w run_result" where
  "serve OS N L run p h s =
     (if pid_file p \<noteq> [] \<and> \<not> can_write OS (c_str (pid_file p))
      then leave L 1 h (log_with log_error (''Could not write to PID file: '' @ pid_file p) s) []
      else let fs = (if pid_file p \<noteq> [] then [Wrote (pid_file p) (dec_of_int (getpid OS) @ [LF])] else []);
               fs = fs @ [Started];
               (r, h, s) = server_start L run N h s
      in case r of
           Start_Blocked \<Rightarrow> (Hangs, s, fs)
         | Start_Threw \<Rightarrow> (Terminated, s, fs)
         | Start_Returned _ \<Rightarrow>
             (let (h, s) = server_stop h s;
                  fs = fs @ [Stopped];
                  s = with_log (log_stop (ipvs_log (ipvs s))) s
              in if pid_file p \<noteq> []
                 then (if can_remove OS (c_str (pid_file p)) then leave L 0 h s (fs @ [Removed (pid_file p)])
                       else leave L 1 h (log_with log_error (''Could not clean up PID file: '' @ pid_file p) s) fs)
                 else leave L 0 h s fs))"

text \<open>Logging starts, and the server object is made from the settings.\<close>

definition announce :: "'w server \<Rightarrow> 'w server" where
  "announce s = with_log (log_message ''ipvshttpd starting...'' (log_start (ipvs_log (ipvs s)))) s"

definition server_of :: "configuration \<Rightarrow> http_server" where
  "server_of c = new_http_server (get_listen_address c) (get_port c) (get_threads c)"

definition main_program ::
  "os \<Rightarrow> 'w netlib \<Rightarrow> ('w, 'm, 'a) sys \<Rightarrow> 'w modprobe \<Rightarrow> string \<Rightarrow> string list \<Rightarrow> 'w server \<Rightarrow> 'w run_result" where
  "main_program OS N L run prog args s =
     (case startup OS prog args s of
        (None, s) \<Rightarrow> (Exit 1, s\<lparr>ipvs := destroy L (ipvs s)\<rparr>, [])
      | (Some p, s) \<Rightarrow>
          (let s = announce s; h = server_of (config s)
           in if daemonize p
              then (if fork_result OS < 0
                    then leave L 1 h (with_log (log_stop (log_error ''Could not fork.'' (ipvs_log (ipvs s)))) s) []
                    else if fork_result OS > 0 then leave L 0 h s []
                    else serve OS N L run p h s)
              else serve OS N L run p h s))"

text \<open>The globals when the program starts.\<close>

definition program_start :: "'w \<Rightarrow> 'w server" where
  "program_start w = \<lparr>config = configuration_manager, configuration_mutex = False, ipvs_mutex = False,
     ipvs = new_ipvs_interface (lib_start w) log_init\<rparr>"

section \<open>The rate test\<close>

definition rate_test_usage :: "string \<Rightarrow> log_state \<Rightarrow> log_state" where
  "rate_test_usage progname l = emit (StdOut (''Usage: '' @ progname @ '' [vip] [server name] [weight]'')) l"

text \<open>\<^verbatim>\<open>main\<close> of the rate test; its wrapper is destroyed when it returns.\<close>

fun rate_test_main ::
  "('w, 'm, 'a) sys \<Rightarrow> 'w modprobe \<Rightarrow> resolver \<Rightarrow> string \<Rightarrow> string list \<Rightarrow> 'w ipvs_interface \<Rightarrow> int \<times> 'w ipvs_interface" where
  "rate_test_main L run R prog [vip, server, weight] i =
     (let (ok, i) = init L run i
      in if \<not> ok then (1, destroy L i)
      else let (ok, i) = set_weight L R vip server (atoi weight) i
      in if \<not> ok then (1, destroy L i) else (0, destroy L i))"
| "rate_test_main L run R prog args i = (1, i\<lparr>ipvs_log := rate_test_usage prog (ipvs_log i)\<rparr>)"

section \<open>What the arguments say\<close>

declare parse_args.simps(2) [simp del]

lemma split_sinks_join: "ps \<noteq> [] \<Longrightarrow> \<forall>p \<in> set ps. CHR '','' \<notin> set p \<Longrightarrow> split_sinks (str_join '','' ps) = ps"
  by (simp add: split_sinks_def str_split_join_pieces)

lemma no_argument_iff: "no_argument s \<longleftrightarrow> s = [] \<or> hd s = CHR ''-''"
  by (cases s) (auto simp: no_argument_def str_starts_with_def c_str_def)

fun level_name :: "log_level \<Rightarrow> string" where
  "level_name LOG_LEVEL_NONE = ''none''"
| "level_name LOG_LEVEL_ERROR = ''error''"
| "level_name LOG_LEVEL_INFO = ''info''"
| "level_name LOG_LEVEL_DEBUG = ''debug''"

datatype sink = None_Sink | Stdout_Sink | Syslog_Sink

fun sink_name :: "sink \<Rightarrow> string" where
  "sink_name None_Sink = ''none''"
| "sink_name Stdout_Sink = ''stdout''"
| "sink_name Syslog_Sink = ''syslog''"

fun sink_bit :: "sink \<Rightarrow> i32" where
  "sink_bit None_Sink = LOG_SINK_NONE"
| "sink_bit Stdout_Sink = LOG_SINK_STD"
| "sink_bit Syslog_Sink = LOG_SINK_SYSLOG"

definition add_sink :: "sink \<Rightarrow> log_state \<Rightarrow> log_state" where
  "add_sink k l = l\<lparr>active_log_sinks := active_log_sinks l OR sink_bit k\<rparr>"

text \<open>A word written with any of its letters in upper case.\<close>

definition same_letter :: "char \<Rightarrow> char \<Rightarrow> bool" where
  "same_letter c d \<longleftrightarrow> c = d \<or> (97 \<le> (of_char d :: nat) \<and> of_char d \<le> (122 :: nat) \<and> of_char c + 32 = (of_char d :: nat))"

definition spells :: "string \<Rightarrow> string \<Rightarrow> bool" where
  "spells w name \<longleftrightarrow> list_all2 same_letter w name"

text \<open>
  One option of a command line, its text, and what it sets. A level and the sinks come with the
  spelling of their names on the command line.
\<close>

datatype item = Foreground | Level log_level string | Sinks "(sink \<times> string) list" | Config string | Pid string

fun render :: "item \<Rightarrow> string list" where
  "render Foreground = [''-f'']"
| "render (Level v w) = [''-l'', w]"
| "render (Sinks ks) = [''-L'', str_join '','' (map snd ks)]"
| "render (Config f) = [''-c'', f]"
| "render (Pid f) = [''-p'', f]"

fun valid_item :: "item \<Rightarrow> bool" where
  "valid_item (Level v w) = spells w (level_name v)"
| "valid_item (Sinks ks) = (ks \<noteq> [] \<and> list_all (\<lambda>(k, w). spells w (sink_name k)) ks)"
| "valid_item (Config f) = (\<not> no_argument f)"
| "valid_item (Pid f) = (\<not> no_argument f)"
| "valid_item _ = True"

fun apply_item :: "item \<Rightarrow> options \<Rightarrow> options" where
  "apply_item Foreground p = p\<lparr>daemonize := False\<rparr>"
| "apply_item (Level v w) p = p\<lparr>log_level_set := True\<rparr>"
| "apply_item (Sinks ks) p = p\<lparr>log_sinks_set := True\<rparr>"
| "apply_item (Config f) p = p\<lparr>config_file := f, config_is_set := True\<rparr>"
| "apply_item (Pid f) p = p\<lparr>pid_file := f\<rparr>"

fun apply_log :: "item \<Rightarrow> log_state \<Rightarrow> log_state" where
  "apply_log (Level v w) l = l\<lparr>logging_level := v\<rparr>"
| "apply_log (Sinks ks) l = fold add_sink (map fst ks) l"
| "apply_log _ l = l"

lemma same_letter_tolower: "same_letter c d \<Longrightarrow> tolower c = tolower d"
proof -
  have "char_of (of_char d :: nat) = d" by simp
  then show "same_letter c d \<Longrightarrow> tolower c = tolower d"
    by (auto simp: same_letter_def tolower_def Let_def)
qed

lemma spells_lower: "spells w name \<Longrightarrow> str_to_lower w = str_to_lower name"
  unfolding spells_def str_to_lower_def
  by (induction rule: list_all2_induct) (simp_all add: same_letter_tolower)

text \<open>A spelling holds a character that is its own lower case only where the name does.\<close>

lemma spells_plain:
  assumes "spells w name" and "str_to_lower name = name" and "tolower c = c"
  shows "c \<in> set w \<Longrightarrow> c \<in> set name" "w = [] \<longleftrightarrow> name = []" "w \<noteq> [] \<Longrightarrow> hd w = c \<Longrightarrow> hd name = c"
proof -
  have name: "name = map tolower w" using spells_lower [OF assms(1)] assms(2) by (simp add: str_to_lower_def)
  then show "c \<in> set w \<Longrightarrow> c \<in> set name" using assms(3) by (metis image_eqI set_map)
  show "w = [] \<longleftrightarrow> name = []" using name by simp
  show "w \<noteq> [] \<Longrightarrow> hd w = c \<Longrightarrow> hd name = c" using name assms(3) by (cases w) simp_all
qed

lemma level_name_facts:
  "str_to_lower (level_name v) = level_name v" "parse_log_level (level_name v) l = (True, l\<lparr>logging_level := v\<rparr>)"
  "level_name v \<noteq> [] \<and> hd (level_name v) \<noteq> CHR ''-''"
proof -
  have "list_all (\<lambda>v. str_to_lower (level_name v) = level_name v)
      [LOG_LEVEL_NONE, LOG_LEVEL_ERROR, LOG_LEVEL_INFO, LOG_LEVEL_DEBUG]" by code_simp
  then show "str_to_lower (level_name v) = level_name v" by (cases v) simp_all
  show "parse_log_level (level_name v) l = (True, l\<lparr>logging_level := v\<rparr>)"
    by (cases v) (simp_all add: parse_log_level_def)
  show "level_name v \<noteq> [] \<and> hd (level_name v) \<noteq> CHR ''-''" by (cases v) simp_all
qed

lemma sink_name_facts:
  "str_to_lower (sink_name k) = sink_name k" "parse_log_sink (sink_name k) l = (True, add_sink k l)"
  "CHR '','' \<notin> set (sink_name k)" "sink_name k \<noteq> [] \<and> hd (sink_name k) \<noteq> CHR ''-''"
proof -
  have "list_all (\<lambda>k. str_to_lower (sink_name k) = sink_name k) [None_Sink, Stdout_Sink, Syslog_Sink]" by code_simp
  then show "str_to_lower (sink_name k) = sink_name k" by (cases k) simp_all
  show "parse_log_sink (sink_name k) l = (True, add_sink k l)"
    by (cases k) (simp_all add: parse_log_sink_def add_sink_def)
  show "CHR '','' \<notin> set (sink_name k)" "sink_name k \<noteq> [] \<and> hd (sink_name k) \<noteq> CHR ''-''" by (cases k; simp)+
qed

lemma plain_chars: "tolower (CHR ''-'') = CHR ''-''" "tolower (CHR '','') = CHR '',''"
  by code_simp+

lemma level_text:
  assumes "spells w (level_name v)"
  shows "\<not> no_argument w" and "parse_log_level (str_to_lower w) l = (True, l\<lparr>logging_level := v\<rparr>)"
  using spells_plain [OF assms level_name_facts(1) plain_chars(1)] spells_lower [OF assms] level_name_facts
  by (auto simp: no_argument_iff)

abbreviation (input) spelled_sinks :: "(sink \<times> string) list \<Rightarrow> bool" where
  "spelled_sinks ks \<equiv> list_all (\<lambda>(k, w). spells w (sink_name k)) ks"

lemma parse_sink_names: "spelled_sinks ks \<Longrightarrow> parse_log_sinks (map snd ks) l = (True, fold add_sink (map fst ks) l)"
  by (induction ks arbitrary: l) (auto simp: sink_name_facts dest!: spells_lower)

lemma sinks_text:
  assumes "ks \<noteq> []" and "spelled_sinks ks"
  shows "split_sinks (str_join '','' (map snd ks)) = map snd ks"
    and "\<not> no_argument (str_join '','' (map snd ks))"
proof -
  have word: "CHR '','' \<notin> set w \<and> w \<noteq> [] \<and> hd w \<noteq> CHR ''-''" if "(k, w) \<in> set ks" for k w
  proof -
    from that assms(2) have "spells w (sink_name k)" by (auto simp: list_all_iff)
    from spells_plain [OF this sink_name_facts(1) plain_chars(1)] spells_plain(1) [OF this sink_name_facts(1) plain_chars(2)]
    show ?thesis using sink_name_facts(3,4) by blast
  qed
  show "split_sinks (str_join '','' (map snd ks)) = map snd ks"
    using assms(1) word by (intro split_sinks_join) auto
  obtain k w js where ks: "ks = (k, w) # js" using assms(1) by (cases ks) auto
  have "\<exists>v. str_join '','' (map snd ks) = w @ v" unfolding ks by (cases js) auto
  then show "\<not> no_argument (str_join '','' (map snd ks))"
    using word [of k w] ks by (auto simp: no_argument_iff)
qed

lemma parse_args_item:
  "valid_item x \<Longrightarrow> parse_args prog (render x @ args) p l = parse_args prog args (apply_item x p) (apply_log x l)"
  by (cases x) (simp_all add: parse_args.simps(2) level_text sinks_text parse_sink_names)

lemma parse_args_items:
  "list_all valid_item xs \<Longrightarrow>
   parse_args prog (concat (map render xs)) p l = (Some (fold apply_item xs p), fold apply_log xs l)"
  by (induction xs arbitrary: p l) (simp_all add: parse_args_item)

section \<open>The command line read back\<close>

fun level_of :: "item \<Rightarrow> log_level option" where
  "level_of (Level v w) = Some v"
| "level_of _ = None"

fun config_of :: "item \<Rightarrow> string option" where
  "config_of (Config f) = Some f"
| "config_of _ = None"

fun pid_of :: "item \<Rightarrow> string option" where
  "pid_of (Pid f) = Some f"
| "pid_of _ = None"

fun bits_of :: "item \<Rightarrow> i32" where
  "bits_of (Sinks ks) = fold (\<lambda>k b. b OR sink_bit k) (map fst ks) 0"
| "bits_of _ = 0"

text \<open>The last value a command line gives, or the default.\<close>

definition last_some :: "(item \<Rightarrow> 'v option) \<Rightarrow> item list \<Rightarrow> 'v \<Rightarrow> 'v" where
  "last_some f xs d = fold (\<lambda>x v. case f x of Some w \<Rightarrow> w | None \<Rightarrow> v) xs d"

lemma fold_add_sink:
  "fold add_sink ks l = l\<lparr>active_log_sinks := active_log_sinks l OR fold (\<lambda>k b. b OR sink_bit k) ks 0\<rparr>"
proof (induction ks rule: rev_induct)
  case Nil
  then show ?case by simp
next
  case (snoc k ks)
  then show ?case by (simp add: add_sink_def ac_simps)
qed

lemma apply_log_eq: "apply_log x l = l\<lparr>logging_level := last_some level_of [x] (logging_level l),
    active_log_sinks := active_log_sinks l OR bits_of x\<rparr>"
  by (cases x) (simp_all add: last_some_def fold_add_sink)

lemma fold_apply_log: "fold apply_log xs l = l\<lparr>logging_level := last_some level_of xs (logging_level l),
    active_log_sinks := fold (\<lambda>x b. b OR bits_of x) xs (active_log_sinks l)\<rparr>"
proof (induction xs rule: rev_induct)
  case Nil
  then show ?case by (simp add: last_some_def)
next
  case (snoc x xs)
  then show ?case by (simp add: apply_log_eq) (simp add: last_some_def)
qed

lemma fold_apply_item: "fold apply_item xs p =
  \<lparr>config_file = last_some config_of xs (config_file p), pid_file = last_some pid_of xs (pid_file p),
   config_is_set = (config_is_set p \<or> list_ex (\<lambda>x. config_of x \<noteq> None) xs),
   log_level_set = (log_level_set p \<or> list_ex (\<lambda>x. level_of x \<noteq> None) xs),
   log_sinks_set = (log_sinks_set p \<or> list_ex (\<lambda>x. case x of Sinks _ \<Rightarrow> True | _ \<Rightarrow> False) xs),
   daemonize = (daemonize p \<and> list_all (\<lambda>x. x \<noteq> Foreground) xs)\<rparr>"
proof (induction xs rule: rev_induct)
  case Nil
  then show ?case by (simp add: last_some_def)
next
  case (snoc x xs)
  then show ?case by (cases x) (simp_all add: last_some_def)
qed

text \<open>C35. Every command line made of the documented options, in any order and number, with the names of
  levels and sinks in upper, lower or mixed case, is read back: the last -l, -c and -p count, -f keeps the program in the foreground, the sinks of all -L options are
  added to the ones that are on, and nothing is printed.\<close>

theorem command_line_roundtrip:
  assumes "list_all valid_item xs"
  shows "parse_args prog (concat (map render xs)) default_options l =
    (Some \<lparr>config_file = last_some config_of xs ''/etc/sysconfig/ipvshttpd.conf'', pid_file = last_some pid_of xs [],
       config_is_set = list_ex (\<lambda>x. config_of x \<noteq> None) xs,
       log_level_set = list_ex (\<lambda>x. level_of x \<noteq> None) xs,
       log_sinks_set = list_ex (\<lambda>x. case x of Sinks _ \<Rightarrow> True | _ \<Rightarrow> False) xs,
       daemonize = list_all (\<lambda>x. x \<noteq> Foreground) xs\<rparr>,
     l\<lparr>logging_level := last_some level_of xs (logging_level l),
       active_log_sinks := fold (\<lambda>x b. b OR bits_of x) xs (active_log_sinks l)\<rparr>)"
  using assms by (simp add: parse_args_items fold_apply_item fold_apply_log default_options_def)

lemma command_line_roundtrip_witness:
  "parse_args ''ipvshttpd'' [''-p'', ''/run/x.pid'', ''-L'', ''SysLog,none'', ''-l'', ''DEBUG'', ''-f''] default_options log_init =
     (Some \<lparr>config_file = ''/etc/sysconfig/ipvshttpd.conf'', pid_file = ''/run/x.pid'', config_is_set = False,
        log_level_set = True, log_sinks_set = True, daemonize = False\<rparr>,
      log_init\<lparr>logging_level := LOG_LEVEL_DEBUG,
        active_log_sinks := active_log_sinks log_init OR (LOG_SINK_SYSLOG OR LOG_SINK_NONE)\<rparr>)"
proof -
  let ?xs = "[Pid ''/run/x.pid'', Sinks [(Syslog_Sink, ''SysLog''), (None_Sink, ''none'')],
      Level LOG_LEVEL_DEBUG ''DEBUG'', Foreground]"
  have "list_all valid_item ?xs" by code_simp
  from command_line_roundtrip [OF this, of "''ipvshttpd''" log_init] show ?thesis
    by (simp add: last_some_def)
qed

section \<open>The sinks that are on\<close>

definition std_on :: "log_state \<Rightarrow> bool" where
  "std_on l \<longleftrightarrow> active_log_sinks l AND LOG_SINK_STD = LOG_SINK_STD"

lemma std_on_or: "a AND LOG_SINK_STD = LOG_SINK_STD \<Longrightarrow> (a OR b) AND LOG_SINK_STD = LOG_SINK_STD"
  by (auto simp: bit_eq_iff bit_simps)

lemma std_on_kept [simp]:
  "std_on (log_error m l) = std_on l" "std_on (log_message m l) = std_on l" "std_on (emit e l) = std_on l"
  "std_on (l\<lparr>logging_level := v\<rparr>) = std_on l"
  by (simp_all add: std_on_def emit_def)

lemma std_on_usage [simp]: "std_on (usage prog l) = std_on l"
proof -
  have "std_on (fold (\<lambda>line. emit (StdOut line)) ls l) = std_on l" for ls by (induction ls arbitrary: l) simp_all
  then show ?thesis by (simp add: usage_def)
qed

lemma std_on_level [simp]: "std_on (snd (parse_log_level v l)) = std_on l"
  by (simp add: parse_log_level_def)

lemma std_on_sink: "std_on l \<Longrightarrow> std_on (snd (parse_log_sink k l))"
  by (auto simp: parse_log_sink_def Let_def) (auto simp: std_on_def std_on_or)

lemma std_on_sinks: "std_on l \<Longrightarrow> std_on (snd (parse_log_sinks ks l))"
  by (induction ks arbitrary: l) (simp_all add: Let_def case_prod_beta std_on_sink)

lemma parse_args_std: "std_on l \<Longrightarrow> std_on (snd (parse_args prog args p l))"
proof (induction "length args" arbitrary: args p l rule: less_induct)
  case less
  show ?case
  proof (cases args)
    case Nil
    with less.prems show ?thesis by simp
  next
    case (Cons a rest)
    have "std_on l' \<Longrightarrow> std_on (snd (parse_args prog rest p' l'))"
      and "std_on l' \<Longrightarrow> std_on (snd (parse_args prog (tl rest) p' l'))" for p' l'
      using Cons by (auto intro!: less.hyps)
    with less.prems show ?thesis
      unfolding Cons by (simp add: parse_args.simps(2) Let_def case_prod_beta std_on_sinks bad_usage_def)
  qed
qed

lemma config_open_log:
  assumes "config_open f txt c l = (ok, c', l')"
  shows "active_log_sinks l' = active_log_sinks l \<and> logging_level l' = logging_level l"
  using assms
  by (auto simp: config_open_def config_lines_spec Let_def split: option.splits if_splits)

text \<open>What reading the configuration leaves of the two log settings.\<close>

lemma load_configuration_std:
  assumes "std_on l"
  shows "std_on (snd (snd (load_configuration OS p c l)))"
proof -
  obtain ok c' l' where open_result:
    "config_open (config_file p) (file_contents OS (c_str (config_file p))) c l = (ok, c', l')"
    by (metis prod_cases3)
  with config_open_log [OF open_result] assms have "std_on l'" by (simp add: std_on_def)
  with open_result show ?thesis
    by (simp add: load_configuration_def Let_def case_prod_beta std_on_sinks)
qed

lemma with_log_simps [simp]:
  "ipvs_log (ipvs (with_log l s)) = l" "ipvs_lib (ipvs (with_log l s)) = ipvs_lib (ipvs s)"
  "config (with_log l s) = config s" "ipvs_mutex (with_log l s) = ipvs_mutex s"
  "m_initialized (ipvs (with_log l s)) = m_initialized (ipvs s)"
  by (simp_all add: with_log_def)

text \<open>C39. Whatever the arguments and the configuration file say, standard output stays a log sink:
  neither the sink none nor a choice of syslog alone switches it off, because sinks are only ever
  added to the one that is on at the start.\<close>

theorem std_sink_stays_on:
  "active_log_sinks (ipvs_log (ipvs (snd (startup OS prog args s)))) AND LOG_SINK_STD = LOG_SINK_STD"
proof -
  let ?l = "(ipvs_log (ipvs s))\<lparr>logging_level := LOG_LEVEL_ERROR, active_log_sinks := LOG_SINK_STD\<rparr>"
  obtain p l where args_result: "parse_args prog args default_options ?l = (p, l)" by fastforce
  have "std_on ?l" by (simp add: std_on_def)
  from parse_args_std [OF this, of prog args default_options] args_result have l: "std_on l" by simp
  have "std_on (ipvs_log (ipvs (snd (startup OS prog args s))))"
    using l load_configuration_std [OF l]
    by (simp add: startup_def args_result Let_def case_prod_beta split: option.split)
  then show ?thesis by (simp add: std_on_def)
qed

section \<open>The log level after the start\<close>

lemma parse_log_level_name: "parse_log_level v l = (True, l') \<Longrightarrow> level_name (logging_level l') = v"
  by (auto simp: parse_log_level_def split: if_splits)

lemma parse_log_sink_level: "logging_level (snd (parse_log_sink k l)) = logging_level l"
  by (simp add: parse_log_sink_def Let_def)

lemma parse_log_sinks_level: "logging_level (snd (parse_log_sinks ks l)) = logging_level l"
  by (induction ks arbitrary: l) (simp_all add: Let_def case_prod_beta parse_log_sink_level)

lemma load_configuration_level:
  assumes "load_configuration OS p c l = (True, c', l')"
  shows "if \<not> log_level_set p \<and> m_log_verbosity c' \<noteq> [] then level_name (logging_level l') = m_log_verbosity c'
         else logging_level l' = logging_level l"
proof -
  obtain ok c1 l1 where o: "config_open (config_file p) (file_contents OS (c_str (config_file p))) c l = (ok, c1, l1)"
    by (metis prod_cases3)
  define r where "r = (if \<not> log_level_set p \<and> m_log_verbosity c1 \<noteq> []
      then parse_log_level (m_log_verbosity c1) l1 else (True, l1))"
  obtain ok2 l2 where r: "r = (ok2, l2)" by fastforce
  have run: "ok" "ok2" "c' = c1" "logging_level l' = logging_level l2"
    using assms parse_log_sinks_level [of "split_sinks (m_log_sinks c1)" l2]
    unfolding load_configuration_def o Let_def prod.case r_def [symmetric] r
    by (auto split: if_splits prod.splits)
  then show ?thesis
    using parse_log_level_name [of "m_log_verbosity c1" l1 l2] r config_open_log [OF o]
    by (auto simp: r_def split: if_splits)
qed

lemma last_some_given:
  "last_some f xs d = (if list_ex (\<lambda>x. f x \<noteq> None) xs then last_some f xs e else d)"
  by (induction xs rule: rev_induct) (auto simp: last_some_def split: option.splits)

text \<open>C36. After a successful start the log level is the last one the command line gives; without one it
  is the level the configuration file names, in lower case, if a file was read and names one; else
  it is ERROR. So a level in another case in the file makes the start fail, though it is accepted on
  the command line.\<close>

theorem startup_level:
  assumes "list_all valid_item xs"
    and "startup OS prog (concat (map render xs)) s = (Some p, s')"
  shows "if list_ex (\<lambda>x. level_of x \<noteq> None) xs
      then logging_level (ipvs_log (ipvs s')) = last_some level_of xs LOG_LEVEL_NONE
      else if (config_is_set p \<or> file_exists OS (config_file p)) \<and> m_log_verbosity (config s') \<noteq> []
      then level_name (logging_level (ipvs_log (ipvs s'))) = m_log_verbosity (config s')
      else logging_level (ipvs_log (ipvs s')) = LOG_LEVEL_ERROR"
proof -
  let ?l0 = "(ipvs_log (ipvs s))\<lparr>logging_level := LOG_LEVEL_ERROR, active_log_sinks := LOG_SINK_STD\<rparr>"
  let ?p = "fold apply_item xs default_options" and ?l = "fold apply_log xs ?l0"
  have level: "logging_level ?l = (if list_ex (\<lambda>x. level_of x \<noteq> None) xs
      then last_some level_of xs LOG_LEVEL_NONE else LOG_LEVEL_ERROR)"
    using last_some_given [of level_of xs LOG_LEVEL_ERROR LOG_LEVEL_NONE] by (simp add: fold_apply_log)
  have set_iff: "log_level_set ?p \<longleftrightarrow> list_ex (\<lambda>x. level_of x \<noteq> None) xs"
    by (simp add: fold_apply_item default_options_def)
  show ?thesis
  proof (cases "config_is_set ?p \<or> file_exists OS (config_file ?p)")
    case False
    with assms(2) have "p = ?p" "s' = with_log ?l s"
      by (simp_all add: startup_def parse_args_items [OF assms(1)])
    with level False show ?thesis by simp
  next
    case True
    obtain ok c l' where load: "load_configuration OS ?p (config s) ?l = (ok, c, l')" by (metis prod_cases3)
    with True assms(2) have "ok" "p = ?p" "s' = with_log l' (s\<lparr>config := c\<rparr>)"
      by (auto simp: startup_def parse_args_items [OF assms(1)] split: if_splits)
    with load_configuration_level [of OS ?p "config s" ?l c l'] load level set_iff True show ?thesis
      by (auto split: if_splits)
  qed
qed

text \<open>A system to try the program on: a configuration file, and everything else works.\<close>

definition sample_os :: os where
  "sample_os = \<lparr>stat_ok = (\<lambda>f. f = ''/etc/sysconfig/ipvshttpd.conf''),
     file_contents = (\<lambda>f. Some ''log_verbosity: info\<newline>port: 9''), fork_result = 0, getpid = 7,
     can_write = (\<lambda>f. True), can_remove = (\<lambda>f. True)\<rparr>"

definition sample_netlib :: "kernel netlib" where
  "sample_netlib = \<lparr>load_ssl = (\<lambda>c k d. True), server_run = (\<lambda>p s. (Run_Returned True, s))\<rparr>"

abbreviation (input) sample_start :: "string list \<Rightarrow> options option \<times> kernel server" where
  "sample_start args \<equiv> startup sample_os ''ipvshttpd'' args (program_start [])"

lemma startup_level_witness:
  "level_name (logging_level (ipvs_log (ipvs (snd (sample_start [''-f'']))))) = ''info''"
proof -
  have ok: "map_option config_is_set (fst (sample_start [''-f''])) = Some False" by code_simp
  then obtain p where p: "fst (sample_start [''-f'']) = Some p" by auto
  have name: "map_option config_file (fst (sample_start [''-f''])) = Some ''/etc/sysconfig/ipvshttpd.conf''" by code_simp
  have conf: "m_log_verbosity (config (snd (sample_start [''-f'']))) = ''info''" by code_simp
  have items: "list_all valid_item [Foreground]" by simp
  have "sample_start (concat (map render [Foreground])) = (Some p, snd (sample_start [''-f'']))"
    using p by (simp add: prod_eq_iff)
  from startup_level [OF items this] p name conf show ?thesis
    by (simp add: file_exists_def sample_os_def c_str_def)
qed

section \<open>The exit code and the pid file\<close>

lemma announce_simps [simp]:
  "config (announce s) = config s" "ipvs_mutex (announce s) = ipvs_mutex s"
  "m_initialized (ipvs (announce s)) = m_initialized (ipvs s)"
  "ipvs_lib (ipvs (announce s)) = ipvs_lib (ipvs s)"
  by (simp_all add: announce_def)

text \<open>The process that serves: in the foreground, or the child of the fork.\<close>

definition serves :: "os \<Rightarrow> options \<Rightarrow> bool" where
  "serves OS p \<longleftrightarrow> daemonize p \<longrightarrow> fork_result OS = 0"

lemma main_program_serves:
  "startup OS prog args s = (Some p, s1) \<Longrightarrow> serves OS p \<Longrightarrow>
   main_program OS N L run prog args s = serve OS N L run p (server_of (config s1)) (announce s1)"
  by (auto simp: main_program_def serves_def Let_def)

lemma leave_result: "fst (leave L code h s fs) = Exit code \<and> snd (snd (leave L code h s fs)) = fs"
  by (simp add: leave_def case_prod_beta)

lemma serve_trace:
  assumes "serve OS N L run p h s = (e, t, acts)"
  shows "if pid_file p \<noteq> [] \<and> \<not> can_write OS (c_str (pid_file p)) then e = Exit 1 \<and> acts = []
    else \<exists>rest. acts = (if pid_file p \<noteq> [] then [Wrote (pid_file p) (dec_of_int (getpid OS) @ [LF])] else []) @ Started # rest
      \<and> (case e of
           Exit code \<Rightarrow> code = (if pid_file p \<noteq> [] \<and> \<not> can_remove OS (c_str (pid_file p)) then 1 else 0)
             \<and> rest = Stopped # (if pid_file p \<noteq> [] \<and> can_remove OS (c_str (pid_file p)) then [Removed (pid_file p)] else [])
         | _ \<Rightarrow> rest = [])"
proof (cases "pid_file p \<noteq> [] \<and> \<not> can_write OS (c_str (pid_file p))")
  case True
  with assms show ?thesis by (simp add: serve_def leave_def case_prod_beta)
next
  case False
  obtain r h2 s2 where "server_start L run N h s = (r, h2, s2)" by (metis prod_cases3)
  with assms False show ?thesis
    by (cases r) (auto simp: serve_def leave_def Let_def case_prod_beta)
qed

text \<open>C38. When the kernel interface cannot be initialised (and its mutex is free, as it is when the program
  starts) the server never runs, and the program still exits with the code of a normal run, because the result of the start is not looked at: 0, or, with
  -p, 1 when the pid file cannot be written or removed, whether the initialisation works or not.\<close>

theorem failed_start_exits_zero:
  assumes "startup OS prog args s = (Some p, s1)" and "serves OS p"
    and "\<not> ipvs_mutex s1" and "\<not> fst (init L run (ipvs (announce s1)))"
  shows "fst (main_program OS N L run prog args s) =
      Exit (if pid_file p = [] \<or> can_write OS (c_str (pid_file p)) \<and> can_remove OS (c_str (pid_file p)) then 0 else 1)
    \<and> (\<forall>N'. main_program OS N' L run prog args s = main_program OS N L run prog args s)"
proof -
  let ?h = "server_of (config s1)"
  have start: "\<exists>s2. \<forall>N. server_start L run N ?h (announce s1) = (Start_Returned False, ?h, s2)"
  proof -
    have init_locked: "init L run (ipvs ((announce s1)\<lparr>ipvs_mutex := True\<rparr>)) = init L run (ipvs (announce s1))" by simp
    obtain i where i: "init L run (ipvs (announce s1)) = (False, i)"
      using assms(4) by (cases "init L run (ipvs (announce s1))") auto
    show ?thesis using assms(3) i by (auto simp: server_start_def Let_def)
  qed
  then obtain s2 where s2: "\<And>N. server_start L run N ?h (announce s1) = (Start_Returned False, ?h, s2)" by blast
  have "main_program OS M L run prog args s = main_program OS N L run prog args s" for M
    using s2 by (simp add: main_program_serves [OF assms(1,2)] serve_def Let_def)
  moreover have "\<exists>c. fst (main_program OS N L run prog args s) = Exit c"
    using s2 [of N] by (simp add: main_program_serves [OF assms(1,2)] serve_def Let_def case_prod_beta leave_result)
  ultimately show ?thesis
    using serve_trace [of OS N L run p ?h "announce s1"] main_program_serves [OF assms(1,2), of N L run]
    by (cases "serve OS N L run p ?h (announce s1)") (auto split: if_splits)
qed

text \<open>C37. The life of the pid file in the process that serves. If the file cannot be written the program
  exits with 1 and never starts the server. Else the file is written, with the process number on a
  line, before the server starts; it is removed only after the server has returned and been stopped,
  if it can be removed, and the code is 0, else it stays and the code is 1; and when the server
  hangs or an exception ends the program the file stays.\<close>

theorem pid_file_lifecycle:
  assumes "startup OS prog args s = (Some p, s1)" and "serves OS p" and "pid_file p \<noteq> []"
    and "main_program OS N L run prog args s = (e, t, acts)"
  shows "if \<not> can_write OS (c_str (pid_file p)) then e = Exit 1 \<and> acts = []
    else \<exists>rest. acts = Wrote (pid_file p) (dec_of_int (getpid OS) @ [LF]) # Started # rest
      \<and> (case e of
           Exit code \<Rightarrow>
             if can_remove OS (c_str (pid_file p)) then code = 0 \<and> rest = [Stopped, Removed (pid_file p)]
             else code = 1 \<and> rest = [Stopped]
         | _ \<Rightarrow> rest = [])"
  using serve_trace [OF assms(4) [unfolded main_program_serves [OF assms(1,2)]]] assms(3)
  by (auto split: exit.split if_splits)

lemma sample_startup:
  assumes "map_option pid_file (fst (sample_start args)) = Some f" "map_option daemonize (fst (sample_start args)) = Some False"
  shows "\<exists>p. sample_start args = (Some p, snd (sample_start args)) \<and> serves sample_os p \<and> pid_file p = f"
proof -
  obtain p where "fst (sample_start args) = Some p" using assms(1) by auto
  moreover from this have "sample_start args = (Some p, snd (sample_start args))" by (simp add: prod_eq_iff)
  ultimately show ?thesis using assms by (auto simp: serves_def)
qed

text \<open>A kernel that knows neither the option nor, after modprobe, anything else.\<close>

definition sample_broken :: "(kernel, message, attr) sys" where
  "sample_broken = (sample_sys False)\<lparr>socket_raw := (\<lambda>w. (Inl EPERM, w))\<rparr>"

lemma failed_start_exits_zero_witness:
  "fst (main_program sample_os sample_netlib sample_broken (\<lambda>w. (Inr (Some 1), w)) ''ipvshttpd''
     [''-f'', ''-p'', ''/x''] (program_start [])) = Exit 0"
proof -
  let ?args = "[''-f'', ''-p'', ''/x'']"
  have "map_option pid_file (fst (sample_start ?args)) = Some ''/x''"
    "map_option daemonize (fst (sample_start ?args)) = Some False" by code_simp+
  from sample_startup [OF this] obtain p where p: "sample_start ?args = (Some p, snd (sample_start ?args))"
    "serves sample_os p" by blast
  have "\<not> ipvs_mutex (snd (sample_start ?args))"
    "\<not> fst (init sample_broken (\<lambda>w. (Inr (Some 1), w)) (ipvs (announce (snd (sample_start ?args)))))" by code_simp+
  from failed_start_exits_zero [OF p this] show ?thesis by (simp add: sample_os_def)
qed

lemma pid_file_lifecycle_witness:
  "snd (snd (main_program sample_os sample_netlib (sample_sys False) (\<lambda>w. (Inr (Some 0), w)) ''ipvshttpd''
     [''-f'', ''-p'', ''/x''] (program_start []))) = [Wrote ''/x'' (dec_of_int 7 @ [LF]), Started, Stopped, Removed ''/x'']"
proof -
  let ?m = "main_program sample_os sample_netlib (sample_sys False) (\<lambda>w. (Inr (Some 0), w)) ''ipvshttpd''
     [''-f'', ''-p'', ''/x''] (program_start [])"
  have "map_option pid_file (fst (sample_start [''-f'', ''-p'', ''/x''])) = Some ''/x''"
    "map_option daemonize (fst (sample_start [''-f'', ''-p'', ''/x''])) = Some False" by code_simp+
  from sample_startup [OF this] obtain p where p: "sample_start [''-f'', ''-p'', ''/x''] =
      (Some p, snd (sample_start [''-f'', ''-p'', ''/x'']))" "serves sample_os p" "pid_file p = ''/x''" by blast
  have "fst ?m = Exit 0" by code_simp
  then have "?m = (Exit 0, fst (snd ?m), snd (snd ?m))" by (simp add: prod_eq_iff)
  from pid_file_lifecycle [OF p(1,2) _ this] p(3) show ?thesis
    by (simp add: sample_os_def)
qed

end
