(* ===== verification/HttpSerial.thy ===== *)
theory HttpSerial
  imports HttpProperties
begin

text \<open>
  The interleaved handlers of \<^verbatim>\<open>src/http_server.cpp\<close> against the sequential server: a server
  that handles one request at a time, from start to end, with \<open>handle_post_request\<close>. Whatever
  the thread pool does, the requests that have been answered were answered, and the kernel was
  asked, as the sequential server does when it is given the same bodies in a suitable order;
  and what was answered earlier comes earlier in that order. The order is the one in which
  the handlers leave the program's critical sections for good.
\<close>

section \<open>The sequential server\<close>

fun serve_all ::
  "'j jsoncpp \<Rightarrow> ('w, 'm, 'a) sys \<Rightarrow> resolver \<Rightarrow> string list \<Rightarrow> 'w server
     \<Rightarrow> (outcome \<times> connection) list \<times> 'w server" where
  "serve_all J L R [] s = ([], s)"
| "serve_all J L R (body # bodies) s =
     (let (out, con, s) = handle_post_request J L R body connection_start s;
          (answers, s) = serve_all J L R bodies s
      in ((out, con) # answers, s))"

lemma serve_all_snoc:
  "serve_all J L R (bodies @ [body]) s =
     (let (answers, s) = serve_all J L R bodies s;
          (out, con, s) = handle_post_request J L R body connection_start s
      in (answers @ [(out, con)], s))"
  by (induction bodies arbitrary: s) (simp_all add: Let_def split: prod.split)

text \<open>The handlers that have answered.\<close>

definition answered :: "'j handler list \<Rightarrow> nat set" where
  "answered hs = {i. i < length hs \<and> h_phase (hs ! i) = Finished}"

text \<open>
  An order of the answered handlers explains a configuration when the sequential server, given
  their bodies in that order, returns from each call with the handler's answer and ends with the
  settings and the library of the configuration. The log is left out: its lines interleave.
\<close>

definition explains ::
  "'j jsoncpp \<Rightarrow> ('w, 'm, 'a) sys \<Rightarrow> resolver \<Rightarrow> 'w server \<Rightarrow> nat list \<Rightarrow> 'w server \<times> 'j handler list \<Rightarrow> bool" where
  "explains J L R s0 order c \<longleftrightarrow>
     (let (s, hs) = c; (answers, t) = serve_all J L R (map (\<lambda>i. h_body (hs ! i)) order) s0
      in distinct order \<and> set order = answered hs
         \<and> answers = map (\<lambda>i. (Returned, h_con (hs ! i))) order
         \<and> config t = config s \<and> ipvs_lib (ipvs t) = ipvs_lib (ipvs s))"

section \<open>The log does not matter\<close>

lemma set_weight_same_library:
  assumes "set_weight L R vip server weight i = (ok, i')" and "ipvs_lib j = ipvs_lib i"
  obtains j' where "set_weight L R vip server weight j = (ok, j')" and "ipvs_lib j' = ipvs_lib i'"
proof -
  obtain ok' j' where j: "set_weight L R vip server weight j = (ok', j')" by fastforce
  have "ok' = ok \<and> ipvs_lib j' = ipvs_lib i'"
  proof (cases "weight_target R vip server weight")
    case None
    with set_weight_cases [OF j] set_weight_cases [OF assms(1)] assms(2) show ?thesis by auto
  next
    case (Some sd)
    obtain svc dst where "sd = (svc, dst)" by fastforce
    with Some set_weight_cases [OF j] set_weight_cases [OF assms(1)] assms(2) show ?thesis
      by simp (metis snd_conv)
  qed
  with that j show ?thesis by simp
qed

lemma update_weight_same_library:
  assumes "update_weight J L R vip a b con s = Some (con', s')" and "ipvs_lib (ipvs t) = ipvs_lib (ipvs s)"
  obtains t' where "update_weight J L R vip a b con t = Some (con', t')"
    and "ipvs_lib (ipvs t') = ipvs_lib (ipvs s')"
proof -
  from assms(1) obtain host weight where hw: "json_as_string J a = Some host" "json_as_int J b = Some weight"
    by (auto simp: update_weight_def split: option.splits)
  obtain ok i where i: "set_weight L R (c_str vip) host weight (ipvs s) = (ok, i)" by fastforce
  from set_weight_same_library [OF this assms(2)] obtain j where
    j: "set_weight L R (c_str vip) host weight (ipvs t) = (ok, j)" "ipvs_lib j = ipvs_lib i" .
  from assms(1) hw i j that show ?thesis
    by (cases ok) (auto simp: update_weight_def report_error_def log_with_def)
qed

section \<open>Every step keeps an order\<close>

text \<open>A call that returns, on a server whose mutexes are free.\<close>

lemma call_refused:
  assumes "\<not> configuration_mutex t" and "\<not> ipvs_mutex t"
    and "check_request J body (m_api_key (config t)) = Refused m st"
  shows "\<exists>u. handle_post_request J L R body con t = (Returned, respond st (error_body m) con, u)
    \<and> config u = config t \<and> ipvs_lib (ipvs u) = ipvs_lib (ipvs t) \<and> \<not> configuration_mutex u \<and> \<not> ipvs_mutex u"
  using assms
  by (intro exI [of _ "snd (report_error m st con (settled t))"])
    (simp add: handle_post_request_eq, metis prod.collapse report_error_simps(1))

lemma call_updated:
  assumes "\<not> configuration_mutex t" and "\<not> ipvs_mutex t"
    and "check_request J body (m_api_key (config t)) = Accepted a b"
    and "update_weight J L R (m_vip (config t)) a b con s = Some (con', s')"
    and "ipvs_lib (ipvs t) = ipvs_lib (ipvs s)"
  shows "\<exists>u. handle_post_request J L R body con t = (Returned, con', u)
    \<and> config u = config t \<and> ipvs_lib (ipvs u) = ipvs_lib (ipvs s') \<and> \<not> configuration_mutex u \<and> \<not> ipvs_mutex u"
proof -
  have "ipvs_lib (ipvs ((settled t)\<lparr>ipvs_mutex := True\<rparr>)) = ipvs_lib (ipvs s)" using assms(5) by simp
  from update_weight_same_library [OF assms(4) this] obtain u where
    u: "update_weight J L R (m_vip (config t)) a b con ((settled t)\<lparr>ipvs_mutex := True\<rparr>) = Some (con', u)"
    "ipvs_lib (ipvs u) = ipvs_lib (ipvs s')" .
  from update_weight_frame [OF u(1)] u assms(1-3) show ?thesis
    by (intro exI [of _ "u\<lparr>ipvs_mutex := False\<rparr>"]) (simp add: handle_post_request_eq)
qed

text \<open>
  The invariant: an order that explains the configuration and leaves the sequential server free,
  and handlers that have not answered have written nothing.
\<close>

definition serial ::
  "'j jsoncpp \<Rightarrow> ('w, 'm, 'a) sys \<Rightarrow> resolver \<Rightarrow> 'w server \<Rightarrow> nat list \<Rightarrow> 'w server \<times> 'j handler list \<Rightarrow> bool" where
  "serial J L R s0 order c \<longleftrightarrow>
     explains J L R s0 order c
     \<and> \<not> configuration_mutex (snd (serve_all J L R (map (\<lambda>i. h_body (snd c ! i)) order) s0))
     \<and> \<not> ipvs_mutex (snd (serve_all J L R (map (\<lambda>i. h_body (snd c ! i)) order) s0))
     \<and> conf_ok J (config s0) c
     \<and> (\<forall>h \<in> set (snd c). h_phase h \<noteq> Finished \<longrightarrow> h_con h = connection_start)"

lemma serial_start: "\<not> configuration_mutex s0 \<Longrightarrow> \<not> ipvs_mutex s0 \<Longrightarrow> serial J L R s0 [] (s0, [])"
  by (simp add: serial_def explains_def answered_def conf_ok_start)

text \<open>A change that answers nothing and leaves the library alone keeps the order.\<close>

lemma explains_order: "explains J L R s0 order (s, hs) \<Longrightarrow> set order = answered hs"
  by (auto simp: explains_def Let_def split: prod.splits)

lemma explains_maps:
  assumes "explains J L R s0 order (s, hs)" and "\<And>i. i \<in> answered hs \<Longrightarrow> hs' ! i = hs ! i"
  shows "map (\<lambda>i. f (hs' ! i)) order = map (\<lambda>i. f (hs ! i)) order"
  using explains_order [OF assms(1)] assms(2) by simp

lemma explains_keep:
  assumes ex: "explains J L R s0 order (s, hs)"
    and "config s' = config s" and "ipvs_lib (ipvs s') = ipvs_lib (ipvs s)"
    and "answered hs' = answered hs" and same: "\<And>i. i \<in> answered hs \<Longrightarrow> hs' ! i = hs ! i"
  shows "explains J L R s0 order (s', hs')"
  using ex assms(2-4) unfolding explains_def
  by (simp add: explains_maps [OF ex same, of h_body] explains_maps [OF ex same, of "\<lambda>h. (Returned, h_con h)"]
      del: map_eq_conv)

lemma serial_keep:
  assumes "serial J L R s0 order (s, hs)"
    and "config s' = config s" and "ipvs_lib (ipvs s') = ipvs_lib (ipvs s)"
    and "answered hs' = answered hs" and "\<And>i. i \<in> answered hs \<Longrightarrow> hs' ! i = hs ! i"
    and "conf_ok J (config s0) (s', hs')" and "\<forall>h \<in> set hs'. h_phase h \<noteq> Finished \<longrightarrow> h_con h = connection_start"
  shows "serial J L R s0 order (s', hs')"
proof -
  from assms(1) have ex: "explains J L R s0 order (s, hs)" by (simp add: serial_def)
  have "serial J L R s0 order (s, hs)" by (rule assms(1))
  then show ?thesis
    using explains_keep [OF ex assms(2-5)] assms(6,7)
    by (simp add: serial_def explains_maps [OF ex assms(5), of h_body] del: map_eq_conv)
qed

text \<open>A handler that answers as the sequential server would next goes to the end of the order.\<close>

lemma serial_answer:
  assumes ser: "serial J L R s0 order (s, hs)" and i: "i < length hs" "h_phase (hs ! i) \<noteq> Finished"
    and h': "h_phase h' = Finished" "h_body h' = h_body (hs ! i)"
    and ok: "conf_ok J (config s0) (s', hs[i := h'])" and cfg: "config s' = config s"
    and call: "\<And>t. \<not> configuration_mutex t \<Longrightarrow> \<not> ipvs_mutex t \<Longrightarrow> config t = config s \<Longrightarrow>
      ipvs_lib (ipvs t) = ipvs_lib (ipvs s) \<Longrightarrow>
      \<exists>u. handle_post_request J L R (h_body h') connection_start t = (Returned, h_con h', u)
        \<and> config u = config t \<and> ipvs_lib (ipvs u) = ipvs_lib (ipvs s') \<and> \<not> configuration_mutex u \<and> \<not> ipvs_mutex u"
  shows "serial J L R s0 (order @ [i]) (s', hs[i := h'])"
proof -
  let ?hs = "hs[i := h']" and ?bodies = "map (\<lambda>i. h_body (hs ! i)) order"
  obtain answers t where t: "serve_all J L R ?bodies s0 = (answers, t)" by fastforce
  from ser t have ord: "distinct order" "set order = answered hs"
    and t': "answers = map (\<lambda>i. (Returned, h_con (hs ! i))) order" "config t = config s"
      "ipvs_lib (ipvs t) = ipvs_lib (ipvs s)" "\<not> configuration_mutex t" "\<not> ipvs_mutex t"
    and start: "\<forall>h \<in> set hs. h_phase h \<noteq> Finished \<longrightarrow> h_con h = connection_start"
    by (simp_all add: serial_def explains_def)
  from call [OF t'(4,5,2,3)] obtain u where
    u: "handle_post_request J L R (h_body h') connection_start t = (Returned, h_con h', u)"
    "config u = config t" "ipvs_lib (ipvs u) = ipvs_lib (ipvs s')" "\<not> configuration_mutex u" "\<not> ipvs_mutex u"
    by blast
  have fresh: "i \<notin> set order" using ord(2) i(2) by (simp add: answered_def)
  then have same: "map (\<lambda>k. f (?hs ! k)) order = map (\<lambda>k. f (hs ! k)) order" for f :: "'a handler \<Rightarrow> 'x"
    by (intro map_cong refl) (metis nth_list_update_neq)
  have "serve_all J L R (map (\<lambda>k. h_body (?hs ! k)) (order @ [i])) s0 =
      (map (\<lambda>k. (Returned, h_con (?hs ! k))) (order @ [i]), u)"
    using t t'(1) u(1) i(1) same [of h_body] same [of "\<lambda>h. (Returned, h_con h)"]
    by (simp add: serve_all_snoc del: map_eq_conv)
  moreover have "answered ?hs = insert i (answered hs)"
    using i(1) h'(1) by (auto simp: answered_def nth_list_update split: if_splits)
  moreover have "\<forall>h \<in> set ?hs. h_phase h \<noteq> Finished \<longrightarrow> h_con h = connection_start"
    using start h'(1) by (auto dest!: set_update_subset_insert [THEN subsetD])
  ultimately show ?thesis
    using ord fresh ok cfg u t'(2) by (simp add: serial_def explains_def del: map_append)
qed

lemma serial_update:
  assumes ser: "serial J L R s0 order (s, hs)" and i: "i < length hs" "h_phase (hs ! i) \<noteq> Finished"
    and "h_phase h' \<noteq> Finished" "h_con h' = h_con (hs ! i)" "conf_ok J (config s0) (s', hs[i := h'])"
    and "config s' = config s" "ipvs_lib (ipvs s') = ipvs_lib (ipvs s)"
  shows "serial J L R s0 order (s', hs[i := h'])"
proof (rule serial_keep [OF ser assms(7,8) _ _ assms(6)])
  show "answered (hs[i := h']) = answered hs"
    using i assms(4) by (auto simp: answered_def nth_list_update split: if_splits)
  show "hs[i := h'] ! k = hs ! k" if "k \<in> answered hs" for k
    using that i by (auto simp: answered_def nth_list_update)
  have "h_con h' = connection_start" using ser i assms(5) by (simp add: serial_def)
  then show "\<forall>h \<in> set (hs[i := h']). h_phase h \<noteq> Finished \<longrightarrow> h_con h = connection_start"
    using ser by (auto simp: serial_def dest!: set_update_subset_insert [THEN subsetD])
qed

lemma serial_work:
  fixes J :: "'j jsoncpp" and s s0 :: "'w server"
  assumes ser: "serial J L R s0 order (s, hs)" and i: "i < length hs" and adv: "advance J L R (s, hs ! i) = Some (s', h')"
  shows "serial J L R s0 order (s', hs[i := h']) \<or> serial J L R s0 (order @ [i]) (s', hs[i := h'])"
proof -
  have cfg: "conf_ok J (config s0) (s, hs)" using ser by (simp add: serial_def)
  then have h: "handler_ok J (config s0) (hs ! i)" "config s = config s0" using i by (simp_all add: conf_ok_def list_all_length)
  have ok: "conf_ok J (config s0) (s', hs[i := h'])"
    by (rule conf_ok_work [OF work_step.work [OF i adv] cfg])
  have busy: "h_phase (hs ! i) \<noteq> Finished" using adv by (auto simp: advance_def)
  then have con: "h_con (hs ! i) = connection_start" using ser i by (simp add: serial_def)
  note keep = serial_update [OF ser i busy _ _ ok]
  from adv show ?thesis
  proof (cases rule: advance_cases)
    case (refused key vip m st)
    with h have check: "check_request J (h_body (hs ! i)) (m_api_key (config s)) = Refused m st" by simp
    have "serial J L R s0 (order @ [i]) (s', hs[i := h'])"
    proof (rule serial_answer [OF ser i busy _ _ ok])
      fix u :: "'w server"
      assume u: "\<not> configuration_mutex u" "\<not> ipvs_mutex u" "config u = config s" "ipvs_lib (ipvs u) = ipvs_lib (ipvs s)"
      from call_refused [OF u(1,2), of J "h_body h'" m st L R connection_start] check u(3,4) refused con
      show "\<exists>v. handle_post_request J L R (h_body h') connection_start u = (Returned, h_con h', v)
          \<and> config v = config u \<and> ipvs_lib (ipvs v) = ipvs_lib (ipvs s') \<and> \<not> configuration_mutex v \<and> \<not> ipvs_mutex v"
        by simp
    qed (use refused in simp_all)
    then show ?thesis ..
  next
    case (updated vip a b con' t)
    with h have acc: "check_request J (h_body (hs ! i)) (m_api_key (config s)) = Accepted a b"
      and vip: "vip = m_vip (config s)" by simp_all
    have "serial J L R s0 (order @ [i]) (s', hs[i := h'])"
    proof (rule serial_answer [OF ser i busy _ _ ok])
      show "config s' = config s" using updated(3) update_weight_frame [OF updated(2)] by simp
      fix u :: "'w server"
      assume u: "\<not> configuration_mutex u" "\<not> ipvs_mutex u" "config u = config s" "ipvs_lib (ipvs u) = ipvs_lib (ipvs s)"
      have "update_weight J L R (m_vip (config u)) a b connection_start s = Some (con', t)"
        using updated(2) vip u(3) con by simp
      from call_updated [OF u(1,2) _ this u(4)] acc u(3) updated
      show "\<exists>v. handle_post_request J L R (h_body h') connection_start u = (Returned, h_con h', v)
          \<and> config v = config u \<and> ipvs_lib (ipvs v) = ipvs_lib (ipvs s') \<and> \<not> configuration_mutex v \<and> \<not> ipvs_mutex v"
        by simp
    qed (use updated in simp_all)
    then show ?thesis ..
  qed (use keep in auto)
qed

lemma serial_step:
  assumes "server_step J L R c c'" and "serial J L R s0 order c"
  shows "\<exists>more. serial J L R s0 (order @ more) c'"
  using assms
proof (induction rule: server_step.induct)
  case (connect s hs headers)
  have cfg: "conf_ok J (config s0) (s, hs @ [new_handler headers])"
    by (rule conf_ok_step [OF server_step.connect]) (use connect in \<open>simp add: serial_def\<close>)
  have "serial J L R s0 order (s, hs @ [new_handler headers])"
  proof (rule serial_keep [OF connect _ _ _ _ cfg])
    show "answered (hs @ [new_handler headers]) = answered hs"
      by (auto simp: answered_def nth_append new_handler_def less_Suc_eq)
    show "\<forall>h \<in> set (hs @ [new_handler headers]). h_phase h \<noteq> Finished \<longrightarrow> h_con h = connection_start"
      using connect by (auto simp: serial_def new_handler_def)
  qed (auto simp: answered_def nth_append)
  then show ?case by (metis append_Nil2)
next
  case (chunk i hs left s error bytes)
  have cfg: "conf_ok J (config s0) (s, hs[i := receive error bytes left (hs ! i)])"
    by (rule conf_ok_step [OF server_step.chunk [OF chunk(1,2)]]) (use chunk(3) in \<open>simp add: serial_def\<close>)
  have "serial J L R s0 order (s, hs[i := receive error bytes left (hs ! i)])"
    by (rule serial_update [OF chunk(3,1) _ _ _ cfg])
      (use chunk(2) in \<open>auto simp: receive_def split: prod.split read_next.split\<close>)
  then show ?case by (metis append_Nil2)
next
  case (working c c')
  then obtain i s hs s' h' where "c = (s, hs)" "c' = (s', hs[i := h'])"
    "i < length hs" "advance J L R (s, hs ! i) = Some (s', h')"
    by (auto elim: work_step.cases)
  with serial_work [of J L R s0 order s hs i s' h'] working(2) show ?case by (metis append_Nil2)
qed

lemma serial_steps:
  assumes "(server_step J L R)\<^sup>*\<^sup>* c c'" and "serial J L R s0 order c"
  shows "\<exists>more. serial J L R s0 (order @ more) c'"
  using assms
proof (induction rule: rtranclp_induct)
  case base
  then show ?case by (metis append_Nil2)
next
  case (step d e)
  then obtain more where "serial J L R s0 (order @ more) d" by blast
  from serial_step [OF step.hyps(2) this] show ?case by (metis append_assoc)
qed

section \<open>The server is serialisable\<close>

text \<open>C2. Whatever the interleaving of the connections is, there is an order of the requests answered so
  far in which the sequential server gives each of them the answer it got, returns every time,
  and leaves the settings and the library, with all it asked the kernel, as the interleaved
  server has them; whatever happens later, the requests answered later come after them.\<close>

theorem server_serialisable:
  assumes "(server_step J L R)\<^sup>*\<^sup>* (s0, []) (s, hs)" and "(server_step J L R)\<^sup>*\<^sup>* (s, hs) (t, hs')"
    and "\<not> configuration_mutex s0" and "\<not> ipvs_mutex s0"
  shows "\<exists>order later. explains J L R s0 order (s, hs) \<and> explains J L R s0 (order @ later) (t, hs')"
proof -
  from serial_steps [OF assms(1) serial_start [OF assms(3,4)]] obtain order where
    first: "serial J L R s0 order (s, hs)" by auto
  from serial_steps [OF assms(2) first] obtain later where "serial J L R s0 (order @ later) (t, hs')" by blast
  with first show ?thesis unfolding serial_def by blast
qed

section \<open>What the kernel was asked, request by request\<close>

text \<open>
  What a request with its answer may have asked the kernel. A refused one nothing; an accepted one
  to change the destination its arguments name, once when the answer is ok, at most once when it is
  the internal error.
\<close>

definition asks ::
  "'j jsoncpp \<Rightarrow> ('w, 'm, 'a) sys \<Rightarrow> resolver \<Rightarrow> configuration \<Rightarrow> string \<Rightarrow> connection \<Rightarrow> request list \<Rightarrow> bool" where
  "asks J L R cfg body con rs \<longleftrightarrow>
     (case check_request J body (m_api_key cfg) of
        Refused m st \<Rightarrow> rs = [] \<and> con_status con = Some st
      | Raised \<Rightarrow> False
      | Accepted a b \<Rightarrow>
          (case (json_as_string J a, json_as_int J b) of
             (Some host, Some weight) \<Rightarrow>
               (case weight_target R (c_str (m_vip cfg)) host weight of
                  None \<Rightarrow> rs = [] \<and> con_status con = Some internal_server_error
                | Some (svc, dst) \<Rightarrow>
                    con_status con = Some status_ok \<and> (\<exists>s. rs = [request_of L (UpdateDest svc dst) s])
                    \<or> con_status con = Some internal_server_error
                      \<and> (rs = [] \<or> (\<exists>s. rs = [request_of L (UpdateDest svc dst) s])))
           | _ \<Rightarrow> False))"

lemma update_weight_asks:
  assumes "update_weight J L R (m_vip cfg) a b con s = Some (con', s')"
    and "check_request J body (m_api_key cfg) = Accepted a b"
  shows "\<exists>rs. requests s' = requests s @ rs \<and> asks J L R cfg body con' rs"
proof -
  from assms(1) obtain host weight where hw: "json_as_string J a = Some host" "json_as_int J b = Some weight"
    by (auto simp: update_weight_def split: option.splits)
  obtain ok i where i: "set_weight L R (c_str (m_vip cfg)) host weight (ipvs s) = (ok, i)" by fastforce
  have con': "con_status con' = Some (if ok then status_ok else internal_server_error)"
    and s': "requests s' = sent (ipvs_lib i)"
    using assms(1) hw i by (cases ok; auto simp: update_weight_def report_error_def respond_def log_with_def)+
  show ?thesis
  proof (cases "weight_target R (c_str (m_vip cfg)) host weight")
    case None
    with set_weight_cases [OF i] have "\<not> ok" "sent (ipvs_lib i) = requests s" by auto
    with None con' s' hw assms(2) show ?thesis by (intro exI [of _ "[]"]) (simp add: asks_def)
  next
    case (Some sd)
    obtain svc dst where sd: "sd = (svc, dst)" by fastforce
    let ?r = "request_of L (UpdateDest svc dst) (ipvs_lib (ipvs s))"
    from set_weight_update [OF i Some [unfolded sd]] have
      "sent (ipvs_lib i) = requests s @ [?r] \<or> \<not> ok \<and> sent (ipvs_lib i) = requests s" by blast
    then show ?thesis
    proof
      assume "sent (ipvs_lib i) = requests s @ [?r]"
      with Some sd con' s' hw assms(2) show ?thesis by (intro exI [of _ "[?r]"]) (auto simp: asks_def)
    next
      assume "\<not> ok \<and> sent (ipvs_lib i) = requests s"
      with Some sd con' s' hw assms(2) show ?thesis by (intro exI [of _ "[]"]) (simp add: asks_def)
    qed
  qed
qed

lemma call_asks:
  assumes "handle_post_request J L R body con s = (Returned, con', s')"
    and "\<not> configuration_mutex s" and "\<not> ipvs_mutex s"
  shows "\<exists>rs. requests s' = requests s @ rs \<and> asks J L R (config s) body con' rs"
proof (cases "check_request J body (m_api_key (config s))")
  case (Refused m st)
  with assms have "con' = respond st (error_body m) con" "requests s' = requests s"
    using report_error_simps [of m st con "settled s"] by (auto simp: handle_post_request_eq prod_eq_iff)
  with Refused show ?thesis by (intro exI [of _ "[]"]) (simp add: asks_def respond_def)
next
  case Raised
  with assms show ?thesis by (simp add: handle_post_request_eq)
next
  case (Accepted a b)
  let ?s = "(settled s)\<lparr>ipvs_mutex := True\<rparr>"
  from assms Accepted obtain t where "update_weight J L R (m_vip (config s)) a b con ?s = Some (con', t)"
    and "s' = t\<lparr>ipvs_mutex := False\<rparr>"
    by (auto simp: handle_post_request_eq split: option.splits)
  with update_weight_asks [OF this(1) Accepted] show ?thesis by simp
qed

lemma serve_all_asks:
  assumes "serve_all J L R bodies s = (map (Pair Returned) cons, t)"
    and "\<not> configuration_mutex s" and "\<not> ipvs_mutex s"
  shows "length cons = length bodies \<and> (\<exists>rs. requests t = requests s @ concat rs \<and> length rs = length bodies
    \<and> (\<forall>k < length bodies. asks J L R (config s) (bodies ! k) (cons ! k) (rs ! k)))"
  using assms
proof (induction bodies arbitrary: s cons)
  case Nil
  then show ?case by simp
next
  case (Cons body bodies)
  obtain out con s1 where call: "handle_post_request J L R body connection_start s = (out, con, s1)" by (metis prod_cases3)
  obtain answers u where rest: "serve_all J L R bodies s1 = (answers, u)" by fastforce
  from Cons.prems(1) call rest obtain cons' where cons: "cons = con # cons'" "out = Returned"
    "answers = map (Pair Returned) cons'" "u = t"
    by (cases cons) auto
  note call = call [unfolded cons(2)]
  from post_request_contract [OF call Cons.prems(2,3)] have free: "\<not> configuration_mutex s1" "\<not> ipvs_mutex s1"
    "config s1 = config s" by simp_all
  from call_asks [OF call Cons.prems(2,3)] obtain r where
    r: "requests s1 = requests s @ r" "asks J L R (config s) body con r" by blast
  from Cons.IH [OF rest [unfolded cons(3,4)] free(1,2)] free(3) obtain rs where
    rs: "length cons' = length bodies" "requests t = requests s1 @ concat rs" "length rs = length bodies"
    "\<forall>k < length bodies. asks J L R (config s) (bodies ! k) (cons' ! k) (rs ! k)" by auto
  with r cons(1) show ?case
    by (auto simp: nth_Cons less_Suc_eq_0_disj intro!: exI [of _ "r # rs"])
qed

text \<open>C3. Whatever the interleaving is, everything the kernel was asked since the start is what the answered
  requests asked, one after another in an order of the answers: nothing for a refused request, the
  change of the destination its arguments name for one answered ok, and at most that for one
  answered with the internal error.\<close>

theorem requests_accounted:
  assumes "(server_step J L R)\<^sup>*\<^sup>* (s0, []) (s, hs)" and "\<not> configuration_mutex s0" and "\<not> ipvs_mutex s0"
  shows "\<exists>order rs. distinct order \<and> set order = answered hs \<and> length rs = length order
    \<and> requests s = requests s0 @ concat rs
    \<and> (\<forall>k < length order. asks J L R (config s0) (h_body (hs ! (order ! k))) (h_con (hs ! (order ! k))) (rs ! k))"
proof -
  from serial_steps [OF assms(1) serial_start [OF assms(2,3)]] obtain order where
    "serial J L R s0 order (s, hs)" by auto
  then have ex: "explains J L R s0 order (s, hs)" by (simp add: serial_def)
  obtain answers t where t: "serve_all J L R (map (\<lambda>i. h_body (hs ! i)) order) s0 = (answers, t)" by fastforce
  with ex have ord: "distinct order" "set order = answered hs"
    "answers = map (Pair Returned) (map (\<lambda>i. h_con (hs ! i)) order)" "requests t = requests s"
    by (simp_all add: explains_def)
  from serve_all_asks [OF t [unfolded ord(3)] assms(2,3)] obtain rs where
    "requests t = requests s0 @ concat rs" "length rs = length order"
    "\<forall>k < length order. asks J L R (config s0) (h_body (hs ! (order ! k))) (h_con (hs ! (order ! k))) (rs ! k)"
    by auto
  with ord show ?thesis by (intro exI [of _ order] exI [of _ rs]) simp
qed

text \<open>The second of two requests is refused while the first one is at work: it comes first in the order.\<close>

abbreviation (input) finished :: "'j handler list \<Rightarrow> bool list" where
  "finished hs \<equiv> map (\<lambda>h. h_phase h = Finished) hs"

lemma answered_finished: "answered hs = {i. i < length (finished hs) \<and> finished hs ! i}"
  by (auto simp: answered_def)

lemma two_below: "{i. i < Suc (Suc 0) \<and> [a, b] ! i} = (if a then {0} else {}) \<union> (if b then {1} else {})"
  by (auto simp: less_Suc_eq nth_Cons')

lemma server_serialisable_witness:
  "\<exists>s hs t hs'. sample_steps (sample_server, []) (s, hs) \<and> sample_steps (s, hs) (t, hs')
     \<and> explains (sample_json sample_texts) (sample_sys False) sample_resolver sample_server [1] (s, hs)
     \<and> explains (sample_json sample_texts) (sample_sys False) sample_resolver sample_server [1, 0] (t, hs')"
proof -
  let ?ex = "explains (sample_json sample_texts) (sample_sys False) sample_resolver sample_server"
  have run: "map_option (\<lambda>(s, hs). (finished hs, map_option (\<lambda>(t, hs'). finished hs') (sample_work [0, 0] (s, hs))))
      (sample_work [0, 0, 0, 1, 1, 1] (sample_server, [posted ''good'', posted ''thief'']))
      = Some ([False, True], Some [True, True])"
    by code_simp
  from sample_two [OF run] obtain s hs where sh: "sample_steps (sample_server, []) (s, hs)"
    "finished hs = [False, True]" "map_option (\<lambda>(t, hs'). finished hs') (sample_work [0, 0] (s, hs)) = Some [True, True]"
    by auto
  from sh(3) obtain t hs' where th: "sample_work [0, 0] (s, hs) = Some (t, hs')" "finished hs' = [True, True]"
    by (auto simp: map_option_eq_Some)
  have reach: "sample_steps (s, hs) (t, hs')" by (rule works_server_steps [OF run_works_steps [OF th(1)]])
  from server_serialisable [OF sh(1) reach sample_free] obtain order later where
    ord: "?ex order (s, hs)" "?ex (order @ later) (t, hs')" by blast
  have "set order = {1}" "set (order @ later) = {1, 0}"
    using explains_order [OF ord(1)] explains_order [OF ord(2)]
    unfolding answered_finished sh(2) th(2) by (auto simp: two_below)
  moreover have "distinct order" "distinct (order @ later)"
    using ord by (simp_all add: explains_def Let_def split: prod.splits)
  ultimately have "length order = 1" "length (order @ later) = 2"
    by (metis One_nat_def card.empty card_insert_disjoint distinct_card empty_iff finite.emptyI,
        metis card_2_iff distinct_card one_neq_zero)
  then obtain a b where "order = [a]" "later = [b]" by (auto simp: length_Suc_conv eval_nat_numeral)
  with \<open>set order = {1}\<close> \<open>set (order @ later) = {1, 0}\<close> \<open>distinct (order @ later)\<close> have "order = [1]" "later = [0]"
    by auto
  with ord sh(1) reach show ?thesis by auto
qed

text \<open>One request answered ok, one not handled yet: the kernel was asked for the one change.\<close>

lemma requests_accounted_witness:
  "\<exists>s hs svc dst u. sample_steps (sample_server, []) (s, hs) \<and> finished hs = [True, False]
     \<and> weight_target sample_resolver (c_str (m_vip (config sample_server))) ''web1'' 7 = Some (svc, dst)
     \<and> requests s = [request_of (sample_sys False) (UpdateDest svc dst) u]"
proof -
  have run: "map_option (\<lambda>(s, hs). (finished hs, h_body (hs ! 0), con_status (h_con (hs ! 0))))
      (sample_work [0, 0, 0, 0, 0] (sample_server, [posted ''good'', posted ''thief'']))
      = Some ([True, False], ''good'', Some status_ok)"
    by code_simp
  from sample_two [OF run] obtain s hs where sh: "sample_steps (sample_server, []) (s, hs)"
    "finished hs = [True, False]" and h0: "h_body (hs ! 0) = ''good''" "con_status (h_con (hs ! 0)) = Some status_ok"
    by auto
  from requests_accounted [OF sh(1) sample_free] obtain order rs where
    ord: "distinct order" "set order = answered hs" "length rs = length order" "requests s = requests sample_server @ concat rs"
    and asks: "\<And>k. k < length order \<Longrightarrow> asks (sample_json sample_texts) (sample_sys False) sample_resolver
      (config sample_server) (h_body (hs ! (order ! k))) (h_con (hs ! (order ! k))) (rs ! k)" by blast
  have only: "set order = {0}" using ord(2) unfolding answered_finished sh(2) by (simp add: two_below)
  then have "card (set order) = 1" by simp
  then have "length order = 1" unfolding distinct_card [OF ord(1)] .
  then obtain k where "order = [k]" by (auto simp: length_Suc_conv)
  with only have order: "order = [0]" by simp
  with ord(3) obtain r where r: "rs = [r]" by (auto simp: length_Suc_conv)
  have check: "check_request (sample_json sample_texts) ''good'' (m_api_key (config sample_server))
      = Accepted (JString ''web1'') (JInt 7)" by code_simp
  have conv: "json_as_string (sample_json sample_texts) (JString ''web1'') = Some ''web1''"
    "json_as_int (sample_json sample_texts) (JInt 7) = Some 7" by (simp_all add: sample_json_def)
  have none: "requests sample_server = []" by (simp add: sample_server_def sample_interface_def lib_start_def)
  let ?target = "weight_target sample_resolver (c_str (m_vip (config sample_server))) ''web1'' 7"
  have one: "asks (sample_json sample_texts) (sample_sys False) sample_resolver (config sample_server) ''good'' (h_con (hs ! 0)) r"
    using asks [of 0] order r h0(1) by simp
  have "\<exists>svc dst u. ?target = Some (svc, dst) \<and> r = [request_of (sample_sys False) (UpdateDest svc dst) u]"
  proof (cases ?target)
    case None
    with one h0(2) show ?thesis unfolding asks_def check check.case conv prod.case option.case None by simp
  next
    case (Some sd)
    obtain svc dst where sd: "sd = (svc, dst)" by fastforce
    show ?thesis
      using one h0(2) unfolding asks_def check check.case conv prod.case option.case Some sd by auto
  qed
  then obtain svc dst u where target: "?target = Some (svc, dst)"
    and req: "r = [request_of (sample_sys False) (UpdateDest svc dst) u]" by blast
  have "requests s = [request_of (sample_sys False) (UpdateDest svc dst) u]"
    using ord(4) none r req by (simp only: concat.simps append_Nil append_Nil2)
  from sh(1,2) target this show ?thesis by (intro exI conjI)
qed

end
