(* ===== verification/LibTyping.thy ===== *)
theory LibTyping
  imports LibProperties
begin

text \<open>
  The types of what libipvs puts into its requests. The policy tables of
  \<^verbatim>\<open>depend/libipvs/ip_vs_nl_policy.c\<close> declare a type for every attribute, and the commands of
  \<^verbatim>\<open>depend/libipvs/libipvs.c\<close> put attributes into messages one at a time; nothing in the C code
  relates the two. Here a message is split into its entries, an entry is typed by the table
  of its nest, a message by the entries its command takes, and the trace of the library by
  its messages; every call of the library keeps the trace well typed.
\<close>

section \<open>Entries\<close>

text \<open>An entry of a message is an attribute of the top level or a nest with its attributes.\<close>

datatype entry = Plain nl_item | Nest nat "nl_item list"

fun entries :: "(nat \<times> nl_item list) option \<Rightarrow> nl_item list \<Rightarrow> entry list option" where
  "entries None [] = Some []"
| "entries (Some (t, ys)) [] = None"
| "entries None (NestStart t # xs) = entries (Some (t, [])) xs"
| "entries (Some (t, ys)) (NestStart u # xs) = None"
| "entries None (NestEnd # xs) = None"
| "entries (Some (t, ys)) (NestEnd # xs) = map_option ((#) (Nest t ys)) (entries None xs)"
| "entries None (x # xs) = map_option ((#) (Plain x)) (entries None xs)"
| "entries (Some (t, ys)) (x # xs) = entries (Some (t, ys @ [x])) xs"

fun attr_of :: "nl_item \<Rightarrow> nat" where
  "attr_of (NestStart t) = t"
| "attr_of NestEnd = 0"
| "attr_of (PutU8 t x) = t"
| "attr_of (PutU16 t x) = t"
| "attr_of (PutU32 t x) = t"
| "attr_of (PutString t x) = t"
| "attr_of (PutAddr t x) = t"
| "attr_of (PutFlags t x) = t"

fun entry_attr :: "entry \<Rightarrow> nat" where
  "entry_attr (Plain x) = attr_of x"
| "entry_attr (Nest t xs) = t"

section \<open>Types\<close>

text \<open>
  The tables leave out two attributes that the library puts and reads: the name of the
  persistence engine and the address family of a destination. They are typed by the way the
  callbacks read them.
\<close>

definition service_types :: "nat \<Rightarrow> nla_policy" where
  "service_types = ipvs_service_policy(
     IPVS_SVC_ATTR_PE_NAME := (pol NLA_STRING)\<lparr>pol_maxlen := IP_VS_PENAME_MAXLEN\<rparr>)"

definition dest_types :: "nat \<Rightarrow> nla_policy" where
  "dest_types = ipvs_dest_policy(IPVS_DEST_ATTR_ADDR_FAMILY := pol NLA_U16)"

definition nest_types :: "nat \<Rightarrow> (nat \<Rightarrow> nla_policy) option" where
  "nest_types t =
     (if t = IPVS_CMD_ATTR_SERVICE then Some service_types
      else if t = IPVS_CMD_ATTR_DEST then Some dest_types
      else if t = IPVS_CMD_ATTR_DAEMON then Some ipvs_daemon_policy
      else None)"

text \<open>
  A number has exactly the declared width, a string with its NUL fits the declared length, an
  address or a flags structure has the declared size.
\<close>

fun item_fits :: "(nat \<Rightarrow> nla_policy) \<Rightarrow> nl_item \<Rightarrow> bool" where
  "item_fits p (PutU8 t x) = (p t = pol NLA_U8)"
| "item_fits p (PutU16 t x) = (p t = pol NLA_U16)"
| "item_fits p (PutU32 t x) = (p t = pol NLA_U32)"
| "item_fits p (PutString t x) = (pol_type (p t) = NLA_STRING \<and> Suc (length x) \<le> pol_maxlen (p t))"
| "item_fits p (PutAddr t x) = (p t = (pol NLA_UNSPEC)\<lparr>pol_maxlen := sizeof_in6_addr\<rparr>)"
| "item_fits p (PutFlags t x) =
     (p t = (pol NLA_UNSPEC)\<lparr>pol_minlen := sizeof_ip_vs_flags, pol_maxlen := sizeof_ip_vs_flags\<rparr>)"
| "item_fits p (NestStart t) = False"
| "item_fits p NestEnd = False"

text \<open>The attributes a nest has to have: those without which the callbacks refuse an answer.\<close>

definition required :: "nat \<Rightarrow> nat set \<Rightarrow> bool" where
  "required t K \<longleftrightarrow>
     (if t = IPVS_CMD_ATTR_SERVICE
      then IPVS_SVC_ATTR_AF \<in> K \<and>
        (IPVS_SVC_ATTR_FWMARK \<in> K \<or> {IPVS_SVC_ATTR_PROTOCOL, IPVS_SVC_ATTR_ADDR, IPVS_SVC_ATTR_PORT} \<subseteq> K)
      else if t = IPVS_CMD_ATTR_DEST
      then {IPVS_DEST_ATTR_ADDR, IPVS_DEST_ATTR_PORT, IPVS_DEST_ATTR_FWD_METHOD, IPVS_DEST_ATTR_WEIGHT,
            IPVS_DEST_ATTR_U_THRESH, IPVS_DEST_ATTR_L_THRESH} \<subseteq> K
      else {IPVS_DAEMON_ATTR_STATE, IPVS_DAEMON_ATTR_MCAST_IFN, IPVS_DAEMON_ATTR_SYNC_ID} \<subseteq> K)"

fun entry_typed :: "entry \<Rightarrow> bool" where
  "entry_typed (Plain x) = item_fits ipvs_cmd_policy x"
| "entry_typed (Nest t xs) =
     (case nest_types t of
        None \<Rightarrow> False
      | Some p \<Rightarrow> ipvs_cmd_policy t = pol NLA_NESTED \<and> list_all (item_fits p) xs
          \<and> distinct (map attr_of xs) \<and> required t (set (map attr_of xs)))"

text \<open>The entries a command takes; a dump of the services or the daemons takes none.\<close>

fun takes :: "ipvs_cmd \<Rightarrow> bool \<Rightarrow> nat list list" where
  "takes IPVS_CMD_NEW_SERVICE d = [[IPVS_CMD_ATTR_SERVICE]]"
| "takes IPVS_CMD_SET_SERVICE d = [[IPVS_CMD_ATTR_SERVICE]]"
| "takes IPVS_CMD_DEL_SERVICE d = [[IPVS_CMD_ATTR_SERVICE]]"
| "takes IPVS_CMD_GET_SERVICE d = (if d then [[]] else [[IPVS_CMD_ATTR_SERVICE]])"
| "takes IPVS_CMD_NEW_DEST d = [[IPVS_CMD_ATTR_SERVICE, IPVS_CMD_ATTR_DEST]]"
| "takes IPVS_CMD_SET_DEST d = [[IPVS_CMD_ATTR_SERVICE, IPVS_CMD_ATTR_DEST]]"
| "takes IPVS_CMD_DEL_DEST d = [[IPVS_CMD_ATTR_SERVICE, IPVS_CMD_ATTR_DEST]]"
| "takes IPVS_CMD_GET_DEST d = [[IPVS_CMD_ATTR_SERVICE]]"
| "takes IPVS_CMD_NEW_DAEMON d = [[IPVS_CMD_ATTR_DAEMON]]"
| "takes IPVS_CMD_DEL_DAEMON d = [[IPVS_CMD_ATTR_DAEMON]]"
| "takes IPVS_CMD_GET_DAEMON d = [[]]"
| "takes IPVS_CMD_SET_TIMEOUT d =
     [[IPVS_CMD_ATTR_TIMEOUT_TCP, IPVS_CMD_ATTR_TIMEOUT_TCP_FIN, IPVS_CMD_ATTR_TIMEOUT_UDP]]"
| "takes IPVS_CMD_GET_TIMEOUT d = [[]]"
| "takes IPVS_CMD_SET_INFO d = []"
| "takes IPVS_CMD_GET_INFO d = [[]]"
| "takes IPVS_CMD_ZERO d = [[], [IPVS_CMD_ATTR_SERVICE]]"
| "takes IPVS_CMD_FLUSH d = [[]]"

definition content_typed :: "ipvs_cmd \<Rightarrow> bool \<Rightarrow> nl_item list \<Rightarrow> bool" where
  "content_typed cmd dump xs \<longleftrightarrow>
     (case entries None xs of
        None \<Rightarrow> False
      | Some es \<Rightarrow> list_all entry_typed es \<and> map entry_attr es \<in> set (takes cmd dump))"

text \<open>The older interface: the structure each option takes.\<close>

fun option_typed :: "so_set \<Rightarrow> so_arg \<Rightarrow> bool" where
  "option_typed opt SoNone = (opt = IP_VS_SO_SET_FLUSH)"
| "option_typed opt (SoService svc) =
     (opt \<in> {IP_VS_SO_SET_ADD, IP_VS_SO_SET_EDIT, IP_VS_SO_SET_DEL, IP_VS_SO_SET_ZERO})"
| "option_typed opt (SoServiceDest svc dst) =
     (opt \<in> {IP_VS_SO_SET_ADDDEST, IP_VS_SO_SET_EDITDEST, IP_VS_SO_SET_DELDEST})"
| "option_typed opt (SoTimeout to) = (opt = IP_VS_SO_SET_TIMEOUT)"
| "option_typed opt (SoDaemon dm) = (opt \<in> {IP_VS_SO_SET_STARTDAEMON, IP_VS_SO_SET_STOPDAEMON})"

fun request_typed :: "request \<Rightarrow> bool" where
  "request_typed (NlRequest m) = content_typed (msg_cmd m) (msg_dump m) (msg_items m)"
| "request_typed (SoRequest opt arg) = option_typed opt arg"

definition trace_typed :: "'w lib \<Rightarrow> bool" where
  "trace_typed s \<longleftrightarrow> list_all request_typed (sent s)"

section \<open>What the library puts is typed\<close>

lemmas tables = service_types_def dest_types_def nest_types_def ipvs_service_policy_def ipvs_dest_policy_def
  ipvs_daemon_policy_def ipvs_cmd_policy_def no_policy_def pol_def

lemma service_nest:
  "length (svc_sched_name svc) < 16 \<Longrightarrow> length (svc_pe_name svc) < 16 \<Longrightarrow>
   \<exists>ys. (\<forall>xs. entries None (service_items svc @ xs) = map_option ((#) (Nest IPVS_CMD_ATTR_SERVICE ys)) (entries None xs))
     \<and> entry_typed (Nest IPVS_CMD_ATTR_SERVICE ys)"
  by (auto simp: service_items_def tables required_def)

lemma dest_nest:
  "\<exists>ys. (\<forall>xs. entries None (dest_items dst @ xs) = map_option ((#) (Nest IPVS_CMD_ATTR_DEST ys)) (entries None xs))
     \<and> entry_typed (Nest IPVS_CMD_ATTR_DEST ys)"
  by (auto simp: dest_items_def tables required_def)

lemma service_typed:
  assumes "length (svc_sched_name svc) < 16" and "length (svc_pe_name svc) < 16"
    and "[IPVS_CMD_ATTR_SERVICE] \<in> set (takes cmd d)"
  shows "content_typed cmd d (service_items svc)"
proof -
  from service_nest [OF assms(1,2)] obtain ys where
    ys: "\<And>xs. entries None (service_items svc @ xs) = map_option ((#) (Nest IPVS_CMD_ATTR_SERVICE ys)) (entries None xs)"
    "entry_typed (Nest IPVS_CMD_ATTR_SERVICE ys)" by blast
  from ys(1) [of "[]"] ys(2) assms(3) show ?thesis by (simp add: content_typed_def del: entry_typed.simps)
qed

lemma service_dest_typed:
  assumes "length (svc_sched_name svc) < 16" and "length (svc_pe_name svc) < 16"
    and "[IPVS_CMD_ATTR_SERVICE, IPVS_CMD_ATTR_DEST] \<in> set (takes cmd d)"
  shows "content_typed cmd d (service_items svc @ dest_items dst)"
proof -
  from service_nest [OF assms(1,2)] obtain ys where
    ys: "\<And>xs. entries None (service_items svc @ xs) = map_option ((#) (Nest IPVS_CMD_ATTR_SERVICE ys)) (entries None xs)"
    "entry_typed (Nest IPVS_CMD_ATTR_SERVICE ys)" by blast
  from dest_nest obtain zs where
    zs: "\<And>xs. entries None (dest_items dst @ xs) = map_option ((#) (Nest IPVS_CMD_ATTR_DEST zs)) (entries None xs)"
    "entry_typed (Nest IPVS_CMD_ATTR_DEST zs)" by blast
  from ys(1) [of "dest_items dst"] zs(1) [of "[]"] ys(2) zs(2) assms(3) show ?thesis
    by (simp add: content_typed_def del: entry_typed.simps)
qed

lemma dest_query_typed: "content_typed IPVS_CMD_GET_DEST True (dest_query_items svc)"
  by (simp add: content_typed_def dest_query_items_def tables required_def)

lemma timeout_typed: "content_typed IPVS_CMD_SET_TIMEOUT d (timeout_items to)"
  by (simp add: content_typed_def timeout_items_def tables)

lemma start_daemon_typed:
  "length (dm_mcast_ifn dm) < 16 \<Longrightarrow> content_typed IPVS_CMD_NEW_DAEMON d (start_daemon_items dm)"
  by (simp add: content_typed_def start_daemon_items_def tables required_def)

lemma stop_daemon_typed:
  "length (dm_mcast_ifn dm) < 16 \<Longrightarrow> content_typed IPVS_CMD_DEL_DAEMON d (stop_daemon_items dm)"
  by (simp add: content_typed_def stop_daemon_items_def tables required_def)

lemma zero_typed:
  "length (svc_sched_name svc) < 16 \<Longrightarrow> length (svc_pe_name svc) < 16 \<Longrightarrow> content_typed IPVS_CMD_ZERO d (zero_items svc)"
  using service_typed [of svc IPVS_CMD_ZERO d] by (simp add: zero_items_def content_typed_def)

lemma empty_typed: "content_typed cmd d [] \<longleftrightarrow> [] \<in> set (takes cmd d)"
  by (simp add: content_typed_def)

lemma nl_content_typed: "terminated c \<Longrightarrow> content_typed (fst (nl_content c)) False (snd (nl_content c))"
  by (cases c) (simp_all add: service_typed service_dest_typed timeout_typed start_daemon_typed
      stop_daemon_typed zero_typed empty_typed)

lemma so_content_typed: "option_typed (fst (so_content c)) (snd (so_content c))"
  by (cases c) simp_all

lemma request_of_typed: "terminated c \<Longrightarrow> request_typed (request_of L c s)"
  by (simp add: request_of_def nl_request_def nl_content_typed so_content_typed)

section \<open>What a call sends\<close>

text \<open>A call extends the trace by nothing or by one well-typed request.\<close>

definition sends_typed :: "'w lib \<Rightarrow> 'w lib \<Rightarrow> bool" where
  "sends_typed s t \<longleftrightarrow> sent t = sent s \<or> (\<exists>q. sent t = sent s @ [q] \<and> request_typed q)"

lemma sends_nothing [intro]: "sent t = sent s \<Longrightarrow> sends_typed s t"
  by (simp add: sends_typed_def)

lemma sends_typed_trace: "sends_typed s t \<Longrightarrow> trace_typed s \<Longrightarrow> trace_typed t"
  by (auto simp: sends_typed_def trace_typed_def)

lemma sends_typed_cong: "sent s' = sent s \<Longrightarrow> sent t' = sent t \<Longrightarrow> sends_typed s' t' = sends_typed s t"
  by (simp add: sends_typed_def)

lemma sent_simps [simp]:
  "sent (release r s) = sent s" "sent (free_block b s) = sent s" "sent (free_opt x s) = sent s"
  "sent (nlmsg_free m s) = sent s" "sent (set_errno e s) = sent s" "sent (undefined_behaviour s) = sent s"
  "sent (write_header h n s) = sent s" "sent (fail_genl m k e s) = sent s"
  by (simp_all add: release_def free_block_def free_opt_def nlmsg_free_def set_errno_def undefined_behaviour_def
      write_header_def fail_genl_def split: option.split)

lemma malloc_block_sent: "malloc_block L n s = (b, t) \<Longrightarrow> sent t = sent s"
  by (auto simp: malloc_block_def acquire_def Let_def split: prod.splits if_splits)

lemma realloc_table_sent: "realloc_table L h n k xs s = (r, t) \<Longrightarrow> sent t = sent s"
  using realloc_table_quiet [of L h n k xs s r t] by (simp add: quiet_def)

lemma copy_entries_sent: "copy_entries heap conv ks i n xs s = (ys, t) \<Longrightarrow> sent t = sent s"
proof (induction n arbitrary: i xs s)
  case (Suc n)
  then show ?case by (fastforce simp: Let_def quiet_def dest!: table_put_quiet split: prod.splits if_splits)
qed simp

context nl_callback
begin

lemma send_sent:
  "ipvs_nl_send_message L msg cb r s = (c, r', t) \<Longrightarrow>
   sent t = sent s \<or> (\<exists>m. msg = Some m \<and> sent t = sent s @ [NlRequest m])"
  by (auto simp: ipvs_nl_send_message_def Let_def acquire_def quiet_def
      split: prod.splits if_splits option.splits dest!: deliver_quiet)

lemma exchange_typed:
  assumes ex: "nl_exchange L cmd dump xs cb r s = (c, r', t)" and typed: "content_typed cmd dump xs"
  shows "sends_typed s t"
proof -
  obtain m s1 where msg: "ipvs_nl_message L cmd dump s = (m, s1)" by fastforce
  show ?thesis
  proof (cases m)
    case None
    from ipvs_nl_message_None [OF msg [unfolded None]] msg None ex show ?thesis
      by (auto simp: nl_exchange_def quiet_def)
  next
    case (Some m0)
    note m0 = ipvs_nl_message_Some [OF msg [unfolded Some]]
    obtain ok m1 s2 where put: "nla_put_all L xs m0 s1 = (ok, m1, s2)" by (metis prod_cases3)
    from m0 nla_put_all_quiet [OF put] have same: "sent s2 = sent s" by (simp add: quiet_def)
    show ?thesis
    proof (cases ok)
      case False
      with ex msg Some put same show ?thesis by (auto simp: nl_exchange_def)
    next
      case True
      with ex msg Some put have snd: "ipvs_nl_send_message L (Some m1) cb r s2 = (c, r', t)"
        by (simp add: nl_exchange_def)
      have "request_typed (NlRequest m1)"
        using nla_put_all_ok [of L xs m0 s1 m1 s2] put True m0 typed by simp
      with send_sent [OF snd] same show ?thesis by (auto simp: sends_typed_def)
    qed
  qed
qed

end

section \<open>The calls of the library\<close>

datatype library_call = Init | Close | Get_Info | Command command | Get_Services
  | Get_Dests ip_vs_service_entry | Get_Service u32 u16 u16 nf_inet_addr u16 | Get_Timeout | Get_Daemon

fun run_call :: "('w, 'm, 'a) sys \<Rightarrow> library_call \<Rightarrow> 'w lib \<Rightarrow> 'w lib" where
  "run_call L Init s = snd (ipvs_init L s)"
| "run_call L Close s = ipvs_close L s"
| "run_call L Get_Info s = snd (ipvs_getinfo L s)"
| "run_call L (Command c) s = snd (exec_command L c s)"
| "run_call L Get_Services s = snd (ipvs_get_services L s)"
| "run_call L (Get_Dests svc) s = snd (ipvs_get_dests L svc s)"
| "run_call L (Get_Service fwmark af protocol addr port) s =
     snd (ipvs_get_service L fwmark af protocol addr port s)"
| "run_call L Get_Timeout s = snd (ipvs_get_timeout L s)"
| "run_call L Get_Daemon s = snd (ipvs_get_daemon L s)"

fun call_terminated :: "library_call \<Rightarrow> bool" where
  "call_terminated (Command c) = terminated c"
| "call_terminated _ = True"

lemma command_typed: "exec_command L c s = (r, t) \<Longrightarrow> terminated c \<Longrightarrow> sends_typed s t"
  using cmd.op_sent [of L c s r t] request_of_typed [of c L s] by (auto simp: sends_typed_def)

lemma getinfo_exchange:
  "nl_mode L s \<Longrightarrow>
   ipvs_getinfo L s = (let (r, _, t) = nl_exchange L IPVS_CMD_GET_INFO False [] (ipvs_getinfo_parse_cb L) () s in (r, t))"
  by (simp add: ipvs_getinfo_def nl_exchange_def split: option.split prod.split)

lemma getinfo_typed: "ipvs_getinfo L s = (r, t) \<Longrightarrow> sends_typed s t"
proof (cases "nl_mode L s")
  case True
  assume "ipvs_getinfo L s = (r, t)"
  with getinfo_exchange [OF True] obtain u where
    "nl_exchange L IPVS_CMD_GET_INFO False [] (ipvs_getinfo_parse_cb L) () s = (r, u, t)"
    by (auto split: prod.splits)
  from getinfo.exchange_typed [OF this] show ?thesis by (simp add: empty_typed)
qed (auto simp: ipvs_getinfo_def call_getsockopt_info_def Let_def split: prod.splits sum.splits)

lemma raw_socket_sent: "open_raw_socket L s = (r, t) \<Longrightarrow> sent t = sent s"
  by (auto simp: open_raw_socket_def call_getsockopt_info_def Let_def split: prod.splits sum.splits)

lemma init_typed: "ipvs_init L s = (r, t) \<Longrightarrow> sends_typed s t"
proof -
  assume run: "ipvs_init L s = (r, t)"
  obtain c u s1 where snd: "ipvs_nl_send_message L None ipvs_nl_noop_cb ()
      (s\<lparr>ipvs_func := Some F_init, try_nl := True\<rparr>) = (c, u, s1)" by (metis prod_cases3)
  from noop.send_sent [OF snd] have same: "sent s1 = sent s" by simp
  show ?thesis
  proof (cases "libipvs_use_nl L \<and> c = 0")
    case True
    with run snd have "ipvs_getinfo L (s1\<lparr>try_nl := True\<rparr>) = (r, t)" by (simp add: ipvs_init_def Let_def)
    from getinfo_typed [OF this] same show ?thesis by (simp add: sends_typed_def)
  next
    case False
    with run snd have "open_raw_socket L (s1\<lparr>try_nl := False\<rparr>) = (r, t)
        \<or> open_raw_socket L (s\<lparr>ipvs_func := Some F_init\<rparr>) = (r, t)"
      by (auto simp: ipvs_init_def Let_def split: if_splits)
    with same show ?thesis by (auto dest!: raw_socket_sent)
  qed
qed

lemma get_services_typed: "ipvs_get_services L s = (g, t) \<Longrightarrow> sends_typed s t"
proof (cases "nl_mode L s")
  case True
  assume q: "ipvs_get_services L s = (g, t)"
  obtain b s1 where m: "malloc_block L 232 s = (b, s1)" by fastforce
  show ?thesis
  proof (cases b)
    case None
    with q True m malloc_block_sent [OF m] show ?thesis
      by (auto simp: ipvs_get_services_def get_services_nl_exchange)
  next
    case (Some b0)
    obtain r get u where ex: "nl_exchange L IPVS_CMD_GET_SERVICE True [] (ipvs_services_parse_cb L)
        (Some \<lparr>gs_block = b0, gs_num_services = 0, gs_entrytable = [None]\<rparr>) s1 = (r, get, u)"
      by (metis prod_cases3)
    from services.exchange_typed [OF ex] have "sends_typed s1 u" by (simp add: empty_typed)
    moreover have "sent t = sent u"
      using q True m Some ex by (auto simp: ipvs_get_services_def get_services_nl_exchange split: if_splits)
    ultimately show ?thesis using malloc_block_sent [OF m] by (simp add: sends_typed_def)
  qed
qed (auto simp: ipvs_get_services_def get_services_so_def Let_def
    dest!: malloc_block_sent copy_entries_sent split: prod.splits option.splits sum.splits)

lemma get_dests_nl_typed: "get_dests_nl L svc d s = (g, t) \<Longrightarrow> sends_typed s t"
proof -
  assume q: "get_dests_nl L svc d s = (g, t)"
  obtain xs s1 where re: "(if se_num_dests svc = 0 then realloc_table L 40 200 1 (gd_entrytable d) s
      else (Some (gd_entrytable d), s)) = (xs, s1)" by fastforce
  then have same: "sent s1 = sent s" by (auto split: if_splits dest: realloc_table_sent)
  show ?thesis
  proof (cases xs)
    case None
    with q re same show ?thesis by (auto simp: get_dests_nl_exchange)
  next
    case (Some ys)
    obtain r dp u where ex: "nl_exchange L IPVS_CMD_GET_DEST True (dest_query_items svc) (ipvs_dests_parse_cb L)
        (Some (dests_header svc (d\<lparr>gd_entrytable := ys\<rparr>))) s1 = (r, dp, u)" by (metis prod_cases3)
    from dests.exchange_typed [OF ex dest_query_typed] have "sends_typed s1 u" .
    moreover have "sent t = sent u" using q re Some ex by (auto simp: get_dests_nl_exchange split: if_splits)
    ultimately show ?thesis using same by (simp add: sends_typed_def)
  qed
qed

lemma get_dests_so_sent: "get_dests_so L svc d s = (g, t) \<Longrightarrow> sent t = sent s"
  by (auto simp: get_dests_so_def Let_def dest!: malloc_block_sent copy_entries_sent
      split: prod.splits option.splits sum.splits if_splits)

lemma get_dests_typed: "ipvs_get_dests L svc s = (g, t) \<Longrightarrow> sends_typed s t"
  by (auto simp: ipvs_get_dests_def Let_def sends_typed_def dest!: malloc_block_sent get_dests_so_sent
      get_dests_nl_typed split: prod.splits option.splits if_splits)

lemma get_service_nl_typed: "get_service_nl L fwmark af protocol addr port s = (x, t) \<Longrightarrow> sends_typed s t"
proof -
  assume q: "get_service_nl L fwmark af protocol addr port s = (x, t)"
  obtain b s1 where m1: "malloc_block L 224 s = (b, s1)" by fastforce
  obtain g s2 where m2: "malloc_block L 232 s1 = (g, s2)" by fastforce
  note same = malloc_block_sent [OF m1] malloc_block_sent [OF m2]
  show ?thesis
  proof (cases "b = None \<or> g = None")
    case True
    with q m1 m2 same show ?thesis by (auto simp: get_service_nl_exchange split: option.splits)
  next
    case False
    let ?tsvc = "service_zero\<lparr>svc_fwmark := fwmark, svc_af := af, svc_protocol := protocol,
                               svc_addr := addr, svc_port := port\<rparr>"
    obtain r get u where ex: "nl_exchange L IPVS_CMD_GET_SERVICE False (service_items ?tsvc) (ipvs_services_parse_cb L)
        (Some \<lparr>gs_block = the g, gs_num_services = 0, gs_entrytable = [None]\<rparr>) s2 = (r, get, u)"
      by (metis prod_cases3)
    have "content_typed IPVS_CMD_GET_SERVICE False (service_items ?tsvc)"
      by (rule service_typed) (simp_all add: service_zero_def)
    from services.exchange_typed [OF ex this] have "sends_typed s2 u" .
    moreover have "sent t = sent u"
      using q m1 m2 False ex by (auto simp: get_service_nl_exchange Let_def split: if_splits option.splits)
    ultimately show ?thesis using same by (simp add: sends_typed_def)
  qed
qed

lemma get_service_so_sent: "get_service_so L fwmark af protocol addr port s = (x, t) \<Longrightarrow> sent t = sent s"
  by (auto simp: get_service_so_def check_compat_entry_def Let_def dest!: malloc_block_sent
      split: prod.splits option.splits sum.splits if_splits)

lemma get_service_typed: "ipvs_get_service L fwmark af protocol addr port s = (x, t) \<Longrightarrow> sends_typed s t"
  by (auto simp: ipvs_get_service_def Let_def sends_typed_def dest!: get_service_nl_typed get_service_so_sent
      split: if_splits)

lemma get_timeout_typed: "ipvs_get_timeout L s = (x, t) \<Longrightarrow> sends_typed s t"
proof -
  assume q: "ipvs_get_timeout L s = (x, t)"
  obtain b s1 where m: "malloc_block L 12 s = (b, s1)" by fastforce
  let ?s = "s1\<lparr>ipvs_func := Some F_get_timeout\<rparr>"
  obtain r u s2 where ex: "nl_exchange L IPVS_CMD_GET_TIMEOUT False [] (ipvs_timeout_parse_cb L)
      \<lparr>tcp_timeout = 0, tcp_fin_timeout = 0, udp_timeout = 0\<rparr> ?s = (r, u, s2)" by (metis prod_cases3)
  from timeout.exchange_typed [OF ex] have "sends_typed s1 s2" by (simp add: empty_typed sends_typed_def)
  then have "sends_typed s s2" using malloc_block_sent [OF m] by (simp add: sends_typed_def)
  moreover have "sent t = sent s \<or> sent t = sent s2"
    using q m malloc_block_sent [OF m] ex
    by (auto simp: ipvs_get_timeout_def nl_exchange_def Let_def split: if_splits option.splits prod.splits sum.splits)
  ultimately show ?thesis by (auto simp: sends_typed_def)
qed

lemma get_daemon_typed: "ipvs_get_daemon L s = (x, t) \<Longrightarrow> sends_typed s t"
proof -
  assume q: "ipvs_get_daemon L s = (x, t)"
  obtain b s1 where m: "malloc_block L 104 s = (b, s1)" by fastforce
  let ?s = "s1\<lparr>ipvs_func := Some F_get_daemon\<rparr>"
  obtain r u s2 where ex: "nl_exchange L IPVS_CMD_GET_DAEMON True [] (ipvs_daemon_parse_cb L)
      (daemon_zero, daemon_zero) ?s = (r, u, s2)" by (metis prod_cases3)
  from daemon.exchange_typed [OF ex] have "sends_typed s1 s2" by (simp add: empty_typed sends_typed_def)
  then have "sends_typed s s2" using malloc_block_sent [OF m] by (simp add: sends_typed_def)
  moreover have "sent t = sent s \<or> sent t = sent s2"
    using q m malloc_block_sent [OF m] ex
    by (auto simp: ipvs_get_daemon_def nl_exchange_def Let_def split: if_splits option.splits prod.splits sum.splits)
  ultimately show ?thesis by (auto simp: sends_typed_def)
qed

lemma close_sent: "sent (ipvs_close L s) = sent s"
  by (simp add: ipvs_close_def)

lemma run_call_typed:
  assumes "call_terminated call"
  shows "sends_typed s (run_call L call s)"
proof (cases call)
  case (Command c)
  with assms command_typed [of L c s] show ?thesis by (metis call_terminated.simps(1) prod.collapse run_call.simps(4))
qed (simp_all add: close_sent sends_nothing; metis prod.collapse init_typed getinfo_typed get_services_typed
    get_dests_typed get_service_typed get_timeout_typed get_daemon_typed)+

section \<open>The trace stays well typed\<close>

text \<open>C8. Whatever the kernel answers, every request the library ever makes is well typed: a message
  splits into closed nests, each attribute has the type and the size its table declares, none is
  there twice, none that identifies a service, a destination or a daemon is missing, the entries
  are those the command takes, and a socket option gets the structure it expects, provided the
  strings in the arguments are terminated.\<close>

theorem requests_well_typed:
  assumes "list_all call_terminated calls" and "trace_typed s"
  shows "trace_typed (fold (run_call L) calls s)"
  using assms
  by (induction calls arbitrary: s) (auto intro: sends_typed_trace run_call_typed)

lemma requests_well_typed_witness:
  "trace_typed (fold (run_call (sample_sys True))
     [Init, Command (AddDest sample_service sample_dest), Get_Services, Command Flush, Close] (lib_start []))
   \<and> length (sent (fold (run_call (sample_sys True))
     [Init, Command (AddDest sample_service sample_dest), Get_Services, Command Flush, Close] (lib_start []))) = 4"
proof
  have "list_all call_terminated
      [Init, Command (AddDest sample_service sample_dest), Get_Services, Command Flush, Close]" by code_simp
  then show "trace_typed (fold (run_call (sample_sys True))
      [Init, Command (AddDest sample_service sample_dest), Get_Services, Command Flush, Close] (lib_start []))"
    by (rule requests_well_typed) (simp add: trace_typed_def lib_start_def)
qed code_simp

end
