(* ===== verification/EndToEnd.thy ===== *)
theory EndToEnd
  imports HttpSerial LibTyping
begin

text \<open>
  A request of \<^verbatim>\<open>src/http_server.cpp\<close> followed through \<^verbatim>\<open>src/ipvs_interface.cpp\<close> and
  \<^verbatim>\<open>depend/libipvs/libipvs.c\<close> to the kernel: what reading, checking and setting a weight add up
  to, for any transport; the netlink transport when libnl works; and the types of everything the
  running server sends.
\<close>

section \<open>From the chunks to the wrapper\<close>

text \<open>A request whose \<^verbatim>\<open>set_weight\<close> works is answered with success, and the kernel is asked what it asks.\<close>

lemma request_delivered:
  assumes "start_reading headers = word_of_nat (length (concat (ds @ [d])))"
    and "length (concat (ds @ [d])) < 2 ^ 64" and "d \<noteq> [] \<or> ds = []"
    and "check_request J (concat (ds @ [d])) (m_api_key (config s)) = Accepted h k"
    and "json_as_string J h = Some host" and "json_as_int J k = Some weight"
    and "\<not> configuration_mutex s" and "\<not> ipvs_mutex s"
    and "set_weight L R (c_str (m_vip (config s))) host weight (ipvs (settled s)) = (True, i)"
  shows "\<exists>con' s'. read_body (start_reading headers) [] (chunks (ds @ [d]) @ events) = Complete (concat (ds @ [d])) events
    \<and> handle_post_request J L R (concat (ds @ [d])) con s = (Returned, con', s')
    \<and> con_status con' = Some status_ok \<and> con_written con' = con_written con @ ok_body
    \<and> \<not> configuration_mutex s' \<and> \<not> ipvs_mutex s' \<and> requests s' = sent (ipvs_lib i)"
proof -
  let ?s = "(settled s)\<lparr>ipvs_mutex := True\<rparr>"
  have "update_weight J L R (m_vip (config s)) h k con ?s = Some (respond status_ok ok_body con, ?s\<lparr>ipvs := i\<rparr>)"
    using assms(5,6,9) by (simp add: update_weight_def)
  then have "handle_post_request J L R (concat (ds @ [d])) con s =
      (Returned, respond status_ok ok_body con, ?s\<lparr>ipvs := i, ipvs_mutex := False\<rparr>)"
    using assms(4,7,8) by (simp add: handle_post_request_eq)
  moreover have "read_body (start_reading headers) [] (chunks (ds @ [d]) @ events) = Complete (concat (ds @ [d])) events"
    unfolding assms(1) by (rule read_body_whole [OF refl assms(2,3)])
  ultimately show ?thesis by (simp add: respond_def)
qed

lemma configured_vip:
  "ipv4_name R vip a \<Longrightarrow> c_str (vip @ CHR '':'' # dec_of_int p) = vip @ CHR '':'' # dec_of_int p"
  using dec_of_int_no_NUL by (auto simp: ipv4_name_def intro!: c_str_id)

section \<open>The netlink transport\<close>

text \<open>
  libnl does what it is asked: it has memory for messages and sockets, it connects, it knows the
  family, an attribute finds room in a message, messages are sent; and the kernel acknowledges.
\<close>

definition nl_works :: "('w, 'm, 'a) sys \<Rightarrow> bool" where
  "nl_works L \<longleftrightarrow> (\<forall>w. fst (nlmsg_alloc L w) \<and> fst (nl_socket_alloc L w) \<and> 0 \<le> fst (genl_connect L w)
     \<and> 0 \<le> fst (genl_ctrl_resolve L IPVS_GENL_NAME w) \<and> fst (nl_socket_modify_cb L w) = 0
     \<and> fst (snd (nl_recvmsgs L w)) = 0)
     \<and> (\<forall>m x. nla_put_ok L m x) \<and> (\<forall>m w. 0 \<le> fst (nl_send_auto_complete L m w))"

lemma nla_put_all_works: "nl_works L \<Longrightarrow> fst (nla_put_all L xs msg s)"
  by (induction xs arbitrary: msg s) (auto simp: nl_works_def Let_def)

lemma noop_deliver: "nl_deliver ipvs_nl_noop_cb ms fin arg s = (fin, arg, s)"
  by (induction ms) (simp_all add: ipvs_nl_noop_cb_def NL_OK_def)

lemma send_works:
  assumes "nl_works L"
  shows "fst (ipvs_nl_send_message L (Some m) ipvs_nl_noop_cb () s) = 0"
proof -
  have works: "fst (nl_socket_alloc L w)" "0 \<le> fst (genl_connect L w)" "fst (nl_socket_modify_cb L w) = 0"
    "0 \<le> fst (genl_ctrl_resolve L IPVS_GENL_NAME w)" "0 \<le> fst (nl_send_auto_complete L m w)"
    "fst (snd (nl_recvmsgs L w)) = 0" for w
    using assms by (simp_all add: nl_works_def)
  have neg: "\<not> x < 0" if "0 \<le> x" for x :: int using that by simp
  show ?thesis
    unfolding ipvs_nl_send_message_def Let_def
    by (simp add: case_prod_beta works neg noop_deliver)
qed

lemma nl_command_works:
  assumes "nl_works L"
  shows "fst (nl_command L cmd (fill_items L xs) s) = 0"
proof -
  obtain m s1 where m: "ipvs_nl_message L cmd False s = (Some m, s1)"
    using assms by (auto simp: ipvs_nl_message_def nl_works_def Let_def case_prod_beta)
  obtain m' s2 where "nla_put_all L xs m s1 = (True, m', s2)"
    using nla_put_all_works [OF assms, of xs m s1] by (metis prod.collapse eq_True)
  with m send_works [OF assms, of m' s2] show ?thesis
    by (simp add: nl_command_def fill_items_def case_prod_beta)
qed

lemma exec_works: "nl_works L \<Longrightarrow> nl_mode L s \<Longrightarrow> fst (exec_command L c s) = 0"
  using exec_nl [of L s c] nl_command_works [of L] by (metis fst_conv surj_pair)

text \<open>The attributes that set the weight of the server at address \<open>b\<close> of the TCP service at \<open>a\<close>.\<close>

definition edit_items :: "u32 \<Rightarrow> u32 \<Rightarrow> int \<Rightarrow> i32 \<Rightarrow> nl_item list" where
  "edit_items a b p weight =
     [NestStart IPVS_CMD_ATTR_SERVICE, PutU16 IPVS_SVC_ATTR_AF AF_INET, PutU16 IPVS_SVC_ATTR_PROTOCOL IPPROTO_TCP,
      PutAddr IPVS_SVC_ATTR_ADDR (set_addr_ip a addr_zero), PutU16 IPVS_SVC_ATTR_PORT (htons (word_of_int p)),
      PutString IPVS_SVC_ATTR_SCHED_NAME ''wlc'', PutFlags IPVS_SVC_ATTR_FLAGS \<lparr>fl_flags = 0, fl_mask = NOT 0\<rparr>,
      PutU32 IPVS_SVC_ATTR_TIMEOUT 0, PutU32 IPVS_SVC_ATTR_NETMASK 0xffffffff, NestEnd,
      NestStart IPVS_CMD_ATTR_DEST, PutU16 IPVS_DEST_ATTR_ADDR_FAMILY AF_INET,
      PutAddr IPVS_DEST_ATTR_ADDR (set_addr_ip b addr_zero), PutU16 IPVS_DEST_ATTR_PORT (htons (word_of_int p)),
      PutU32 IPVS_DEST_ATTR_FWD_METHOD IP_VS_CONN_F_DROUTE, PutU32 IPVS_DEST_ATTR_WEIGHT weight,
      PutU32 IPVS_DEST_ATTR_U_THRESH 0, PutU32 IPVS_DEST_ATTR_L_THRESH 0, NestEnd]"

lemma set_weight_netlink:
  assumes "ipv4_name R vip a" and "ipv4_name R host b" and "0 < p" and "p \<le> 65535"
    and "inet_pton6 R (vip @ CHR '':'' # dec_of_int p) = None"
    and "nl_mode L (ipvs_lib i)" and "nl_works L"
  shows "\<exists>j. set_weight L R (vip @ CHR '':'' # dec_of_int p) host weight i = (True, j)
    \<and> sent (ipvs_lib j) = sent (ipvs_lib i) @ [nl_request IPVS_CMD_SET_DEST (edit_items a b p weight) (ipvs_lib i)]"
proof -
  let ?vip = "vip @ CHR '':'' # dec_of_int p"
  obtain ok j where run: "set_weight L R ?vip host weight i = (ok, j)" by fastforce
  note tgt = weight_target_ipv4 [OF assms(1-5), of weight]
  from set_weight_cases [OF run] tgt exec_works [OF assms(7,6)] have "ok" by (simp del: exec_command.simps)
  with set_weight_update [OF run tgt] assms(6) run show ?thesis
    by (simp add: request_of_def service_items_def dest_items_def edit_items_def flags_of_def set_ipv4_def
        base_service_def service_zero_def dest_zero_def IP_VS_CONN_F_DROUTE_def IP_VS_CONN_F_FWD_MASK_def set_addr_ip_def)
qed

text \<open>C9. The same request in the build with netlink: when libnl works and the kernel acknowledges, the
  request is answered with success, and the kernel was sent exactly one message more, the command
  that changes a destination, with the nests that name the TCP service at the vip and the server
  at the port of the vip with the weight, direct routing and no thresholds.\<close>

theorem request_sets_weight_netlink:
  assumes "start_reading headers = word_of_nat (length (concat (ds @ [d])))"
    and "length (concat (ds @ [d])) < 2 ^ 64" and "d \<noteq> [] \<or> ds = []"
    and "check_request J (concat (ds @ [d])) (m_api_key (config s)) = Accepted h k"
    and "json_as_string J h = Some host" and "json_as_int J k = Some weight"
    and "m_vip (config s) = vip @ CHR '':'' # dec_of_int p" and "0 < p" and "p \<le> 65535"
    and "ipv4_name R vip a" and "ipv4_name R host b" and "inet_pton6 R (vip @ CHR '':'' # dec_of_int p) = None"
    and "\<not> configuration_mutex s" and "\<not> ipvs_mutex s" and "nl_mode L (ipvs_lib (ipvs s))" and "nl_works L"
  shows "\<exists>con' s'. read_body (start_reading headers) [] (chunks (ds @ [d]) @ events) = Complete (concat (ds @ [d])) events
    \<and> handle_post_request J L R (concat (ds @ [d])) con s = (Returned, con', s')
    \<and> con_status con' = Some status_ok \<and> con_written con' = con_written con @ ok_body
    \<and> \<not> configuration_mutex s' \<and> \<not> ipvs_mutex s'
    \<and> requests s' = requests s @ [nl_request IPVS_CMD_SET_DEST (edit_items a b p weight) (ipvs_lib (ipvs s))]"
proof -
  have lib: "ipvs_lib (ipvs (settled s)) = ipvs_lib (ipvs s)" by simp
  then have "nl_mode L (ipvs_lib (ipvs (settled s)))" using assms(15) by simp
  from set_weight_netlink [OF assms(10,11,8,9,12) this assms(16), of weight] obtain i where
    i: "set_weight L R (c_str (m_vip (config s))) host weight (ipvs (settled s)) = (True, i)"
    "sent (ipvs_lib i) = requests s @ [nl_request IPVS_CMD_SET_DEST (edit_items a b p weight) (ipvs_lib (ipvs s))]"
    unfolding assms(7) configured_vip [OF assms(10)] lib by blast
  from request_delivered [OF assms(1-6,13,14) i(1), of events con] i(2) show ?thesis by simp
qed

section \<open>The running server sends nothing ill-typed\<close>

lemma set_weight_typed:
  assumes "set_weight L R vip server weight i = (ok, j)"
  shows "sends_typed (ipvs_lib i) (ipvs_lib j)"
proof (cases "weight_target R vip server weight")
  case None
  with set_weight_cases [OF assms] show ?thesis by auto
next
  case (Some sd)
  obtain svc dst where sd: "sd = (svc, dst)" by fastforce
  note tgt = Some [unfolded sd]
  have "terminated (UpdateDest svc dst)" using weight_target_fields [OF tgt] by simp
  from request_of_typed [OF this] set_weight_update [OF assms tgt] show ?thesis
    unfolding sends_typed_def by blast
qed

lemma advance_typed:
  assumes "advance J L R (s, h) = Some (s', h')"
  shows "sends_typed (ipvs_lib (ipvs s)) (ipvs_lib (ipvs s'))"
  using assms
proof (cases rule: advance_cases)
  case (updated vip a b con t)
  from updated(2) obtain host weight where hw: "json_as_string J a = Some host" "json_as_int J b = Some weight"
    by (auto simp: update_weight_def split: option.splits)
  obtain ok i where i: "set_weight L R (c_str vip) host weight (ipvs s) = (ok, i)" by fastforce
  with updated(2) hw have "ipvs_lib (ipvs t) = ipvs_lib i"
    by (cases ok) (auto simp: update_weight_def report_error_def log_with_def)
  with set_weight_typed [OF i] updated(3) show ?thesis by simp
qed auto

text \<open>Whatever the connections do, every request of a server that started well typed is well typed.\<close>

lemma server_trace_typed:
  assumes "(server_step J L R)\<^sup>*\<^sup>* (s, hs) (t, hs')" and "trace_typed (ipvs_lib (ipvs s))"
  shows "trace_typed (ipvs_lib (ipvs t))"
  using assms
proof (induction rule: rtranclp_induct2)
  case refl
  then show ?case by simp
next
  case (step t1 hs1 t2 hs2)
  from step.hyps(2) have "sends_typed (ipvs_lib (ipvs t1)) (ipvs_lib (ipvs t2))"
    by (auto elim!: server_stepE work_stepE dest: advance_typed)
  with step show ?case by (blast intro: sends_typed_trace)
qed

section \<open>What a request names, on the sample\<close>

text \<open>The sample server is asked to set the weight of web1, in a body that arrives in two chunks.\<close>

lemma sample_request:
  "start_reading [(''content-length'', ''4'')] = word_of_nat (length (concat ([''go''] @ [''od''])))"
  "check_request (sample_json sample_texts) (concat ([''go''] @ [''od''])) (m_api_key (config sample_server))
    = Accepted (JString ''web1'') (JInt 7)"
  "json_as_string (sample_json sample_texts) (JString ''web1'') = Some ''web1''"
  "json_as_int (sample_json sample_texts) (JInt 7) = Some 7"
  by (code_simp, code_simp, simp_all add: sample_json_def)

lemma sample_vip: "m_vip (config sample_server) = ''10.0.0.1'' @ CHR '':'' # dec_of_int 80"
proof -
  have "dec_of_int 80 = ''80''" by code_simp
  then show ?thesis by (simp add: sample_server_def)
qed

lemma sample_names:
  "ipv4_name sample_resolver ''10.0.0.1'' 0x0100000A" "ipv4_name sample_resolver ''web1'' 0x0200000A"
  "inet_pton6 sample_resolver (''10.0.0.1'' @ CHR '':'' # dec_of_int 80) = None"
proof -
  have "\<not> list_all isdigit ''10.0.0.1''" "\<not> list_all isdigit ''web1''" by code_simp+
  then show "ipv4_name sample_resolver ''10.0.0.1'' 0x0100000A" "ipv4_name sample_resolver ''web1'' 0x0200000A"
    by (simp_all add: ipv4_name_def resolve_ipv4_def host_to_addr_def sample_resolver_def)
qed (simp add: sample_resolver_def)

lemma request_sets_weight_netlink_witness:
  "\<exists>con' s'. handle_post_request (sample_json sample_texts) (sample_sys True) sample_resolver ''good'' connection_start
       sample_server = (Returned, con', s') \<and> con_status con' = Some status_ok
     \<and> requests s' = [NlRequest \<lparr>msg_id = 0, msg_family = 0, msg_cmd = IPVS_CMD_SET_DEST, msg_dump = False,
          msg_items = edit_items 0x0100000A 0x0200000A 80 7\<rparr>]"
proof -
  have mode: "nl_mode (sample_sys True) (ipvs_lib (ipvs sample_server))" by code_simp
  have recv: "fst (snd (sample_recvmsgs w)) = 0" for w by (cases w) simp_all
  have works: "nl_works (sample_sys True)" by (simp add: nl_works_def sample_sys_def recv)
  have lib: "ipvs_lib (ipvs sample_server) = lib_start []" by (simp add: sample_server_def sample_interface_def)
  from request_sets_weight_netlink [OF sample_request(1) _ _ sample_request(2-4) sample_vip _ _ sample_names
      sample_free mode works, of "[]" connection_start]
  show ?thesis unfolding lib by (auto simp: lib_start_def nl_request_def)
qed

end
