(* ===== verification/Spec2Isabelle.thy ===== *)
theory Spec2Isabelle
  imports Program EndToEnd
begin

text \<open>
  A model of ipvshttpd, an HTTP daemon that changes the weights of load-balanced servers in
  the Linux kernel's IP virtual server, with its correctness theorems.

  The program. \<^verbatim>\<open>src/ipvshttpd.cpp\<close> reads arguments and a configuration file, sets up
  logging, becomes a daemon and starts \<^verbatim>\<open>http_server\<close> (\<^verbatim>\<open>src/http_server.cpp\<close>). The server
  initialises one \<^verbatim>\<open>ipvs_interface\<close> (\<^verbatim>\<open>src/ipvs_interface.cpp\<close>) and answers POST requests on a
  pool of threads: each connection has a handler that reads the body, checks its key and calls
  \<^verbatim>\<open>set_weight\<close>, which parses the addresses and calls \<^verbatim>\<open>ipvs_update_dest\<close> of the C library
  \<^verbatim>\<open>depend/libipvs\<close>. The library talks to the kernel by generic netlink or by socket options.
  Shared state is the settings and the interface, each behind a mutex, and the log.

  Theories, from the bottom up.
  \<^item> \<open>Prelude\<close>, \<open>Libc\<close>: names of machine integers, list lemmas; the C library functions the
    sources call on text (\<^verbatim>\<open>strtol\<close>, \<^verbatim>\<open>atoi\<close>, \<^verbatim>\<open>strchr\<close>, decimal output).
  \<^item> \<open>StringTools\<close> (\<^verbatim>\<open>src/string_tools.cpp\<close>): trimming, lower case, prefix, splitting. When the
    split returns, what it returns, and that it inverts joining.
  \<^item> \<open>Logging\<close> (\<^verbatim>\<open>src/logging.cpp\<close>): level, sinks and the logging calls, each an interpretation
    of the locale \<open>logger\<close>; what an error reaches.
  \<^item> \<open>Configuration\<close> (\<^verbatim>\<open>src/configuration.cpp\<close>): the line reader refines a list of assignments;
    a written configuration is read back.
  \<^item> \<open>IpVs\<close>, \<open>NlPolicy\<close> (\<^verbatim>\<open>ip_vs.h\<close>, \<^verbatim>\<open>ip_vs_nl_policy.c\<close>): the data of the kernel interface.
  \<^item> \<open>LibState\<close>, \<open>LibSend\<close>, \<open>LibCommands\<close> (\<^verbatim>\<open>libipvs.c\<close>): the statics of the library, with the
    resources it holds, the requests it made and an undefined-behaviour flag; message building and
    sending; start, close and every command. \<open>LibContract\<close> states what all commands keep (locale
    of operations, one interpretation), \<open>LibExample\<close> gives a small kernel for the witnesses.
  \<^item> \<open>LibParse\<close>, \<open>LibQueries\<close>, \<open>LibQueryContract\<close>: the callbacks that parse answers into growing
    tables and the queries that use them; one contract for all of them.
  \<^item> \<open>LibCompare\<close>, \<open>LibStrerror\<close>: the comparators and what sorting with them gives; the messages.
  \<^item> \<open>LibProperties\<close>, \<open>LibRoundTrip\<close>: what a start, a command and a listing do, and what becomes
    of a service the kernel echoes and of the counters it sends of a destination.
  \<^item> \<open>LibTyping\<close>: the types of what the library sends. A message is split into its entries, typed
    by the policy tables and the entries its command takes; \<open>run_call\<close> executes any call of
    \<^verbatim>\<open>libipvs.h\<close> that talks to the kernel, and every one keeps the trace well typed.
  \<^item> \<open>NetTools\<close>, \<open>IpvsInterface\<close> (\<^verbatim>\<open>net_tools.cpp\<close>, \<^verbatim>\<open>ipvs_interface.cpp\<close>): lookups, address and
    port parsing, starting with \<^verbatim>\<open>modprobe\<close>, setting a weight.
  \<^item> \<open>HttpRequest\<close> (\<^verbatim>\<open>connection_handler\<close>): the reader of the body over 64-bit sizes, the checks,
    the answers, and the whole call \<open>handle_post_request\<close> on the shared state.
  \<^item> \<open>HttpServer\<close>: \<open>server_start\<close> and \<open>server_stop\<close>; the handlers as state machines cut at their
    mutex operations, and the step relation \<open>server_step\<close> that interleaves them. A locale
    \<open>mutex_guard\<close> says what a mutex promises, with an interpretation for each of the two.
  \<^item> \<open>HttpProperties\<close>: no deadlock, termination of the work and the answer each request gets;
    authorisation under every interleaving; what an exception leaves.
  \<^item> \<open>HttpSerial\<close>: the interleaved server against \<open>serve_all\<close>, which handles one request after
    another with \<open>handle_post_request\<close>: an order of the answered requests explains (\<open>explains\<close>)
    every reachable configuration, and later answers extend it; \<open>asks\<close> accounts for every
    request the kernel got.
  \<^item> \<open>EndToEnd\<close>: a request through the wrapper and the library, for any transport
    (\<open>request_delivered\<close>) and for netlink when libnl works (\<open>nl_works\<close>); a running server sends
    nothing ill-typed (\<open>server_trace_typed\<close>).
  \<^item> \<open>Program\<close> (\<^verbatim>\<open>ipvshttpd.cpp\<close>, \<^verbatim>\<open>file_tools.cpp\<close>, \<^verbatim>\<open>rate_test.cpp\<close>): arguments, start, exit codes,
    and the order of the actions of the serving process: pid file, server start and stop.
  \<^item> This theory joins them: \<open>request_sets_weight\<close> follows a request from its chunks to the kernel
    request it becomes, and \<open>daemon_closes_everything\<close> follows the whole program from its arguments
    to its exit, with the server library assumed only to run the handlers (\<open>runs_handlers\<close>), and
    counts the sockets that failed initialisations leave (\<open>failed_inits\<close>);
    \<open>rate_test_sets_weight\<close> is the same for the rate test.

  State. A static or global of the code is a field of the record of its component (\<open>lib\<close>,
  \<open>ipvs_interface\<close>, \<open>server\<close>, \<open>log_state\<close>), passed and returned. A failing call returns the code's
  error value; exceptions of libraries and blocking are outcomes. Memory is counted, not
  addressed: \<open>live\<close> lists what is allocated, and a write outside a table raises the flag \<open>ub\<close>.

  Parameters. The record \<open>sys\<close> holds libnl, sockets, socket options and \<^verbatim>\<open>malloc\<close>; \<open>resolver\<close> the
  name service; \<open>jsoncpp\<close> the JSON library; \<open>netlib\<close> cpp-netlib and SSL; \<open>os\<close> files and \<^verbatim>\<open>fork\<close>;
  \<open>modprobe\<close> the child process. They are arbitrary functions over an abstract world; only
  what a theorem assumes of them is relied on. Whether netlink is compiled in
  (\<^verbatim>\<open>LIBIPVS_USE_NL\<close>) is the field \<open>libipvs_use_nl\<close>, and both builds are covered.

  Bounds. The model has no fuel. A handler has at most five steps (\<open>total_work_bound\<close>). The loop
  of \<open>str_split\<close> is a partial function, and exactly its returning arguments are characterised.
  Widths are kept: 32-bit \<^verbatim>\<open>int\<close>s, 64-bit sizes and counters, 16-bit ports; only the count of
  pieces in \<open>str_split_loop\<close> is unbounded.

  Assumptions of the model. The section of a handler under a mutex is one step of the
  interleaving. An exception that leaves a handler ends in cpp-netlib and the server goes on.
  Deleting the server object from the signal handler, within its own run, does no harm. The
  kernel fills no more of the buffer of \<open>ipvs_get_daemon\<close> than its two entries.

  Not modelled. The headers' comments and declarations have no behaviour of their own.
  \<^verbatim>\<open>addr_to_anyname\<close> of \<^verbatim>\<open>net_tools.cpp\<close> does not compile. \<^verbatim>\<open>health_check.h\<close> is an empty class.
  Which thread runs which handler, and the sockets and SSL under cpp-netlib, are below the
  model. \<^verbatim>\<open>umask\<close> and the time \<^verbatim>\<open>syslog\<close> adds have no part in the state. The format
  reading of \<^verbatim>\<open>syslog\<close> is not followed: the event holds the string passed as format.
\<close>

section \<open>From the bytes of a request to the kernel\<close>

text \<open>C1. A whole request in the build without netlink. When the chunks of the body add up to the
  announced length, the body carries the configured key, a host that is the name or address of a
  server and an integer, the configured vip is an IPv4 address or name with a port, and the kernel
  takes the option, then reading completes with the body, the call returns with the mutexes free,
  the answer is the success answer with status ok, and the kernel was asked for exactly one thing
  more: to set that weight for the server, at the port of the vip, of the TCP service at the vip.\<close>

theorem request_sets_weight:
  assumes "start_reading headers = word_of_nat (length (concat (ds @ [d])))"
    and "length (concat (ds @ [d])) < 2 ^ 64" and "d \<noteq> [] \<or> ds = []"
    and "check_request J (concat (ds @ [d])) (m_api_key (config s)) = Accepted h k"
    and "json_as_string J h = Some host" and "json_as_int J k = Some weight"
    and "m_vip (config s) = vip @ CHR '':'' # dec_of_int p" and "0 < p" and "p \<le> 65535"
    and "ipv4_name R vip a" and "ipv4_name R host b" and "inet_pton6 R (vip @ CHR '':'' # dec_of_int p) = None"
    and "\<not> configuration_mutex s" and "\<not> ipvs_mutex s" and "\<not> nl_mode L (ipvs_lib (ipvs s))"
    and "setsockopt L (sockfd (ipvs_lib (ipvs s))) IP_VS_SO_SET_EDITDEST (edit_request a b p weight)
      (world (ipvs_lib (ipvs s))) = (Inr u, w')"
  shows "\<exists>con' s'. read_body (start_reading headers) [] (chunks (ds @ [d]) @ events) = Complete (concat (ds @ [d])) events
    \<and> handle_post_request J L R (concat (ds @ [d])) con s = (Returned, con', s')
    \<and> con_status con' = Some status_ok \<and> con_written con' = con_written con @ ok_body
    \<and> \<not> configuration_mutex s' \<and> \<not> ipvs_mutex s'
    \<and> requests s' = requests s @ [SoRequest IP_VS_SO_SET_EDITDEST (edit_request a b p weight)]"
proof -
  have lib: "ipvs_lib (ipvs (settled s)) = ipvs_lib (ipvs s)" by simp
  then obtain i where "set_weight L R (c_str (m_vip (config s))) host weight (ipvs (settled s)) = (True, i)"
    and "sent (ipvs_lib i) = requests s @ [SoRequest IP_VS_SO_SET_EDITDEST (edit_request a b p weight)]"
    using set_weight_ipv4 [OF assms(10,11,8,9,12), of L "ipvs (settled s)" weight u w'] assms(7,15,16)
      configured_vip [OF assms(10)] by auto
  with request_delivered [OF assms(1-6,13,14), of L R i events con] show ?thesis by simp
qed

lemma request_sets_weight_witness:
  "\<exists>con' s'. sample_post ''good'' sample_server = (Returned, con', s') \<and> con_status con' = Some status_ok
     \<and> requests s' = [SoRequest IP_VS_SO_SET_EDITDEST (edit_request 0x0100000A 0x0200000A 80 7)]"
proof -
  have mode: "\<not> nl_mode (sample_sys False) (ipvs_lib (ipvs sample_server))" by code_simp
  let ?call = "setsockopt (sample_sys False) (sockfd (ipvs_lib (ipvs sample_server))) IP_VS_SO_SET_EDITDEST
      (edit_request 0x0100000A 0x0200000A 80 7) (world (ipvs_lib (ipvs sample_server)))"
  obtain u w' where call: "?call = (Inr u, w')" by (simp add: sample_sys_def)
  have "requests sample_server = []" by (simp add: sample_server_def sample_interface_def lib_start_def)
  with request_sets_weight [OF sample_request(1) _ _ sample_request(2-4) sample_vip _ _ sample_names sample_free
      mode call, of "[]" connection_start]
  show ?thesis by auto
qed

section \<open>The life of the whole program\<close>

text \<open>The server library only ever runs handlers: a run of it is a run of their steps.\<close>

definition runs_handlers ::
  "'j jsoncpp \<Rightarrow> ('w, 'm, 'a) sys \<Rightarrow> resolver \<Rightarrow> 'w netlib \<Rightarrow> bool" where
  "runs_handlers J L R N \<longleftrightarrow>
     (\<forall>opts s e t. server_run N opts s = (e, t) \<longrightarrow> (\<exists>hs. (server_step J L R)\<^sup>*\<^sup>* (s, []) (t, hs)))"

lemma log_with_frame [simp]:
  "ipvs_lib (ipvs (log_with log m s)) = ipvs_lib (ipvs s)"
  "m_initialized (ipvs (log_with log m s)) = m_initialized (ipvs s)"
  by (simp_all add: log_with_def)

lemma server_stop_frame [simp]:
  "ipvs_lib (ipvs (snd (server_stop h s))) = ipvs_lib (ipvs s)"
  "m_initialized (ipvs (snd (server_stop h s))) = m_initialized (ipvs s)"
  by (simp_all add: server_stop_def)

lemma ssl_context_frame:
  "ssl_context N s = (c, t) \<Longrightarrow> ipvs_lib (ipvs t) = ipvs_lib (ipvs s) \<and> m_initialized (ipvs t) = m_initialized (ipvs s)"
  by (auto simp: ssl_context_def Let_def split: if_splits)

lemma run_server_safe:
  assumes "runs_handlers J L R N" and "run_server N ctx h s = (Start_Returned r, h', t)"
  shows "safe (ipvs_lib (ipvs s)) (ipvs_lib (ipvs t)) \<and> m_initialized (ipvs t) = m_initialized (ipvs s)"
proof -
  let ?opts = "\<lparr>opt_address = m_listen h, opt_port = str_from_number (sint (m_listen_port h)),
      opt_reuse_address = True, opt_threads = m_num_threads h, opt_context = ctx\<rparr>"
  let ?s = "log_with log_message ''Server start.'' s" and ?h = "h\<lparr>m_server := Some ?opts\<rparr>"
  obtain e u where e: "server_run N ?opts ?s = (e, u)" by fastforce
  obtain hs where "(server_step J L R)\<^sup>*\<^sup>* (?s, []) (u, hs)"
    using assms(1) e unfolding runs_handlers_def by blast
  from server_steps_safe [OF this] have u: "safe (ipvs_lib (ipvs s)) (ipvs_lib (ipvs u))"
    "m_initialized (ipvs u) = m_initialized (ipvs s)" by simp_all
  have "t = u \<or> t = snd (server_stop ?h u)"
    using assms(2) e by (cases e) (auto simp: run_server_def Let_def case_prod_beta split: if_splits)
  with u show ?thesis by auto
qed

text \<open>After a start that returned, the wrapper is as its initialisation and a safe run left it.\<close>

lemma server_start_frame:
  assumes "runs_handlers J L R N" and "server_start L run N h s = (Start_Returned r, h', t)"
  shows "\<exists>ok i. init L run (ipvs s) = (ok, i) \<and> safe (ipvs_lib i) (ipvs_lib (ipvs t))
    \<and> m_initialized (ipvs t) = m_initialized i"
proof -
  obtain ok i where i: "init L run (ipvs s) = (ok, i)" by fastforce
  let ?s = "s\<lparr>ipvs_mutex := True, ipvs := i, ipvs_mutex := False\<rparr>"
  obtain h2 s2 where stop: "(if m_server h \<noteq> None then server_stop h ?s else (h, ?s)) = (h2, s2)" by fastforce
  have s2: "ipvs_lib (ipvs s2) = ipvs_lib i" "m_initialized (ipvs s2) = m_initialized i"
  proof -
    have "s2 = ?s \<or> s2 = snd (server_stop h ?s)" using stop by (metis snd_conv)
    then show "ipvs_lib (ipvs s2) = ipvs_lib i" "m_initialized (ipvs s2) = m_initialized i" by auto
  qed
  obtain c s3 where c: "ssl_context N s2 = (c, s3)" by fastforce
  note s3 = ssl_context_frame [OF c]
  have free: "\<not> ipvs_mutex s" using assms(2) by (auto simp: server_start_def split: if_splits)
  have init_eq: "init L run (ipvs (s\<lparr>ipvs_mutex := True\<rparr>)) = (ok, i)" using i by simp
  have start: "server_start L run N h s = (if \<not> ok then (Start_Returned False, h, ?s)
      else (case c of None \<Rightarrow> (Start_Threw, h2, s3) | Some ctx \<Rightarrow> run_server N ctx h2 s3))"
    unfolding server_start_def if_not_P [OF free] Let_def init_eq prod.case stop c by simp
  show ?thesis
  proof (cases "ok \<and> c \<noteq> None")
    case True
    then obtain ctx where "c = Some ctx" by auto
    with True start assms(2) have "run_server N ctx h2 s3 = (Start_Returned r, h', t)" by simp
    from run_server_safe [OF assms(1) this] i s2 s3 show ?thesis by simp
  next
    case False
    with start assms(2) have "t = ?s" by (auto split: if_splits)
    with i show ?thesis by simp
  qed
qed

lemma safe_close: "safe s t \<Longrightarrow> live (ipvs_close L t) = live (ipvs_close L s) \<and> ub (ipvs_close L t) = ub (ipvs_close L s)"
  by (auto simp: safe_def balanced_def ipvs_close_def nl_mode_def)

lemma leave_frame: "\<exists>g. snd (leave L code h s fs) = (g\<lparr>ipvs := destroy L (ipvs g)\<rparr>, fs)
    \<and> ipvs_lib (ipvs g) = ipvs_lib (ipvs s) \<and> m_initialized (ipvs g) = m_initialized (ipvs s)"
  by (intro exI [of _ "snd (server_stop h s)"]) (simp add: leave_def case_prod_beta)

text \<open>A state whose destructor leaves nothing open but \<open>n\<close> raw sockets, and nothing undefined.\<close>

definition closes :: "nat \<Rightarrow> ('w, 'm, 'a) sys \<Rightarrow> 'w server \<Rightarrow> bool" where
  "closes n L s \<longleftrightarrow> (\<exists>fds. length fds \<le> n \<and> live (ipvs_lib (destroy L (ipvs s))) = map Fd fds)
     \<and> \<not> ub (ipvs_lib (destroy L (ipvs s)))"

lemma closes_cong:
  "ipvs_lib (ipvs t) = ipvs_lib (ipvs s) \<Longrightarrow> m_initialized (ipvs t) = m_initialized (ipvs s) \<Longrightarrow> closes n L t = closes n L s"
  by (simp add: closes_def destroy_def)

lemma closes_frame [simp]:
  "closes n L (log_with log m s) = closes n L s" "closes n L (with_log l s) = closes n L s"
  "closes n L (announce s) = closes n L s" "closes n L (snd (server_stop h s)) = closes n L s"
  by (rule closes_cong; simp add: announce_def)+

lemma leave_closes:
  "leave L c h s fs = (e, t, gs) \<Longrightarrow> closes n L s \<Longrightarrow>
   (\<exists>fds. length fds \<le> n \<and> live (ipvs_lib (ipvs t)) = map Fd fds) \<and> \<not> ub (ipvs_lib (ipvs t))"
  using leave_frame [of L c h s fs] closes_cong [of _ s n L] by (auto simp: closes_def)

lemma startup_frame:
  "ipvs_lib (ipvs (snd (startup OS prog args s))) = ipvs_lib (ipvs s)"
  "m_initialized (ipvs (snd (startup OS prog args s))) = m_initialized (ipvs s)"
  by (simp_all add: startup_def Let_def case_prod_beta with_log_def split: option.split)

text \<open>An initialisation, whatever came of it, can be closed after any safe run.\<close>

lemma init_closes:
  assumes "live (ipvs_lib (ipvs s)) = []" and "\<not> ub (ipvs_lib (ipvs s))" and "\<not> m_initialized (ipvs s)"
    and "init L run (ipvs s) = (ok, i)" and "safe (ipvs_lib i) (ipvs_lib (ipvs t))" and "m_initialized (ipvs t) = m_initialized i"
  shows "closes (failed_inits L run (ipvs_lib (ipvs s))) L t"
proof -
  note left = init_leaves [OF assms(4)]
  have "live (ipvs_lib (ipvs t)) = live (ipvs_lib i)" "ub (ipvs_lib (ipvs t)) = ub (ipvs_lib i)"
    using assms(5) by (simp_all add: safe_def balanced_def)
  moreover have "ub (ipvs_close L u) = ub u" for u by (simp add: ipvs_close_def)
  ultimately show ?thesis
    using left safe_close [OF assms(5), of L] assms(1-3,6) by (cases ok) (auto simp: closes_def destroy_def opened_def)
qed

text \<open>C4. Whenever the program comes to an exit, for whatever arguments, files, kernel, requests and
  schedule, every message, netlink socket and block the library ever allocated has been freed, no
  undefined behaviour of it happened, and what is left open is at most one raw socket for each of the
  (at most two) initialisations of the library that fail: nothing at all when the first one works.\<close>

theorem daemon_closes_everything:
  assumes "runs_handlers J L R N"
    and "main_program OS N L run prog args (program_start w) = (Exit code, t, fs)"
  shows "\<not> ub (ipvs_lib (ipvs t))
    \<and> (\<exists>fds. length fds \<le> failed_inits L run (lib_start w) \<and> live (ipvs_lib (ipvs t)) = map Fd fds)
    \<and> (fst (ipvs_init L (lib_start w)) = 0 \<longrightarrow> live (ipvs_lib (ipvs t)) = [])"
proof -
  let ?n = "failed_inits L run (lib_start w)"
  let ?closed = "(\<exists>fds. length fds \<le> ?n \<and> live (ipvs_lib (ipvs t)) = map Fd fds) \<and> \<not> ub (ipvs_lib (ipvs t))"
  obtain p s1 where st: "startup OS prog args (program_start w) = (p, s1)" by fastforce
  have s1: "ipvs_lib (ipvs s1) = lib_start w" "\<not> m_initialized (ipvs s1)"
    using startup_frame [of OS prog args "program_start w", unfolded st] by (simp_all add: program_start_def)
  then have c1: "closes ?n L s1" by (simp add: closes_def destroy_def lib_start_def)
  have served: ?closed if run: "serve OS N L run q h (announce s1) = (Exit code, t, fs)" for q h
  proof -
    obtain r h2 s2 where start: "server_start L run N h (announce s1) = (r, h2, s2)" by (metis prod_cases3)
    show ?thesis
    proof (cases r)
      case (Start_Returned ok)
      obtain ok' i where i: "init L run (ipvs (announce s1)) = (ok', i)" "safe (ipvs_lib i) (ipvs_lib (ipvs s2))"
        "m_initialized (ipvs s2) = m_initialized i"
        using server_start_frame [OF assms(1) start [unfolded Start_Returned]] by blast
      from init_closes [OF _ _ _ i] s1 have "closes ?n L s2" by (simp add: lib_start_def)
      with run start Start_Returned c1 show ?thesis
        by (auto simp: serve_def Let_def case_prod_beta dest!: leave_closes split: if_splits)
    qed (use run start c1 in \<open>auto simp: serve_def dest!: leave_closes split: if_splits\<close>)
  qed
  have closed: ?closed
  proof (cases p)
    case None
    with assms(2) st have "t = s1\<lparr>ipvs := destroy L (ipvs s1)\<rparr>" by (simp add: main_program_def)
    with c1 show ?thesis by (simp add: closes_def)
  next
    case (Some q)
    with assms(2) st served c1 show ?thesis
      by (auto simp: main_program_def Let_def dest!: leave_closes split: if_splits)
  qed
  moreover have "?n = 0" if "fst (ipvs_init L (lib_start w)) = 0"
    using that by (simp add: failed_inits_def case_prod_beta Let_def)
  ultimately show ?thesis by fastforce
qed

text \<open>A kernel without the module: its first initialisation fails, and one socket stays open.\<close>

lemma daemon_closes_everything_witness:
  "\<exists>fd. live (ipvs_lib (ipvs (fst (snd (main_program sample_os sample_netlib sample_unloaded
     (\<lambda>w. (Inr (Some 0), [] # w)) ''ipvshttpd'' [''-f''] (program_start [])))))) = [Fd fd]"
proof -
  let ?m = "main_program sample_os sample_netlib sample_unloaded (\<lambda>w. (Inr (Some 0), [] # w)) ''ipvshttpd'' [''-f'']
      (program_start [])"
  have "fst ?m = Exit 0" by code_simp
  then have m: "?m = (Exit 0, fst (snd ?m), snd (snd ?m))" by (simp add: prod_eq_iff)
  have runs: "runs_handlers (sample_json sample_texts) sample_unloaded sample_resolver sample_netlib"
    by (auto simp: runs_handlers_def sample_netlib_def)
  have "failed_inits sample_unloaded (\<lambda>w. (Inr (Some 0), [] # w)) (lib_start []) = 1"
    and some: "live (ipvs_lib (ipvs (fst (snd ?m)))) \<noteq> []" by code_simp+
  with daemon_closes_everything [OF runs m] obtain fds where "length fds \<le> 1"
    "live (ipvs_lib (ipvs (fst (snd ?m)))) = map Fd fds" by auto
  with some show ?thesis by (cases fds) auto
qed

section \<open>The rate test\<close>

text \<open>
  When the rate test exits with 0, its arguments named a service and a server, its last kernel
  request set the weight it was given, and, if the first initialisation worked, nothing is left open.
\<close>

lemma rate_test_sets_weight:
  assumes "rate_test_main L run R prog [vip, server, weight] i = (0, j)" and "fst (ipvs_init L (ipvs_lib i)) = 0"
    and "live (ipvs_lib i) = []"
  shows "live (ipvs_lib j) = [] \<and> (\<exists>svc dst s rs. weight_target R vip server (atoi weight) = Some (svc, dst)
    \<and> dst_weight dst = atoi weight \<and> sent (ipvs_lib j) = rs @ [request_of L (UpdateDest svc dst) s])"
proof -
  obtain u where u: "ipvs_init L (ipvs_lib i) = (0, u)" using assms(2) by (metis prod.collapse)
  let ?i = "i\<lparr>ipvs_lib := u, m_initialized := True\<rparr>"
  have started: "init L run i = (True, ?i)" using u by (simp add: init_def)
  obtain ok k where k: "set_weight L R vip server (atoi weight) ?i = (ok, k)" by fastforce
  with assms(1) started have ok: ok "j = destroy L k" by (auto split: if_splits)
  with set_weight_cases [OF k] obtain svc dst where tgt: "weight_target R vip server (atoi weight) = Some (svc, dst)"
    by (auto split: option.splits)
  from set_weight_update [OF k tgt] ok have k': "safe u (ipvs_lib k)" "m_initialized k"
    "sent (ipvs_lib k) = sent u @ [request_of L (UpdateDest svc dst) u]" by simp_all
  have "live (ipvs_close L u) = []" using init_outcome [OF u] assms(3) by simp
  with safe_close [OF k'(1), of L] k' ok have "live (ipvs_lib j) = []"
    and "sent (ipvs_lib j) = sent u @ [request_of L (UpdateDest svc dst) u]"
    by (simp_all add: destroy_def) (simp add: ipvs_close_def)
  with tgt weight_target_fields [OF tgt] show ?thesis by blast
qed

end
